(* ===== verification/Go_Prelude.thy ===== *)
theory Go_Prelude
  imports Main "HOL-Library.Word"
begin

unbundle bit_operations_syntax

text \<open>
  Prelude of the development: the fragment of the Go language and of its standard library that
  every component uses. It holds byte strings and slices, the fixed-width big- and little-endian
  codecs of \<^verbatim>\<open>encoding/binary\<close> and the byte form of \<^verbatim>\<open>math/big\<close> integers. The collections
  \<open>bytes_simps\<close>, \<open>codec_simps\<close> and \<open>io_success\<close> carry the component proofs.
\<close>

named_theorems bytes_simps "lengths and slices of byte strings"
named_theorems codec_simps "encode/decode equations"
named_theorems io_success "inversion of successful effectful computations"
named_theorems frame_rules "views of the state that an action keeps"

section \<open>Bytes and slices\<close>

type_synonym byte = "8 word"
type_synonym bytes = "byte list"

text \<open>
  The slice expression \<^verbatim>\<open>s[lo:hi]\<close>. Go panics when the bounds do not satisfy
  \<open>lo \<le> hi \<le> len s\<close>; every use below is guarded by the length check the source performs, or
  carries the panic as an error value.
\<close>

definition slice :: "'a list \<Rightarrow> nat \<Rightarrow> nat \<Rightarrow> 'a list" where
  "slice xs lo hi = take (hi - lo) (drop lo xs)"

text \<open>
  \<^verbatim>\<open>copy(dst[lo:], src)\<close>: the bytes of \<open>src\<close> overwrite \<open>dst\<close> from offset \<open>lo\<close> on, and what does
  not fit is dropped.
\<close>

definition copy_at :: "'a list \<Rightarrow> nat \<Rightarrow> 'a list \<Rightarrow> 'a list" where
  "copy_at dst lo src =
     take lo dst @ take (length dst - lo) src @ drop (lo + length src) dst"

lemma length_slice [simp, bytes_simps]: "length (slice xs lo hi) = min (hi - lo) (length xs - lo)"
  by (simp add: slice_def)

lemma length_copy_at [simp, bytes_simps]:
  "lo \<le> length dst \<Longrightarrow> length (copy_at dst lo src) = length dst"
  by (simp add: copy_at_def min_def)

lemma slice_append_left:
  "hi \<le> length xs \<Longrightarrow> slice (xs @ ys) lo hi = slice xs lo hi"
  by (simp add: slice_def)

lemma slice_append_right:
  "length xs \<le> lo \<Longrightarrow> slice (xs @ ys) lo hi = slice ys (lo - length xs) (hi - length xs)"
  by (cases "lo \<le> hi") (simp_all add: slice_def)

lemma slice_full [simp]: "length xs \<le> hi \<Longrightarrow> slice xs 0 hi = xs"
  by (simp add: slice_def)

lemma slice_0_take: "slice xs 0 hi = take hi xs"
  by (simp add: slice_def)

lemma slice_copy_at_same:
  assumes "lo + length src \<le> length dst"
  shows "slice (copy_at dst lo src) lo (lo + length src) = src"
  using assms by (simp add: slice_def copy_at_def)

lemma slice_copy_at_before:
  assumes "hi \<le> lo" "lo \<le> length dst"
  shows "slice (copy_at dst lo src) a hi = slice dst a hi"
proof (cases "a \<le> hi")
  case True
  with assms have "slice (copy_at dst lo src) a hi = slice (take lo dst) a hi"
    by (simp add: copy_at_def slice_append_left)
  also have "\<dots> = slice dst a hi"
    using assms True by (simp add: slice_def drop_take min_def)
  finally show ?thesis .
next
  case False
  then show ?thesis by (simp add: slice_def)
qed

lemma slice_copy_at_after:
  assumes "lo + length src \<le> a" "lo + length src \<le> length dst"
  shows "slice (copy_at dst lo src) a hi = slice dst a hi"
  using assms by (simp add: slice_def copy_at_def)

lemma take_copy_at_before:
  "n \<le> lo \<Longrightarrow> lo \<le> length dst \<Longrightarrow> take n (copy_at dst lo src) = take n dst"
  using slice_copy_at_before[of n lo dst src 0] by (simp add: slice_0_take)

section \<open>Integers as byte strings\<close>

text \<open>
  \<open>nat_of_be\<close> is \<^verbatim>\<open>big.Int.SetBytes\<close>; \<open>be_of_nat k n\<close> is the \<open>k\<close>-byte big-endian form of
  \<open>n mod 256 ^ k\<close>, which is what a conversion to \<^verbatim>\<open>uint16\<close>, \<^verbatim>\<open>uint32\<close> or \<^verbatim>\<open>uint64\<close> followed by
  \<^verbatim>\<open>binary.BigEndian.PutUintN\<close> writes.
\<close>

fun be_of_nat :: "nat \<Rightarrow> nat \<Rightarrow> bytes" where
  "be_of_nat 0 n = []"
| "be_of_nat (Suc k) n = be_of_nat k (n div 256) @ [word_of_nat n]"

definition nat_of_be :: "bytes \<Rightarrow> nat" where
  "nat_of_be bs = foldl (\<lambda>a b. a * 256 + unat b) 0 bs"

definition le_of_nat :: "nat \<Rightarrow> nat \<Rightarrow> bytes" where
  "le_of_nat k n = rev (be_of_nat k n)"

definition nat_of_le :: "bytes \<Rightarrow> nat" where
  "nat_of_le bs = nat_of_be (rev bs)"

lemma length_be_of_nat [simp, bytes_simps]: "length (be_of_nat k n) = k"
  by (induction k arbitrary: n) auto

lemma length_le_of_nat [simp, bytes_simps]: "length (le_of_nat k n) = k"
  by (simp add: le_of_nat_def)

lemma nat_of_be_Nil [simp]: "nat_of_be [] = 0"
  by (simp add: nat_of_be_def)

lemma nat_of_be_snoc [simp]: "nat_of_be (bs @ [b]) = nat_of_be bs * 256 + unat b"
  by (simp add: nat_of_be_def)

lemma unat_byte_less: "unat (b :: byte) < 256"
  using unsigned_less[of b, where ?'a = nat] by simp

lemma unat_word_of_nat_byte: "unat (word_of_nat n :: byte) = n mod 256"
  by (simp add: unat_of_nat)

lemma nat_of_be_of_nat [codec_simps]: "nat_of_be (be_of_nat k n) = n mod 256 ^ k"
proof (induction k arbitrary: n)
  case 0
  show ?case by simp
next
  case (Suc k)
  have "nat_of_be (be_of_nat (Suc k) n) = (n div 256) mod 256 ^ k * 256 + n mod 256"
    by (simp add: Suc unat_word_of_nat_byte)
  also have "\<dots> = n mod (256 * 256 ^ k)"
    by (simp add: mod_mult2_eq ac_simps)
  finally show ?case by simp
qed

lemma nat_of_be_bound: "nat_of_be bs < 256 ^ length bs"
proof (induction bs rule: rev_induct)
  case Nil
  show ?case by simp
next
  case (snoc b bs)
  have "nat_of_be bs * 256 + unat b < (nat_of_be bs + 1) * 256"
    using unat_byte_less[of b] by simp
  also have "\<dots> \<le> 256 ^ length bs * 256"
    using snoc by simp
  finally show ?case by simp
qed

lemma be_of_nat_of_be [codec_simps]: "be_of_nat (length bs) (nat_of_be bs) = bs"
proof (induction bs rule: rev_induct)
  case Nil
  show ?case by simp
next
  case (snoc b bs)
  have "(nat_of_be bs * 256 + unat b) div 256 = nat_of_be bs"
    using unat_byte_less[of b] by simp
  moreover have "(word_of_nat (nat_of_be bs * 256 + unat b) :: byte) = b"
    by (rule word_unat_eq_iff[THEN iffD2])
      (simp only: unat_word_of_nat_byte, use unat_byte_less[of b] in simp)
  ultimately show ?case using snoc by simp
qed

lemma nat_of_be_inj:
  "length xs = length ys \<Longrightarrow> nat_of_be xs = nat_of_be ys \<Longrightarrow> xs = ys"
  by (metis be_of_nat_of_be)

lemma be_of_nat_inj:
  "m < 256 ^ k \<Longrightarrow> n < 256 ^ k \<Longrightarrow> be_of_nat k m = be_of_nat k n \<Longrightarrow> m = n"
  by (metis mod_less nat_of_be_of_nat)

lemma nat_of_le_of_nat [codec_simps]: "nat_of_le (le_of_nat k n) = n mod 256 ^ k"
  by (simp add: nat_of_le_def le_of_nat_def nat_of_be_of_nat)

lemma le_of_nat_of_le [codec_simps]: "length bs = k \<Longrightarrow> le_of_nat k (nat_of_le bs) = bs"
  unfolding nat_of_le_def le_of_nat_def
  using be_of_nat_of_be[of "rev bs"] by simp

lemma nat_of_le_bound: "nat_of_le bs < 256 ^ length bs"
  using nat_of_be_bound[of "rev bs"] by (simp add: nat_of_le_def)

lemma nat_of_be_replicate0 [simp]: "nat_of_be (replicate k 0 @ bs) = nat_of_be bs"
  by (induction k) (simp_all add: nat_of_be_def)

text \<open>
  \<^verbatim>\<open>big.Int.Bytes\<close>: the shortest big-endian form, empty for zero.
\<close>

function bigBytes :: "nat \<Rightarrow> bytes" where
  "bigBytes n = (if n = 0 then [] else bigBytes (n div 256) @ [word_of_nat n])"
  by pat_completeness auto
termination
  by (relation "measure id") auto

declare bigBytes.simps [simp del]

lemma bigBytes_0 [simp]: "bigBytes 0 = []"
  by (subst bigBytes.simps) simp

lemma nat_of_be_bigBytes [codec_simps, simp]: "nat_of_be (bigBytes n) = n"
proof (induction n rule: bigBytes.induct)
  case (1 n)
  show ?case
  proof (cases "n = 0")
    case False
    with 1 have "nat_of_be (bigBytes (n div 256)) = n div 256" by simp
    with False show ?thesis by (subst bigBytes.simps) (simp add: unat_word_of_nat_byte)
  qed simp
qed

lemma length_bigBytes_le: "n < 256 ^ k \<Longrightarrow> length (bigBytes n) \<le> k"
proof (induction n arbitrary: k rule: bigBytes.induct)
  case (1 n)
  show ?case
  proof (cases "n = 0")
    case False
    with "1.prems" obtain j where k: "k = Suc j" by (cases k) auto
    with "1.prems" have "n div 256 < 256 ^ j" by (simp add: div_less_iff_less_mult mult.commute)
    with "1.IH" False have "length (bigBytes (n div 256)) \<le> j" by blast
    with False k show ?thesis by (subst bigBytes.simps) simp
  qed simp
qed

text \<open>Left padding with zeros to a fixed width, the shape of every coordinate on the wire.\<close>

lemma padded_bigBytes [codec_simps]:
  assumes "n < 256 ^ k"
  shows "replicate (k - length (bigBytes n)) 0 @ bigBytes n = be_of_nat k n"
proof (rule nat_of_be_inj)
  have "length (bigBytes n) \<le> k" by (rule length_bigBytes_le[OF assms])
  then show "length (replicate (k - length (bigBytes n)) 0 @ bigBytes n) = length (be_of_nat k n)"
    by simp
  show "nat_of_be (replicate (k - length (bigBytes n)) 0 @ bigBytes n) = nat_of_be (be_of_nat k n)"
    using assms by (simp add: nat_of_be_of_nat)
qed

section \<open>Machine integers on the wire\<close>

definition BigEndian_PutUint16 :: "16 word \<Rightarrow> bytes" where
  "BigEndian_PutUint16 w = be_of_nat 2 (unat w)"

definition BigEndian_Uint16 :: "bytes \<Rightarrow> 16 word" where
  "BigEndian_Uint16 bs = word_of_nat (nat_of_be (take 2 bs))"

definition BigEndian_PutUint64 :: "64 word \<Rightarrow> bytes" where
  "BigEndian_PutUint64 w = be_of_nat 8 (unat w)"

definition LittleEndian_Uint16 :: "bytes \<Rightarrow> 16 word" where
  "LittleEndian_Uint16 bs = word_of_nat (nat_of_le (take 2 bs))"

definition LittleEndian_PutUint16 :: "16 word \<Rightarrow> bytes" where
  "LittleEndian_PutUint16 w = le_of_nat 2 (unat w)"

definition LittleEndian_Uint32 :: "bytes \<Rightarrow> 32 word" where
  "LittleEndian_Uint32 bs = word_of_nat (nat_of_le (take 4 bs))"

definition LittleEndian_PutUint32 :: "32 word \<Rightarrow> bytes" where
  "LittleEndian_PutUint32 w = le_of_nat 4 (unat w)"

lemma length_PutUint [simp, bytes_simps]:
  "length (BigEndian_PutUint16 h) = 2" "length (BigEndian_PutUint64 d) = 8"
  "length (LittleEndian_PutUint16 h) = 2" "length (LittleEndian_PutUint32 w) = 4"
  by (simp_all add: BigEndian_PutUint16_def BigEndian_PutUint64_def LittleEndian_PutUint16_def
      LittleEndian_PutUint32_def)

lemma unat_16_mod: "unat (w :: 16 word) mod 65536 = unat w"
  using unsigned_less[of w, where ?'a = nat] by simp

lemma unat_32_mod: "unat (w :: 32 word) mod 4294967296 = unat w"
  using unsigned_less[of w, where ?'a = nat] by simp

lemma BigEndian_Uint16_Put [simp, codec_simps]:
  "BigEndian_Uint16 (BigEndian_PutUint16 w) = w"
  by (simp add: BigEndian_Uint16_def BigEndian_PutUint16_def nat_of_be_of_nat unat_16_mod)

lemma LittleEndian_Uint16_Put [simp, codec_simps]:
  "LittleEndian_Uint16 (LittleEndian_PutUint16 w @ bs) = w"
  by (simp add: LittleEndian_Uint16_def LittleEndian_PutUint16_def nat_of_le_of_nat unat_16_mod)

lemma LittleEndian_Uint32_Put [simp, codec_simps]:
  "LittleEndian_Uint32 (LittleEndian_PutUint32 w @ bs) = w"
  by (simp add: LittleEndian_Uint32_def LittleEndian_PutUint32_def nat_of_le_of_nat unat_32_mod)

lemma BigEndian_Put_Uint16 [codec_simps]:
  assumes "length bs = 2"
  shows "BigEndian_PutUint16 (BigEndian_Uint16 bs) = bs"
proof -
  have "nat_of_be bs < 65536" using nat_of_be_bound[of bs] assms by simp
  then have "unat (word_of_nat (nat_of_be bs) :: 16 word) = nat_of_be bs"
    by (simp add: unat_of_nat)
  with assms be_of_nat_of_be[of bs] show ?thesis
    by (simp add: BigEndian_Uint16_def BigEndian_PutUint16_def)
qed

lemma LittleEndian_Put_Uint32 [codec_simps]:
  assumes "length bs = 4"
  shows "LittleEndian_PutUint32 (LittleEndian_Uint32 bs) = bs"
proof -
  have "nat_of_le bs < 4294967296" using nat_of_le_bound[of bs] assms by simp
  then have "unat (word_of_nat (nat_of_le bs) :: 32 word) = nat_of_le bs"
    by (simp add: unat_of_nat)
  with assms show ?thesis
    by (simp add: LittleEndian_Uint32_def LittleEndian_PutUint32_def le_of_nat_of_le)
qed

lemma BigEndian_PutUint64_inj: "BigEndian_PutUint64 a = BigEndian_PutUint64 b \<Longrightarrow> a = b"
proof -
  assume eq: "BigEndian_PutUint64 a = BigEndian_PutUint64 b"
  have "unat a < 256 ^ 8" "unat b < 256 ^ 8"
    using unsigned_less[of a, where ?'a = nat] unsigned_less[of b, where ?'a = nat] by simp_all
  then have "unat a = unat b" using eq be_of_nat_inj unfolding BigEndian_PutUint64_def by blast
  then show "a = b" by (simp only: word_unat_eq_iff)
qed

end
