(* ===== verification/Go_IO.thy ===== *)
theory Go_IO
  imports Go_Prelude
begin

text \<open>
  Errors as values, the state-and-result type of Go functions that perform input and output,
  and the transport: a \<^verbatim>\<open>net.Conn\<close> is a record of the bytes the peer delivers, the bytes written,
  the outcomes the operating system gives to \<^verbatim>\<open>Write\<close> and \<^verbatim>\<open>SetDeadline\<close>, and the deadline in force.
\<close>

section \<open>Errors\<close>

text \<open>
  \<open>ErrNew\<close> is \<^verbatim>\<open>errors.New\<close>, or \<^verbatim>\<open>fmt.Errorf\<close> with no error argument (the formatted values are
  left out of the text). \<open>ErrWrap m e\<close> is \<^verbatim>\<open>fmt.Errorf\<close> with one \<^verbatim>\<open>%w\<close>, whose text around the
  wrapped error is \<open>m\<close>; an error formatted with \<^verbatim>\<open>%v\<close> is only text and leaves no trace.
  \<open>Panic\<close> is a run-time panic.
\<close>

datatype goerr =
    IoEOF
  | IoErrUnexpectedEOF
  | IoErrShortWrite
  | OsErr string
  | ErrNew string
  | ErrWrap string goerr
  | ErrJoin goerr goerr
  | Panic string

fun errorsIs :: "goerr \<Rightarrow> goerr \<Rightarrow> bool" where
  "errorsIs (ErrWrap m e) t = (ErrWrap m e = t \<or> errorsIs e t)"
| "errorsIs (ErrJoin a b) t = (ErrJoin a b = t \<or> errorsIs a t \<or> errorsIs b t)"
| "errorsIs e t = (e = t)"

lemma errorsIs_refl [simp]: "errorsIs e e"
  by (cases e) auto

lemma errorsIs_wrapped [intro]: "errorsIs e t \<Longrightarrow> errorsIs (ErrWrap m e) t"
  by simp

section \<open>Results and effects\<close>

type_synonym 'a result = "goerr + 'a"
type_synonym ('s, 'a) io = "'s \<Rightarrow> 'a result \<times> 's"

definition ret :: "'a \<Rightarrow> ('s, 'a) io" where
  "ret x = (\<lambda>s. (Inr x, s))"

definition fail :: "goerr \<Rightarrow> ('s, 'a) io" where
  "fail e = (\<lambda>s. (Inl e, s))"

text \<open>Sequencing with early return on error, the shape \<^verbatim>\<open>if err != nil { return ... }\<close>.\<close>

definition bindIO :: "('s, 'a) io \<Rightarrow> ('a \<Rightarrow> ('s, 'b) io) \<Rightarrow> ('s, 'b) io" where
  "bindIO m f = (\<lambda>s. case m s of (Inl e, s') \<Rightarrow> (Inl e, s') | (Inr x, s') \<Rightarrow> f x s')"

text \<open>The same with the error labelled by \<^verbatim>\<open>fmt.Errorf("...: %w", err)\<close>.\<close>

definition wrapIO :: "string \<Rightarrow> ('s, 'a) io \<Rightarrow> ('s, 'a) io" where
  "wrapIO m act = (\<lambda>s. case act s of (Inl e, s') \<Rightarrow> (Inl (ErrWrap m e), s') | (Inr x, s') \<Rightarrow> (Inr x, s'))"

definition wrapRes :: "string \<Rightarrow> 'a result \<Rightarrow> 'a result" where
  "wrapRes m r = (case r of Inl e \<Rightarrow> Inl (ErrWrap m e) | Inr x \<Rightarrow> Inr x)"

definition liftRes :: "'a result \<Rightarrow> ('s, 'a) io" where
  "liftRes r = (\<lambda>s. (r, s))"

definition guardIO :: "bool \<Rightarrow> goerr \<Rightarrow> ('s, unit) io" where
  "guardIO ok e = (if ok then ret () else fail e)"

definition bindRes :: "'a result \<Rightarrow> ('a \<Rightarrow> 'b result) \<Rightarrow> 'b result" where
  "bindRes r f = (case r of Inl e \<Rightarrow> Inl e | Inr x \<Rightarrow> f x)"

definition guardRes :: "bool \<Rightarrow> goerr \<Rightarrow> unit result" where
  "guardRes ok e = (if ok then Inr () else Inl e)"

lemma bindIO_Inr [io_success]:
  "bindIO m f s = (Inr y, s') \<longleftrightarrow> (\<exists>x s1. m s = (Inr x, s1) \<and> f x s1 = (Inr y, s'))"
  by (auto simp: bindIO_def split: prod.splits sum.splits)

lemma bindIO_step: "m s = (Inr x, s1) \<Longrightarrow> bindIO m f s = f x s1"
  by (simp add: bindIO_def)

lemma bindIO_error: "m s = (Inl e, s1) \<Longrightarrow> bindIO m f s = (Inl e, s1)"
  by (simp add: bindIO_def)

lemma wrapIO_Inr [io_success]: "wrapIO m act s = (Inr x, s') \<longleftrightarrow> act s = (Inr x, s')"
  by (auto simp: wrapIO_def split: prod.splits sum.splits)

lemma wrapIO_step: "act s = (Inr x, s') \<Longrightarrow> wrapIO m act s = (Inr x, s')"
  by (simp add: wrapIO_def)

lemma wrapIO_error: "act s = (Inl e, s') \<Longrightarrow> wrapIO m act s = (Inl (ErrWrap m e), s')"
  by (simp add: wrapIO_def)

lemma wrapRes_Inr [io_success, simp]: "wrapRes m r = Inr x \<longleftrightarrow> r = Inr x"
  by (simp add: wrapRes_def split: sum.splits)

lemma wrapRes_simps [simp]:
  "wrapRes m (Inr x) = Inr x" "wrapRes m (Inl e) = Inl (ErrWrap m e)"
  by (simp_all add: wrapRes_def)

lemma liftRes_Inr [io_success]: "liftRes r s = (Inr x, s') \<longleftrightarrow> r = Inr x \<and> s' = s"
  by (auto simp: liftRes_def)

lemma liftRes_apply [simp]: "liftRes r s = (r, s)"
  by (simp add: liftRes_def)

lemma guardIO_Inr [io_success]: "guardIO ok e s = (Inr x, s') \<longleftrightarrow> ok \<and> s' = s"
  by (auto simp: guardIO_def ret_def fail_def)

lemma guardIO_simps [simp]:
  "guardIO True e s = (Inr (), s)" "guardIO False e s = (Inl e, s)"
  by (simp_all add: guardIO_def ret_def fail_def)

lemma ret_Inr [io_success]: "ret x s = (Inr y, s') \<longleftrightarrow> y = x \<and> s' = s"
  by (auto simp: ret_def)

lemma ret_apply [simp]: "ret x s = (Inr x, s)"
  by (simp add: ret_def)

lemma fail_apply [simp]: "fail e s = (Inl e, s)"
  by (simp add: fail_def)

lemma bindRes_Inr [io_success]:
  "bindRes r f = Inr y \<longleftrightarrow> (\<exists>x. r = Inr x \<and> f x = Inr y)"
  by (simp add: bindRes_def split: sum.splits)

lemma bindRes_simps [simp]:
  "bindRes (Inr x) f = f x" "bindRes (Inl e) f = Inl e"
  by (simp_all add: bindRes_def)

lemma guardRes_Inr [io_success, simp]: "guardRes ok e = Inr u \<longleftrightarrow> ok"
  by (simp add: guardRes_def)

lemma guardRes_simps [simp]: "guardRes True e = Inr ()" "guardRes False e = Inl e"
  by (simp_all add: guardRes_def)

section \<open>The transport\<close>

text \<open>
  Times are nanoseconds since the zero value of \<^verbatim>\<open>time.Time\<close>, which is 0.

  \<open>rx\<close> are the bytes the connection still delivers, in order and in any segmentation; once they
  are used up, \<^verbatim>\<open>Read\<close> reports \<open>rx_end\<close> (\<^verbatim>\<open>io.EOF\<close> when the peer has closed, a timeout or another
  error otherwise). \<open>wr\<close> lists the outcomes \<open>(n, err)\<close> of the coming \<^verbatim>\<open>Write\<close> calls, and writes
  are complete once it is used up; an outcome may be a short count without an error. \<open>dl_err\<close> is what
  \<^verbatim>\<open>SetDeadline\<close>, \<^verbatim>\<open>SetReadDeadline\<close> and \<^verbatim>\<open>SetWriteDeadline\<close> return, \<open>deadline\<close> and \<open>wdeadline\<close> are the
  deadlines in force for reads and for writes, 0 for none, \<open>close_err\<close> is what \<^verbatim>\<open>Close\<close> returns,
  \<open>net_closed\<close> whether it was called, and \<open>laddr\<close> and \<open>raddr\<close> are the addresses.
\<close>

type_synonym gotime = int

record net =
  rx :: bytes
  rx_end :: goerr
  tx :: bytes
  wr :: "(nat \<times> goerr option) list"
  deadline :: gotime
  wdeadline :: gotime
  dl_err :: "goerr option"
  close_err :: "goerr option"
  net_closed :: bool
  laddr :: string
  raddr :: string

definition readFull :: "nat \<Rightarrow> (net, bytes) io" where
  "readFull n s =
     (if n \<le> length (rx s) then (Inr (take n (rx s)), s\<lparr>rx := drop n (rx s)\<rparr>)
      else (Inl (if rx_end s = IoEOF \<and> rx s \<noteq> [] then IoErrUnexpectedEOF else rx_end s),
            s\<lparr>rx := []\<rparr>))"

definition connWrite :: "bytes \<Rightarrow> net \<Rightarrow> (nat \<times> goerr option) \<times> net" where
  "connWrite p s =
     (case wr s of
        [] \<Rightarrow> ((length p, None), s\<lparr>tx := tx s @ p\<rparr>)
      | (n, e) # ws \<Rightarrow> ((n, e), s\<lparr>tx := tx s @ take n p, wr := ws\<rparr>))"

definition setDeadline :: "gotime \<Rightarrow> (net, unit) io" where
  "setDeadline t s =
     (case dl_err s of Some e \<Rightarrow> (Inl e, s) | None \<Rightarrow> (Inr (), s\<lparr>deadline := t, wdeadline := t\<rparr>))"

definition setReadDeadline :: "gotime \<Rightarrow> (net, unit) io" where
  "setReadDeadline t s =
     (case dl_err s of Some e \<Rightarrow> (Inl e, s) | None \<Rightarrow> (Inr (), s\<lparr>deadline := t\<rparr>))"

definition setWriteDeadline :: "gotime \<Rightarrow> (net, unit) io" where
  "setWriteDeadline t s =
     (case dl_err s of Some e \<Rightarrow> (Inl e, s) | None \<Rightarrow> (Inr (), s\<lparr>wdeadline := t\<rparr>))"

definition netClose :: "net \<Rightarrow> goerr option \<times> net" where
  "netClose s = (close_err s, s\<lparr>net_closed := True\<rparr>)"

lemma readFull_Inr [io_success]:
  "readFull n s = (Inr bs, s') \<longleftrightarrow>
     n \<le> length (rx s) \<and> bs = take n (rx s) \<and> s' = s\<lparr>rx := drop n (rx s)\<rparr>"
  by (auto simp: readFull_def)

lemma readFull_exact:
  "rx s = bs @ rest \<Longrightarrow> readFull (length bs) s = (Inr bs, s\<lparr>rx := rest\<rparr>)"
  by (simp add: readFull_def)

lemma readFull_length: "readFull n s = (Inr bs, s') \<Longrightarrow> length bs = n"
  by (simp add: io_success)

lemma readFull_frame:
  "readFull n s = (r, s') \<Longrightarrow> tx s' = tx s \<and> wr s' = wr s \<and> rx_end s' = rx_end s \<and>
     deadline s' = deadline s \<and> dl_err s' = dl_err s"
  by (auto simp: readFull_def split: if_splits)

text \<open>\<^verbatim>\<open>io.ReadFull\<close> fails with \<^verbatim>\<open>io.EOF\<close> only when not a single byte was left.\<close>

lemma readFull_eof:
  "rx_end s = IoEOF \<Longrightarrow> readFull n s = (Inl e, s') \<Longrightarrow>
     e = (if rx s = [] then IoEOF else IoErrUnexpectedEOF)"
  by (auto simp: readFull_def split: if_splits)

section \<open>Frames\<close>

text \<open>
  An action keeps a view of the state when no outcome changes it. The rules follow the shape of the action, and
  are collected for proofs of frame properties.
\<close>

definition keeps :: "('s \<Rightarrow> 'v) \<Rightarrow> ('s, 'a) io \<Rightarrow> bool" where
  "keeps f act \<longleftrightarrow> (\<forall>s. f (snd (act s)) = f s)"

lemma keepsD: "keeps f act \<Longrightarrow> act s = (r, s') \<Longrightarrow> f s' = f s"
  by (auto simp: keeps_def dest: spec[of _ s])

lemma keepsI: "(\<And>s r s'. act s = (r, s') \<Longrightarrow> f s' = f s) \<Longrightarrow> keeps f act"
  by (simp add: keeps_def) (metis surjective_pairing)

lemma keeps_bindIO [frame_rules]:
  assumes "keeps f m" "\<And>x. keeps f (k x)"
  shows "keeps f (bindIO m k)"
proof (rule keepsI)
  fix s r s'
  assume run: "bindIO m k s = (r, s')"
  obtain r1 s1 where m: "m s = (r1, s1)" by fastforce
  have "f s1 = f s" by (rule keepsD[OF assms(1) m])
  moreover have "f s' = f s1" using run m by (cases r1) (auto simp: bindIO_def dest: keepsD[OF assms(2)])
  ultimately show "f s' = f s" by simp
qed

lemma keeps_wrapIO [frame_rules]: "keeps f m \<Longrightarrow> keeps f (wrapIO l m)"
  by (rule keepsI) (auto simp: wrapIO_def dest: keepsD split: prod.splits sum.splits)

lemma keeps_pure [frame_rules]: "keeps f (ret x)" "keeps f (fail e)" "keeps f (liftRes r)" "keeps f (guardIO b e)"
  by (auto simp: keeps_def guardIO_def)

lemma keeps_if [frame_rules]: "keeps f a \<Longrightarrow> keeps f b \<Longrightarrow> keeps f (if c then a else b)"
  by simp

lemma keeps_option [frame_rules]: "keeps f a \<Longrightarrow> (\<And>x. keeps f (b x)) \<Longrightarrow> keeps f (case v of None \<Rightarrow> a | Some x \<Rightarrow> b x)"
  by (cases v) auto

lemma keeps_prod [frame_rules]: "(\<And>x y. keeps f (b x y)) \<Longrightarrow> keeps f (case v of (x, y) \<Rightarrow> b x y)"
  by (cases v) auto

text \<open>The part of a connection that only the deadline calls and \<^verbatim>\<open>Close\<close> touch.\<close>

definition lineState :: "net \<Rightarrow> gotime \<times> gotime \<times> goerr option \<times> goerr option \<times> bool \<times> goerr" where
  "lineState n = (deadline n, wdeadline n, dl_err n, close_err n, net_closed n, rx_end n)"

lemma keeps_readFull [frame_rules]: "keeps lineState (readFull k)"
  by (rule keepsI) (auto simp: readFull_def lineState_def split: if_splits)

end
