(* ===== verification/Go_Crypto.thy ===== *)
theory Go_Crypto
  imports Go_IO
begin

text \<open>
  Cryptography. The parts of Go's standard library the program uses are defined here: \<^verbatim>\<open>crypto/hmac\<close>
  over a hash function, and the Galois/Counter mode of \<^verbatim>\<open>crypto/cipher\<close> over a 16-byte block cipher.
  The locale \<open>aead_scheme\<close> is the contract of \<^verbatim>\<open>cipher.AEAD\<close> that the record layer relies on, and it
  is interpreted on Galois/Counter mode for every block cipher. The packages \<^verbatim>\<open>tjfoc/gmsm\<close> and
  \<^verbatim>\<open>x/crypto/hkdf\<close> are outside the repository: the record \<open>gmsm\<close> collects their functions as
  parameters, and nothing is assumed of them except where a theorem says so.
\<close>

section \<open>Exclusive or of byte strings\<close>

definition xorBytes :: "bytes \<Rightarrow> bytes \<Rightarrow> bytes" where
  "xorBytes xs ys = map2 (\<lambda>x y. x XOR y) xs ys"

lemma length_xorBytes [simp, bytes_simps]: "length (xorBytes xs ys) = min (length xs) (length ys)"
  by (simp add: xorBytes_def)

lemma xorBytes_Nil [simp]: "xorBytes [] ys = []"
  by (simp add: xorBytes_def)

lemma xor_cancel_right [simp]: "(x XOR y) XOR y = (x :: 'a :: len word)"
  by (simp add: xor.assoc)

lemma xorBytes_cancel:
  "length xs \<le> length ys \<Longrightarrow> xorBytes (xorBytes xs ys) ys = xs"
proof (induction xs arbitrary: ys)
  case (Cons x xs)
  then show ?case by (cases ys) (simp_all add: xorBytes_def)
qed simp

lemma xorBytes_right_inj:
  "length xs = length ys \<Longrightarrow> length xs = length zs \<Longrightarrow> xorBytes zs xs = xorBytes zs ys \<Longrightarrow> xs = ys"
proof (induction xs arbitrary: ys zs)
  case (Cons x xs)
  then obtain y ys' z zs' where "ys = y # ys'" "zs = z # zs'"
    by (metis length_Suc_conv)
  moreover have "z XOR x = z XOR y \<Longrightarrow> x = y"
    by (metis xor.assoc xor.left_neutral xor_self_eq)
  ultimately show ?case using Cons by (simp add: xorBytes_def)
qed simp

section \<open>Keyed hashing\<close>

text \<open>
  \<^verbatim>\<open>hmac.New(h, key)\<close>, one \<^verbatim>\<open>Write\<close> and \<^verbatim>\<open>Sum(nil)\<close>, for a hash \<open>h\<close> with block size \<open>bs\<close>: a key longer
  than a block is hashed first, and both pads are block-sized buffers the key is copied into.
\<close>

definition hmacSum :: "(bytes \<Rightarrow> bytes) \<Rightarrow> nat \<Rightarrow> bytes \<Rightarrow> bytes \<Rightarrow> bytes" where
  "hmacSum h bs key data =
     (let k = (if length key > bs then h key else key);
          pad = copy_at (replicate bs 0) 0 k;
          ipad = map (\<lambda>b. b XOR 0x36) pad;
          opad = map (\<lambda>b. b XOR 0x5c) pad
      in h (opad @ h (ipad @ data)))"

lemma length_hmacSum: "(\<And>x. length (h x) = n) \<Longrightarrow> length (hmacSum h bs key data) = n"
  by (simp add: hmacSum_def Let_def)

section \<open>Galois/Counter mode\<close>

type_synonym block_cipher = "128 word \<Rightarrow> 128 word"

definition blockOf :: "bytes \<Rightarrow> 128 word" where
  "blockOf bs = word_of_nat (nat_of_be bs)"

definition bytesOf :: "128 word \<Rightarrow> bytes" where
  "bytesOf w = be_of_nat 16 (unat w)"

lemma length_bytesOf [simp, bytes_simps]: "length (bytesOf w) = 16"
  by (simp add: bytesOf_def)

text \<open>Multiplication in the field of 2^128 elements, bit 0 being the most significant.\<close>

fun gfMulLoop :: "nat \<Rightarrow> 128 word \<Rightarrow> 128 word \<Rightarrow> 128 word \<Rightarrow> 128 word" where
  "gfMulLoop 0 x v z = z"
| "gfMulLoop (Suc n) x v z =
     gfMulLoop n x
       (if bit v 0 then drop_bit 1 v XOR 0xE1000000000000000000000000000000 else drop_bit 1 v)
       (if bit x n then z XOR v else z)"

definition gfMul :: "128 word \<Rightarrow> 128 word \<Rightarrow> 128 word" where
  "gfMul x y = gfMulLoop 128 x y 0"

function ghash :: "128 word \<Rightarrow> 128 word \<Rightarrow> bytes \<Rightarrow> 128 word" where
  "ghash h y bs =
     (if bs = [] then y else ghash h (gfMul (y XOR blockOf (take 16 bs)) h) (drop 16 bs))"
  by pat_completeness auto
termination
  by (relation "measure (\<lambda>(h, y, bs). length bs)") auto

declare ghash.simps [simp del]

definition pad16 :: "bytes \<Rightarrow> bytes" where
  "pad16 bs = bs @ replicate ((16 - length bs mod 16) mod 16) 0"

definition inc32 :: "128 word \<Rightarrow> 128 word" where
  "inc32 w = (w AND NOT 0xFFFFFFFF) OR ((w + 1) AND 0xFFFFFFFF)"

function gctr :: "block_cipher \<Rightarrow> 128 word \<Rightarrow> bytes \<Rightarrow> bytes" where
  "gctr E ctr bs =
     (if bs = [] then []
      else xorBytes (take 16 bs) (bytesOf (E ctr)) @ gctr E (inc32 ctr) (drop 16 bs))"
  by pat_completeness auto
termination
  by (relation "measure (\<lambda>(E, ctr, bs). length bs)") auto

declare gctr.simps [simp del]

definition gcmJ0 :: "bytes \<Rightarrow> 128 word" where
  "gcmJ0 nonce = blockOf (nonce @ [0, 0, 0, 1])"

definition gcmTag :: "block_cipher \<Rightarrow> bytes \<Rightarrow> bytes \<Rightarrow> bytes \<Rightarrow> bytes" where
  "gcmTag E nonce c aad =
     bytesOf (ghash (E 0) 0
                (pad16 aad @ pad16 c @ be_of_nat 8 (8 * length aad) @ be_of_nat 8 (8 * length c))
              XOR E (gcmJ0 nonce))"

definition gcmSeal :: "block_cipher \<Rightarrow> bytes \<Rightarrow> bytes \<Rightarrow> bytes \<Rightarrow> bytes" where
  "gcmSeal E nonce p aad =
     (let c = gctr E (inc32 (gcmJ0 nonce)) p in c @ gcmTag E nonce c aad)"

definition gcmOpen :: "block_cipher \<Rightarrow> bytes \<Rightarrow> bytes \<Rightarrow> bytes \<Rightarrow> bytes option" where
  "gcmOpen E nonce ct aad =
     (if length ct < 16 then None
      else let c = take (length ct - 16) ct; t = drop (length ct - 16) ct
           in if t = gcmTag E nonce c aad then Some (gctr E (inc32 (gcmJ0 nonce)) c) else None)"

lemma length_gctr [simp, bytes_simps]: "length (gctr E ctr bs) = length bs"
proof (induction E ctr bs rule: gctr.induct)
  case (1 E ctr bs)
  then show ?case by (subst gctr.simps) auto
qed

lemma gctr_involution: "gctr E ctr (gctr E ctr bs) = bs"
proof (induction E ctr bs rule: gctr.induct)
  case (1 E ctr bs)
  show ?case
  proof (cases "bs = []")
    case True
    then show ?thesis by (simp add: gctr.simps)
  next
    case False
    let ?head = "xorBytes (take 16 bs) (bytesOf (E ctr))"
    have unfold: "gctr E ctr bs = ?head @ gctr E (inc32 ctr) (drop 16 bs)"
      using False by (subst gctr.simps) simp
    have ne: "?head @ gctr E (inc32 ctr) (drop 16 bs) \<noteq> []"
      using False by (metis length_gctr list.size(3) length_0_conv unfold)
    have rest: "gctr E (inc32 ctr) (gctr E (inc32 ctr) (drop 16 bs)) = drop 16 bs"
      using 1 False by simp
    have head: "take 16 (?head @ gctr E (inc32 ctr) (drop 16 bs)) = ?head"
      and tail: "drop 16 (?head @ gctr E (inc32 ctr) (drop 16 bs)) = gctr E (inc32 ctr) (drop 16 bs)"
      by (cases "16 \<le> length bs"; simp add: gctr.simps)+
    have "gctr E ctr (gctr E ctr bs) = xorBytes ?head (bytesOf (E ctr)) @ drop 16 bs"
      by (subst unfold, subst gctr.simps) (simp only: ne if_False head tail rest)
    also have "\<dots> = take 16 bs @ drop 16 bs"
      by (simp add: xorBytes_cancel)
    finally show ?thesis by simp
  qed
qed

lemma length_gcmTag [simp, bytes_simps]: "length (gcmTag E nonce c aad) = 16"
  by (simp add: gcmTag_def)

section \<open>The AEAD interface\<close>

text \<open>An interface value of type \<^verbatim>\<open>cipher.AEAD\<close> is its method table.\<close>

record AEAD =
  aead_Seal :: "bytes \<Rightarrow> bytes \<Rightarrow> bytes \<Rightarrow> bytes"
  aead_Open :: "bytes \<Rightarrow> bytes \<Rightarrow> bytes \<Rightarrow> bytes option"

definition NewGCM :: "block_cipher \<Rightarrow> AEAD" where
  "NewGCM E = \<lparr>aead_Seal = gcmSeal E, aead_Open = gcmOpen E\<rparr>"

locale aead_scheme =
  fixes a :: AEAD
  assumes open_seal: "aead_Open a n (aead_Seal a n p d) d = Some p"
    and open_sound: "aead_Open a n c d = Some p \<Longrightarrow> c = aead_Seal a n p d"
    and length_seal: "length (aead_Seal a n p d) = length p + 16"
begin

lemma open_iff: "aead_Open a n c d = Some p \<longleftrightarrow> c = aead_Seal a n p d"
  using open_seal open_sound by blast

lemma seal_inj: "aead_Seal a n p d = aead_Seal a n q d \<Longrightarrow> p = q"
  by (metis open_seal option.inject)

lemma open_length: "aead_Open a n c d = Some p \<Longrightarrow> length c = length p + 16"
  using open_sound length_seal by blast

lemma open_rejects:
  "(\<And>p. c \<noteq> aead_Seal a n p d) \<Longrightarrow> aead_Open a n c d = None"
  using open_sound by (cases "aead_Open a n c d") blast+

end

lemma gcm_open_seal: "gcmOpen E n (gcmSeal E n p d) d = Some p"
  by (simp add: gcmOpen_def gcmSeal_def Let_def gctr_involution)

lemma gcm_open_sound: "gcmOpen E n c d = Some p \<Longrightarrow> c = gcmSeal E n p d"
  by (auto simp: gcmOpen_def gcmSeal_def Let_def gctr_involution split: if_splits)
    (metis append_take_drop_id)

lemma gcm_length_seal: "length (gcmSeal E n p d) = length p + 16"
  by (simp add: gcmSeal_def Let_def)

interpretation gcm: aead_scheme "NewGCM E" for E
  by unfold_locales (simp_all add: NewGCM_def gcm_open_seal gcm_length_seal gcm_open_sound)

section \<open>Packages outside the repository\<close>

record sm2pub =
  pk_X :: nat
  pk_Y :: nat

record sm2priv =
  sk_D :: nat
  sk_pub :: sm2pub

text \<open>
  What the program reads of an X.509 certificate: the fields of \<^verbatim>\<open>crypto/x509.Certificate\<close> that
  \<^verbatim>\<open>ToX509Certificate\<close> fills in, and the key as \<^verbatim>\<open>gmsm/x509\<close> parsed it.
\<close>

record pkix_Extension =
  ext_Id :: "nat list"
  ext_Critical :: bool
  ext_Value :: bytes

record x509cert =
  crt_NotBefore :: gotime
  crt_NotAfter :: gotime
  crt_Extensions :: "pkix_Extension list"
  crt_RawSubjectPublicKeyInfo :: bytes

datatype certPublicKey = SM2Key sm2pub | ECDSAKey nat nat | OtherKey

record gcert =
  gc_PublicKey :: certPublicKey
  gc_X509 :: x509cert

record certTemplate =
  tpl_SerialNumber :: nat
  tpl_CommonName :: string
  tpl_NotBefore :: gotime
  tpl_NotAfter :: gotime
  tpl_KeyUsage :: "string list"
  tpl_ExtKeyUsage :: "string list"
  tpl_BasicConstraintsValid :: bool
  tpl_IsCA :: bool
  tpl_ExtraExtensions :: "pkix_Extension list"

text \<open>
  The functions of \<^verbatim>\<open>gmsm/sm2\<close>, \<^verbatim>\<open>gmsm/sm3\<close>, \<^verbatim>\<open>gmsm/sm4\<close>, \<^verbatim>\<open>gmsm/x509\<close> and \<^verbatim>\<open>x/crypto/hkdf\<close> that the
  program calls. A function that draws from \<^verbatim>\<open>rand.Reader\<close> takes the bytes it draws as an argument.
  \<open>hkdf_Stream\<close> is everything the reader that \<^verbatim>\<open>hkdf.New\<close> returns will deliver.
\<close>

record gmsm =
  sm3_Sum :: "bytes \<Rightarrow> bytes"
  sm3_BlockSize :: nat
  sm4_NewCipher :: "bytes \<Rightarrow> block_cipher result"
  hkdf_Stream :: "bytes \<Rightarrow> bytes \<Rightarrow> bytes \<Rightarrow> bytes"
  sm2_IsOnCurve :: "nat \<Rightarrow> nat \<Rightarrow> bool"
  sm2_ScalarMult :: "nat \<Rightarrow> nat \<Rightarrow> bytes \<Rightarrow> nat option"
  sm2_GenerateKey :: "bytes \<Rightarrow> sm2priv result"
  sm2_Sign :: "sm2priv \<Rightarrow> bytes \<Rightarrow> bytes \<Rightarrow> bytes result"
  sm2_Verify :: "sm2pub \<Rightarrow> bytes \<Rightarrow> bytes \<Rightarrow> bool"
  sm2_Sm2Sign :: "sm2priv \<Rightarrow> bytes \<Rightarrow> bytes \<Rightarrow> bytes \<Rightarrow> (nat \<times> nat) result"
  sm2_Sm2Verify :: "sm2pub \<Rightarrow> bytes \<Rightarrow> bytes \<Rightarrow> nat \<Rightarrow> nat \<Rightarrow> bool"
  gx509_ReadCertificateFromPem :: "bytes \<Rightarrow> gcert result"
  gx509_ReadPrivateKeyFromPem :: "bytes \<Rightarrow> sm2priv result"
  gx509_WritePrivateKeyToPem :: "sm2priv \<Rightarrow> bytes result"
  gx509_MarshalPKIXPublicKey :: "sm2pub \<Rightarrow> bytes result"
  gx509_CreateCertificateToPem :: "certTemplate \<Rightarrow> sm2pub \<Rightarrow> sm2priv \<Rightarrow> bytes \<Rightarrow> bytes result"

end
