(* ===== verification/Record_Layer.thy ===== *)
theory Record_Layer
  imports Go_Crypto
begin

text \<open>
  The record layer (\<^verbatim>\<open>record.go\<close>): SM4-GCM protection of TLS 1.3 shaped records. A \<open>RecordCipher\<close> holds
  an AEAD, a base nonce and a 64-bit sequence number; \<^verbatim>\<open>Seal\<close> and \<^verbatim>\<open>Unseal\<close> are state transformers.
  The mutex of the source makes each call atomic, so a cipher is the sequence of its calls.
  The lemmas show that \<^verbatim>\<open>Unseal\<close> accepts exactly what \<^verbatim>\<open>SealWithPadding\<close> produces at the same sequence
  number, that errors leave the cipher unchanged, and that no nonce is used twice.
\<close>

section \<open>Constants and errors\<close>

type_synonym RecordType = byte

definition RecordTypeChangeCipherSpec :: RecordType where [simp]: "RecordTypeChangeCipherSpec = 20"
definition RecordTypeAlert :: RecordType where [simp]: "RecordTypeAlert = 21"
definition RecordTypeHandshake :: RecordType where [simp]: "RecordTypeHandshake = 22"
definition RecordTypeApplicationData :: RecordType where [simp]: "RecordTypeApplicationData = 23"

definition RecordHeaderLen :: nat where [simp]: "RecordHeaderLen = 5"
definition LegacyRecordVersion :: "16 word" where "LegacyRecordVersion = 0x0303"
definition MaxPlaintextLength :: nat where [simp]: "MaxPlaintextLength = 16384"
definition MaxCiphertextLength :: nat where [simp]: "MaxCiphertextLength = 16384 + 256"
definition SM4KeySize :: nat where [simp]: "SM4KeySize = 16"
definition GCMNonceSize :: nat where [simp]: "GCMNonceSize = 12"
definition GCMTagSize :: nat where [simp]: "GCMTagSize = 16"

definition ErrInvalidKeySize :: goerr where
  "ErrInvalidKeySize = ErrNew ''teetls: invalid SM4 key length, must be 16 bytes''"
definition ErrInvalidIVSize :: goerr where
  "ErrInvalidIVSize = ErrNew ''teetls: invalid IV length, must be 12 bytes''"
definition ErrPlaintextTooLarge :: goerr where
  "ErrPlaintextTooLarge = ErrNew ''teetls: plaintext exceeds maximum allowed length''"
definition ErrCiphertextTooLarge :: goerr where
  "ErrCiphertextTooLarge = ErrNew ''teetls: ciphertext exceeds maximum allowed length''"
definition ErrRecordTooShort :: goerr where
  "ErrRecordTooShort = ErrNew ''teetls: record buffer is too short''"
definition ErrInvalidRecordHeader :: goerr where
  "ErrInvalidRecordHeader = ErrNew ''teetls: invalid TLS 1.3 outer record header''"
definition ErrRecordLengthMismatch :: goerr where
  "ErrRecordLengthMismatch = ErrNew ''teetls: record length in header does not match data length''"
definition ErrNoContentType :: goerr where
  "ErrNoContentType = ErrNew ''teetls: inner plaintext does not contain valid content type''"
definition ErrSequenceOverflow :: goerr where
  "ErrSequenceOverflow = ErrNew ''teetls: sequence number overflow''"
definition ErrInvalidInnerContentType :: goerr where
  "ErrInvalidInnerContentType = ErrNew ''teetls: invalid inner plaintext content type''"

section \<open>The cipher and its operations\<close>

record RecordCipher =
  rc_aead :: AEAD
  rc_baseIV :: bytes
  rc_seq :: "64 word"

definition NewRecordCipher :: "gmsm \<Rightarrow> bytes \<Rightarrow> bytes \<Rightarrow> RecordCipher result" where
  "NewRecordCipher g key iv =
     (if length key \<noteq> SM4KeySize then Inl ErrInvalidKeySize
      else if length iv \<noteq> GCMNonceSize then Inl ErrInvalidIVSize
      else bindRes (wrapRes ''teetls: create sm4 cipher'' (sm4_NewCipher g key)) (\<lambda>block.
        Inr \<lparr>rc_aead = NewGCM block, rc_baseIV = copy_at (replicate GCMNonceSize 0) 0 iv,
             rc_seq = 0\<rparr>))"

definition Sequence :: "RecordCipher \<Rightarrow> 64 word" where
  "Sequence rc = rc_seq rc"

definition Reset :: "RecordCipher \<Rightarrow> RecordCipher" where
  "Reset rc = rc"

text \<open>The base nonce with the big-endian sequence number folded into bytes 4 to 11.\<close>

definition deriveNonce :: "RecordCipher \<Rightarrow> 64 word \<Rightarrow> bytes" where
  "deriveNonce rc seq =
     (let nonce = copy_at (replicate GCMNonceSize 0) 0 (rc_baseIV rc);
          seqBytes = BigEndian_PutUint64 seq
      in take 4 nonce @ xorBytes (drop 4 nonce) seqBytes)"

text \<open>Go's \<^verbatim>\<open>int\<close> wraps around at 64 bits.\<close>

definition int64 :: "int \<Rightarrow> int" where
  "int64 x = (x + 2 ^ 63) mod 2 ^ 64 - 2 ^ 63"

text \<open>\<^verbatim>\<open>make([]byte, n)\<close> panics for a length that is negative or beyond the address space.\<close>

definition makePanics :: "int \<Rightarrow> bool" where
  "makePanics n \<longleftrightarrow> n < 0 \<or> 2 ^ 48 < n"

definition recordHeader :: "int \<Rightarrow> bytes" where
  "recordHeader ciphertextLen =
     [RecordTypeApplicationData] @ BigEndian_PutUint16 LegacyRecordVersion @
     BigEndian_PutUint16 (word_of_int ciphertextLen)"

definition SealWithPadding :: "RecordType \<Rightarrow> bytes \<Rightarrow> int \<Rightarrow> (RecordCipher, bytes) io" where
  "SealWithPadding contentType plaintext paddingLen rc =
     (if length plaintext > MaxPlaintextLength then (Inl ErrPlaintextTooLarge, rc)
      else if paddingLen < 0
      then (Inl (ErrNew ''teetls: padding length cannot be negative''), rc)
      else
        let innerLen = int64 (int (length plaintext) + 1 + paddingLen);
            ciphertextLen = int64 (innerLen + int GCMTagSize)
        in if ciphertextLen > int MaxCiphertextLength then (Inl ErrCiphertextTooLarge, rc)
           else if rc_seq rc = NOT 0 then (Inl ErrSequenceOverflow, rc)
           else if makePanics innerLen then (Inl (Panic ''makeslice: len out of range''), rc)
           else
             let innerPlaintext =
                   (copy_at (replicate (nat innerLen) 0) 0 plaintext)[length plaintext := contentType];
                 header = recordHeader ciphertextLen;
                 nonce = deriveNonce rc (rc_seq rc);
                 record = header @ aead_Seal (rc_aead rc) nonce innerPlaintext header
             in (Inr record, rc\<lparr>rc_seq := rc_seq rc + 1\<rparr>))"

definition Seal :: "RecordType \<Rightarrow> bytes \<Rightarrow> (RecordCipher, bytes) io" where
  "Seal contentType plaintext = SealWithPadding contentType plaintext 0"

text \<open>
  The scan of \<^verbatim>\<open>Unseal\<close> from the end of the inner plaintext for its last non-zero byte: the counter is
  \<^verbatim>\<open>idx + 1\<close>, so 0 stands for \<^verbatim>\<open>idx < 0\<close>.
\<close>

fun scanContentType :: "bytes \<Rightarrow> nat \<Rightarrow> nat option" where
  "scanContentType ds 0 = None"
| "scanContentType ds (Suc i) = (if ds ! i = 0 then scanContentType ds i else Some i)"

definition Unseal :: "bytes \<Rightarrow> (RecordCipher, RecordType \<times> bytes) io" where
  "Unseal record rc =
     (if length record < RecordHeaderLen + 1 + GCMTagSize then (Inl ErrRecordTooShort, rc)
      else if record ! 0 \<noteq> RecordTypeApplicationData then (Inl ErrInvalidRecordHeader, rc)
      else if BigEndian_Uint16 (slice record 1 3) \<noteq> LegacyRecordVersion
      then (Inl ErrInvalidRecordHeader, rc)
      else
        let declaredLen = unat (BigEndian_Uint16 (slice record 3 5))
        in if declaredLen \<noteq> length record - RecordHeaderLen then (Inl ErrRecordLengthMismatch, rc)
           else if declaredLen > MaxCiphertextLength then (Inl ErrCiphertextTooLarge, rc)
           else if rc_seq rc = NOT 0 then (Inl ErrSequenceOverflow, rc)
           else
             let header = take RecordHeaderLen record;
                 ciphertext = drop RecordHeaderLen record;
                 nonce = deriveNonce rc (rc_seq rc)
             in case aead_Open (rc_aead rc) nonce ciphertext header of
                  None \<Rightarrow> (Inl (ErrWrap ''teetls: open record''
                                  (ErrNew ''cipher: message authentication failed'')), rc)
                | Some decrypted \<Rightarrow>
                    (case scanContentType decrypted (length decrypted) of
                       None \<Rightarrow> (Inl ErrNoContentType, rc)
                     | Some idx \<Rightarrow>
                         let realContentType = decrypted ! idx; plaintext = take idx decrypted
                         in if realContentType \<noteq> RecordTypeAlert
                               \<and> realContentType \<noteq> RecordTypeHandshake
                               \<and> realContentType \<noteq> RecordTypeApplicationData
                            then (Inl ErrInvalidInnerContentType, rc)
                            else if length plaintext > MaxPlaintextLength
                            then (Inl ErrPlaintextTooLarge, rc)
                            else (Inr (realContentType, plaintext),
                                  rc\<lparr>rc_seq := rc_seq rc + 1\<rparr>)))"

section \<open>Invariant\<close>

text \<open>What every cipher built by \<^verbatim>\<open>NewRecordCipher\<close> satisfies and every operation keeps.\<close>

definition rcInv :: "RecordCipher \<Rightarrow> bool" where
  "rcInv rc \<longleftrightarrow> (\<exists>E. rc_aead rc = NewGCM E) \<and> length (rc_baseIV rc) = GCMNonceSize"

lemma rcInv_aead: "rcInv rc \<Longrightarrow> aead_scheme (rc_aead rc)"
  using gcm.aead_scheme_axioms by (auto simp: rcInv_def)

lemma rcInv_seq [simp]: "rcInv (rc\<lparr>rc_seq := n\<rparr>) = rcInv rc"
  by (simp add: rcInv_def)

lemma copy_at_whole: "length src = n \<Longrightarrow> copy_at (replicate n x) 0 src = src"
  by (simp add: copy_at_def)

lemma NewRecordCipher_Inr [io_success]:
  "NewRecordCipher g key iv = Inr rc \<longleftrightarrow>
     length key = 16 \<and> length iv = 12 \<and>
     (\<exists>E. sm4_NewCipher g key = Inr E \<and> rc = \<lparr>rc_aead = NewGCM E, rc_baseIV = iv, rc_seq = 0\<rparr>)"
  by (auto simp: NewRecordCipher_def bindRes_Inr copy_at_whole)

lemma NewRecordCipher_inv: "NewRecordCipher g key iv = Inr rc \<Longrightarrow> rcInv rc \<and> rc_seq rc = 0"
  by (auto simp: NewRecordCipher_Inr rcInv_def)

section \<open>Nonces\<close>

lemma length_deriveNonce [simp, bytes_simps]: "length (deriveNonce rc seq) = 12"
  by (simp add: deriveNonce_def Let_def)

lemma deriveNonce_eq:
  "length (rc_baseIV rc) = 12 \<Longrightarrow>
     deriveNonce rc seq = take 4 (rc_baseIV rc) @ xorBytes (drop 4 (rc_baseIV rc)) (BigEndian_PutUint64 seq)"
  by (simp add: deriveNonce_def copy_at_whole Let_def)

lemma deriveNonce_seq [simp]: "deriveNonce (rc\<lparr>rc_seq := n\<rparr>) seq = deriveNonce rc seq"
  by (simp add: deriveNonce_def)

lemma deriveNonce_inj: "deriveNonce rc m = deriveNonce rc n \<Longrightarrow> m = n"
proof -
  let ?iv = "copy_at (replicate 12 0) 0 (rc_baseIV rc)"
  assume "deriveNonce rc m = deriveNonce rc n"
  then have "xorBytes (drop 4 ?iv) (BigEndian_PutUint64 m) = xorBytes (drop 4 ?iv) (BigEndian_PutUint64 n)"
    by (simp add: deriveNonce_def Let_def)
  then have "BigEndian_PutUint64 m = BigEndian_PutUint64 n"
    by (rule xorBytes_right_inj[rotated 2]) simp_all
  then show "m = n" by (rule BigEndian_PutUint64_inj)
qed

section \<open>What Seal produces\<close>

text \<open>
  The record for content type \<open>t\<close>, plaintext \<open>p\<close> and \<open>k\<close> padding zeros at the cipher's current sequence
  number: the specification \<^verbatim>\<open>SealWithPadding\<close> is shown to meet and \<^verbatim>\<open>Unseal\<close> to invert.
\<close>

definition sealedRecord :: "RecordCipher \<Rightarrow> RecordType \<Rightarrow> bytes \<Rightarrow> nat \<Rightarrow> bytes" where
  "sealedRecord rc t p k =
     (let h = recordHeader (int (length p + 1 + k + GCMTagSize))
      in h @ aead_Seal (rc_aead rc) (deriveNonce rc (rc_seq rc)) (p @ [t] @ replicate k 0) h)"

definition sealable :: "RecordCipher \<Rightarrow> bytes \<Rightarrow> nat \<Rightarrow> bool" where
  "sealable rc p k \<longleftrightarrow> length p \<le> MaxPlaintextLength \<and>
     length p + 1 + k + GCMTagSize \<le> MaxCiphertextLength \<and> rc_seq rc \<noteq> NOT 0"

lemma int64_id: "- (2 ^ 63) \<le> x \<Longrightarrow> x < 2 ^ 63 \<Longrightarrow> int64 x = x"
  by (simp add: int64_def)

lemma int64_over: "2 ^ 63 \<le> x \<Longrightarrow> x < 2 ^ 64 + 2 ^ 63 \<Longrightarrow> int64 x = x - 2 ^ 64"
proof -
  assume bounds: "2 ^ 63 \<le> x" "x < 2 ^ 64 + 2 ^ 63"
  have "x + 2 ^ 63 = (x - 2 ^ 63) + 2 ^ 64" by simp
  then have "(x + 2 ^ 63) mod 2 ^ 64 = (x - 2 ^ 63) mod 2 ^ 64" by (simp only: mod_add_self2)
  also have "\<dots> = x - 2 ^ 63" using bounds by (intro mod_pos_pos_trivial) simp_all
  finally show "int64 x = x - 2 ^ 64" by (simp add: int64_def)
qed

lemma innerPlaintext_eq:
  "n = length p + 1 + k \<Longrightarrow>
     (copy_at (replicate n 0) 0 p)[length p := t] = p @ [t] @ replicate k 0"
proof -
  assume n: "n = length p + 1 + k"
  have "copy_at (replicate n 0) 0 p = p @ replicate (Suc k) 0"
    using n by (simp add: copy_at_def drop_replicate[of "length p" "Suc (length p + k)", simplified])
  then show ?thesis by (simp add: list_update_append)
qed

text \<open>
  Go's \<^verbatim>\<open>int\<close> bounds the padding argument below 2^63. In range, the outcome depends on the lengths and the
  sequence number alone; a padding so large that the length sum wraps around ends in the panic of
  \<^verbatim>\<open>make\<close>.
\<close>

lemma SealWithPadding_fits:
  assumes "length p \<le> MaxPlaintextLength" "0 \<le> pad"
    and "int (length p) + 1 + pad + int GCMTagSize < 2 ^ 63"
  shows "SealWithPadding t p pad rc =
    (if int (length p) + 1 + pad + int GCMTagSize > int MaxCiphertextLength
     then (Inl ErrCiphertextTooLarge, rc)
     else if rc_seq rc = NOT 0 then (Inl ErrSequenceOverflow, rc)
     else (Inr (sealedRecord rc t p (nat pad)), rc\<lparr>rc_seq := rc_seq rc + 1\<rparr>))"
proof -
  have inner: "int64 (int (length p) + 1 + pad) = int (length p) + 1 + pad"
    using assms by (intro int64_id) auto
  have cipher: "int64 (int (length p) + 1 + pad + int GCMTagSize) = int (length p) + 1 + pad + int GCMTagSize"
    using assms by (intro int64_id) auto
  have n: "nat (int (length p) + 1 + pad) = length p + 1 + nat pad"
    using assms by simp
  have i: "int (length p) + 1 + pad + int GCMTagSize = int (length p + 1 + nat pad + GCMTagSize)"
    using assms by simp
  show ?thesis
    using assms unfolding SealWithPadding_def sealedRecord_def Let_def inner cipher
    by (simp only: innerPlaintext_eq[OF n] i[symmetric]) (auto simp: makePanics_def)
qed

lemma SealWithPadding_wraps:
  assumes "length p \<le> MaxPlaintextLength" "0 \<le> pad" "pad < 2 ^ 63"
    and "2 ^ 63 \<le> int (length p) + 1 + pad + int GCMTagSize"
  shows "SealWithPadding t p pad rc =
    (if rc_seq rc = NOT 0 then (Inl ErrSequenceOverflow, rc)
     else (Inl (Panic ''makeslice: len out of range''), rc))"
proof (cases "int (length p) + 1 + pad < 2 ^ 63")
  case True
  then have inner: "int64 (int (length p) + 1 + pad) = int (length p) + 1 + pad"
    using assms by (intro int64_id) auto
  have cipher: "int64 (int (length p) + 1 + pad + int GCMTagSize) = int (length p) + 1 + pad + int GCMTagSize - 2 ^ 64"
    using assms True by (intro int64_over) auto
  have "makePanics (int (length p) + 1 + pad)" using assms by (simp add: makePanics_def)
  then show ?thesis
    using assms True unfolding SealWithPadding_def Let_def inner cipher by simp
next
  case False
  then have inner: "int64 (int (length p) + 1 + pad) = int (length p) + 1 + pad - 2 ^ 64"
    using assms by (intro int64_over) auto
  have cipher: "int64 (int (length p) + 1 + pad - 2 ^ 64 + int GCMTagSize) = int (length p) + 1 + pad - 2 ^ 64 + int GCMTagSize"
    using assms False by (intro int64_id) auto
  have "makePanics (int (length p) + 1 + pad - 2 ^ 64)" using assms by (simp add: makePanics_def)
  then show ?thesis
    using assms False unfolding SealWithPadding_def Let_def inner cipher by simp
qed

lemma SealWithPadding_Inr:
  assumes "pad < 2 ^ 63"
  shows "SealWithPadding t p pad rc = (Inr rec, rc') \<longleftrightarrow>
    0 \<le> pad \<and> sealable rc p (nat pad) \<and> rec = sealedRecord rc t p (nat pad) \<and>
    rc' = rc\<lparr>rc_seq := rc_seq rc + 1\<rparr>"
proof -
  consider "length p > MaxPlaintextLength \<or> pad < 0"
    | "length p \<le> MaxPlaintextLength" "0 \<le> pad" "int (length p) + 1 + pad + int GCMTagSize < 2 ^ 63"
    | "length p \<le> MaxPlaintextLength" "0 \<le> pad" "2 ^ 63 \<le> int (length p) + 1 + pad + int GCMTagSize"
    by linarith
  then show ?thesis
  proof cases
    case 1
    then show ?thesis by (auto simp: SealWithPadding_def sealable_def)
  next
    case 2
    then show ?thesis by (subst SealWithPadding_fits) (auto simp: sealable_def nat_le_iff)
  next
    case 3
    then show ?thesis using assms
      by (subst SealWithPadding_wraps) (auto simp: sealable_def)
  qed
qed

lemma Seal_Inr [io_success]:
  "Seal t p rc = (Inr rec, rc') \<longleftrightarrow>
     sealable rc p 0 \<and> rec = sealedRecord rc t p 0 \<and> rc' = rc\<lparr>rc_seq := rc_seq rc + 1\<rparr>"
  by (simp add: Seal_def SealWithPadding_Inr)

lemma Seal_total:
  "length p \<le> MaxPlaintextLength \<Longrightarrow> rc_seq rc \<noteq> NOT 0 \<Longrightarrow>
     Seal t p rc = (Inr (sealedRecord rc t p 0), rc\<lparr>rc_seq := rc_seq rc + 1\<rparr>)"
  by (simp add: Seal_Inr sealable_def)

lemma SealWithPadding_error_state: "SealWithPadding t p pad rc = (Inl e, rc') \<Longrightarrow> rc' = rc"
  by (auto simp: SealWithPadding_def Let_def split: if_splits)

lemma Unseal_error_state: "Unseal rec rc = (Inl e, rc') \<Longrightarrow> rc' = rc"
  by (auto simp: Unseal_def Let_def split: if_splits option.splits)

section \<open>Unseal inverts Seal\<close>

lemma length_recordHeader [simp, bytes_simps]: "length (recordHeader n) = 5"
  by (simp add: recordHeader_def)

lemma recordHeader_fields:
  "recordHeader n ! 0 = RecordTypeApplicationData"
  "slice (recordHeader n @ bs) (Suc 0) 3 = BigEndian_PutUint16 LegacyRecordVersion"
  "slice (recordHeader n @ bs) 3 5 = BigEndian_PutUint16 (word_of_int n)"
  by (simp_all add: recordHeader_def slice_def numeral_3_eq_3 take_Cons')

lemma scanContentType_skip:
  "i \<le> n \<Longrightarrow> (\<And>j. i \<le> j \<Longrightarrow> j < n \<Longrightarrow> ds ! j = 0) \<Longrightarrow> scanContentType ds n = scanContentType ds i"
  by (induction n) (auto simp: le_Suc_eq)

lemma scanContentType_Some:
  "scanContentType ds n = Some i \<longleftrightarrow>
     i < n \<and> ds ! i \<noteq> 0 \<and> (\<forall>j. i < j \<and> j < n \<longrightarrow> ds ! j = 0)"
  by (induction n) (auto simp: less_Suc_eq)

lemma scanContentType_padding:
  "t \<noteq> 0 \<Longrightarrow> scanContentType (p @ t # replicate k 0) (length p + 1 + k) = Some (length p)"
  by (auto simp: scanContentType_Some nth_append nth_Cons')

text \<open>The inner plaintext is its content, its type and its padding, in one way only.\<close>

lemma scanContentType_split:
  assumes "scanContentType ds (length ds) = Some i"
  shows "ds = take i ds @ [ds ! i] @ replicate (length ds - i - 1) 0"
proof -
  have i: "i < length ds" and zeros: "\<And>j. i < j \<Longrightarrow> j < length ds \<Longrightarrow> ds ! j = 0"
    using assms by (auto simp: scanContentType_Some)
  have "drop (Suc i) ds = replicate (length ds - i - 1) 0"
    by (rule nth_equalityI) (use i zeros in auto)
  then show ?thesis using id_take_nth_drop[OF i] by simp
qed

lemma recordHeader_parse:
  assumes len: "5 \<le> length rec" and type: "rec ! 0 = RecordTypeApplicationData"
    and ver: "BigEndian_Uint16 (slice rec 1 3) = LegacyRecordVersion"
    and dec: "unat (BigEndian_Uint16 (slice rec 3 5)) = n"
  shows "take 5 rec = recordHeader (int n)"
proof -
  have "take 5 rec = take 1 rec @ slice rec 1 3 @ slice rec 3 5"
    using len by (simp add: slice_def take_add[of 1 4, simplified] take_add[of 2 2, simplified])
  moreover have "take 1 rec = [RecordTypeApplicationData]"
    using len type by (cases rec) auto
  moreover have "slice rec 1 3 = BigEndian_PutUint16 LegacyRecordVersion"
    using ver len BigEndian_Put_Uint16[of "slice rec 1 3"] by simp
  moreover have "slice rec 3 5 = BigEndian_PutUint16 (word_of_int (int n))"
    using dec len BigEndian_Put_Uint16[of "slice rec 3 5"] by auto
  ultimately show ?thesis by (simp add: recordHeader_def)
qed

definition validInnerType :: "RecordType \<Rightarrow> bool" where
  "validInnerType t \<longleftrightarrow>
     t = RecordTypeAlert \<or> t = RecordTypeHandshake \<or> t = RecordTypeApplicationData"

lemma validInnerType_simps [simp]:
  "validInnerType 21" "validInnerType 22" "validInnerType 23" "validInnerType t \<Longrightarrow> t \<noteq> 0"
  by (auto simp: validInnerType_def)

lemma length_sealedRecord:
  "rcInv rc \<Longrightarrow> length (sealedRecord rc t p k) = 5 + (length p + 1 + k + 16)"
  using aead_scheme.length_seal[OF rcInv_aead] by (simp add: sealedRecord_def Let_def)

lemma sealedRecord_declared:
  assumes "sealable rc p k"
  shows "unat (BigEndian_Uint16 (slice (sealedRecord rc t p k @ rest) 3 5)) = length p + 1 + k + 16"
proof -
  have "length p + 1 + k + 16 < 65536" using assms by (simp add: sealable_def)
  then have "unat (word_of_int (int (length p + 1 + k + 16)) :: 16 word) = length p + 1 + k + 16"
    by (simp add: unat_of_nat flip: of_nat_Suc of_nat_add)
  then show ?thesis by (simp add: sealedRecord_def Let_def recordHeader_fields)
qed

lemma Unseal_sealedRecord:
  assumes inv: "rcInv rc" and t: "validInnerType t" and ok: "sealable rc p k"
  shows "Unseal (sealedRecord rc t p k) rc = (Inr (t, p), rc\<lparr>rc_seq := rc_seq rc + 1\<rparr>)"
proof -
  let ?rec = "sealedRecord rc t p k" and ?h = "recordHeader (int (length p + 1 + k + GCMTagSize))"
  let ?nonce = "deriveNonce rc (rc_seq rc)" and ?inner = "p @ [t] @ replicate k 0"
  have len: "length ?rec = 5 + (length p + 1 + k + 16)" by (rule length_sealedRecord[OF inv])
  have split: "?rec = ?h @ aead_Seal (rc_aead rc) ?nonce ?inner ?h"
    by (simp add: sealedRecord_def Let_def)
  have first: "?rec ! 0 = RecordTypeApplicationData"
    using recordHeader_fields(1) by (simp add: split nth_append)
  have ver: "BigEndian_Uint16 (slice ?rec (Suc 0) 3) = LegacyRecordVersion"
    by (simp add: split recordHeader_fields)
  have dec: "unat (BigEndian_Uint16 (slice ?rec 3 5)) = length p + 1 + k + 16"
    using sealedRecord_declared[OF ok, of t "[]"] by simp
  have opened: "aead_Open (rc_aead rc) ?nonce (drop 5 ?rec) (take 5 ?rec) = Some ?inner"
    using aead_scheme.open_seal[OF rcInv_aead[OF inv]] by (simp add: split)
  have scan: "scanContentType ?inner (length ?inner) = Some (length p)"
    using scanContentType_padding[of t p k] t by simp
  show ?thesis
    using ok t len first ver dec opened scan
    by (simp add: Unseal_def Let_def sealable_def validInnerType_def nth_append)
qed

lemma Unseal_decrypts:
  assumes inv: "rcInv rc" and un: "Unseal rec rc = (Inr (t, p), rc')"
  shows "\<exists>k. validInnerType t \<and> sealable rc p k \<and> rec = sealedRecord rc t p k \<and>
    rc' = rc\<lparr>rc_seq := rc_seq rc + 1\<rparr>"
proof -
  let ?n = "length rec - 5"
  have facts: "22 \<le> length rec" "rec ! 0 = RecordTypeApplicationData"
    "BigEndian_Uint16 (slice rec 1 3) = LegacyRecordVersion"
    "unat (BigEndian_Uint16 (slice rec 3 5)) = ?n" "?n \<le> 16640" "rc_seq rc \<noteq> NOT 0"
    using un by (auto simp: Unseal_def Let_def split: if_splits option.splits)
  then have hdr: "take 5 rec = recordHeader (int ?n)" by (intro recordHeader_parse) auto
  obtain ds i where opened:
      "aead_Open (rc_aead rc) (deriveNonce rc (rc_seq rc)) (drop 5 rec) (take 5 rec) = Some ds"
    and scan: "scanContentType ds (length ds) = Some i"
    and res: "validInnerType (ds ! i)" "min (length ds) i \<le> 16384" "t = ds ! i" "p = take i ds"
      "rc' = rc\<lparr>rc_seq := rc_seq rc + 1\<rparr>"
    using un by (auto simp: Unseal_def Let_def validInnerType_def split: if_splits option.splits)
  have i: "i < length ds" using scan by (simp add: scanContentType_Some)
  let ?k = "length ds - i - 1"
  have inner: "ds = p @ [t] @ replicate ?k 0" using scanContentType_split[OF scan] res by simp
  have ct: "drop 5 rec = aead_Seal (rc_aead rc) (deriveNonce rc (rc_seq rc)) ds (take 5 rec)"
    using aead_scheme.open_sound[OF rcInv_aead[OF inv] opened] .
  have n: "?n = length p + 1 + ?k + 16"
    using aead_scheme.open_length[OF rcInv_aead[OF inv] opened] i res by simp
  have "rec = take 5 rec @ drop 5 rec" by simp
  also have "\<dots> = sealedRecord rc t p ?k"
    using ct hdr n inner by (simp add: sealedRecord_def Let_def)
  finally have "rec = sealedRecord rc t p ?k" .
  moreover have "sealable rc p ?k" using n facts res i by (simp add: sealable_def)
  ultimately show ?thesis using res by auto
qed

lemma Unseal_Inr:
  assumes "rcInv rc"
  shows "Unseal rec rc = (Inr (t, p), rc') \<longleftrightarrow>
    validInnerType t \<and> (\<exists>k. sealable rc p k \<and> rec = sealedRecord rc t p k) \<and>
    rc' = rc\<lparr>rc_seq := rc_seq rc + 1\<rparr>"
  using Unseal_sealedRecord[OF assms] Unseal_decrypts[OF assms] by blast

text \<open>Every call leaves the cipher as it was or moves it to the next sequence number.\<close>

lemma Unseal_state:
  "Unseal rec rc = (r, rc') \<Longrightarrow>
     rc' = rc \<or> rc_seq rc \<noteq> NOT 0 \<and> rc' = rc\<lparr>rc_seq := rc_seq rc + 1\<rparr>"
  by (auto simp: Unseal_def Let_def split: if_splits option.splits)

lemma SealWithPadding_state:
  "SealWithPadding t p pad rc = (r, rc') \<Longrightarrow>
     rc' = rc \<or> rc_seq rc \<noteq> NOT 0 \<and> rc' = rc\<lparr>rc_seq := rc_seq rc + 1\<rparr>"
  by (auto simp: SealWithPadding_def Let_def split: if_splits)

lemma SealWithPadding_success_state:
  "SealWithPadding t p pad rc = (Inr rec, rc') \<Longrightarrow>
     rc_seq rc \<noteq> NOT 0 \<and> rc' = rc\<lparr>rc_seq := rc_seq rc + 1\<rparr>"
  by (auto simp: SealWithPadding_def Let_def split: if_splits)

lemma Unseal_inv: "rcInv rc \<Longrightarrow> Unseal rec rc = (r, rc') \<Longrightarrow> rcInv rc'"
  by (auto dest: Unseal_state)

lemma Seal_inv: "rcInv rc \<Longrightarrow> Seal t p rc = (r, rc') \<Longrightarrow> rcInv rc'"
  by (auto simp: Seal_def dest: SealWithPadding_state)

section \<open>The life of a cipher\<close>

text \<open>
  The nonce \<^verbatim>\<open>SealWithPadding\<close> hands to its AEAD, observed on the code itself: the same call is run with a
  recording AEAD whose \<^verbatim>\<open>Seal\<close> returns the nonce it is given, and the nonce is what follows the header of
  the record that comes out. The code treats its AEAD as opaque, so this is the nonce the real AEAD gets.
\<close>

definition nonceRecorder :: AEAD where
  "nonceRecorder = \<lparr>aead_Seal = \<lambda>nonce plaintext additionalData. nonce, aead_Open = \<lambda>nonce ciphertext additionalData. None\<rparr>"

definition sealNonce :: "RecordType \<Rightarrow> bytes \<Rightarrow> int \<Rightarrow> RecordCipher \<Rightarrow> bytes option" where
  "sealNonce t p pad rc =
     (case fst (SealWithPadding t p pad (rc\<lparr>rc_aead := nonceRecorder\<rparr>)) of
        Inr rec \<Rightarrow> Some (drop RecordHeaderLen rec)
      | Inl _ \<Rightarrow> None)"

lemma deriveNonce_aead [simp]: "deriveNonce (rc\<lparr>rc_aead := a\<rparr>) seq = deriveNonce rc seq"
  by (simp add: deriveNonce_def)

lemma sealNonce_Some:
  "SealWithPadding t p pad rc = (Inr rec, rc') \<Longrightarrow> sealNonce t p pad rc = Some (deriveNonce rc (rc_seq rc))"
  by (auto simp: sealNonce_def SealWithPadding_def Let_def nonceRecorder_def recordHeader_def split: if_splits)

text \<open>The record returned is the header and what the real AEAD makes of the inner plaintext under that nonce.\<close>

lemma sealNonce_seals:
  assumes "pad < 2 ^ 63" "SealWithPadding t p pad rc = (Inr rec, rc')"
  obtains n where "sealNonce t p pad rc = Some n"
    "rec = take RecordHeaderLen rec @ aead_Seal (rc_aead rc) n (p @ [t] @ replicate (nat pad) 0) (take RecordHeaderLen rec)"
  using sealNonce_Some[OF assms(2)] assms by (simp add: SealWithPadding_Inr sealedRecord_def Let_def length_recordHeader)

text \<open>
  A run of a cipher from \<open>rc\<close>: any sequence of calls, successful or not, with the nonces the AEAD has
  sealed under, oldest first.
\<close>

inductive cipherRun :: "RecordCipher \<Rightarrow> bytes list \<Rightarrow> RecordCipher \<Rightarrow> bool" where
  run_start: "cipherRun rc [] rc"
| run_seal: "cipherRun rc ns rc1 \<Longrightarrow> SealWithPadding t p pad rc1 = (Inr rec, rc2) \<Longrightarrow>
     sealNonce t p pad rc1 = Some n \<Longrightarrow> cipherRun rc (ns @ [n]) rc2"
| run_seal_error: "cipherRun rc ns rc1 \<Longrightarrow> SealWithPadding t p pad rc1 = (Inl e, rc2) \<Longrightarrow>
     cipherRun rc ns rc2"
| run_unseal: "cipherRun rc ns rc1 \<Longrightarrow> Unseal rec rc1 = (r, rc2) \<Longrightarrow> cipherRun rc ns rc2"
| run_reset: "cipherRun rc ns rc1 \<Longrightarrow> cipherRun rc ns (Reset rc1)"

inductive_cases cipherRunE: "cipherRun rc ns rc'"

lemma word_less_Suc: "(x :: 64 word) \<noteq> NOT 0 \<Longrightarrow> x < x + 1"
proof -
  assume "x \<noteq> NOT 0"
  then have "1 + x \<noteq> 0" by (auto simp: add_eq_0_iff)
  then have "unat (1 + x) = Suc (unat x)" by (rule unatSuc)
  then show "x < x + 1" by (simp add: word_less_nat_alt add.commute)
qed

definition runInv :: "RecordCipher \<Rightarrow> bytes list \<Rightarrow> RecordCipher \<Rightarrow> bool" where
  "runInv rc ns rc' \<longleftrightarrow> (\<exists>seqs. ns = map (deriveNonce rc) seqs \<and> distinct seqs \<and>
     (\<forall>s \<in> set seqs. rc_seq rc \<le> s \<and> s < rc_seq rc') \<and> rc_seq rc \<le> rc_seq rc' \<and>
     rc' = rc\<lparr>rc_seq := rc_seq rc'\<rparr>)"

lemma runInv_advance:
  assumes inv: "runInv rc ns rc1" and "rc_seq rc1 \<noteq> NOT 0"
  shows "runInv rc ns (rc1\<lparr>rc_seq := rc_seq rc1 + 1\<rparr>)"
    and "runInv rc (ns @ [deriveNonce rc1 (rc_seq rc1)]) (rc1\<lparr>rc_seq := rc_seq rc1 + 1\<rparr>)"
proof -
  obtain seqs where seqs: "ns = map (deriveNonce rc) seqs" "distinct seqs"
    "\<forall>s \<in> set seqs. rc_seq rc \<le> s \<and> s < rc_seq rc1" "rc_seq rc \<le> rc_seq rc1"
    "rc1 = rc\<lparr>rc_seq := rc_seq rc1\<rparr>"
    using inv by (auto simp: runInv_def)
  have less: "rc_seq rc1 < rc_seq rc1 + 1" by (rule word_less_Suc) fact
  have nonce: "deriveNonce rc1 s = deriveNonce rc s" for s by (subst seqs(5)) simp
  have upd: "rc1\<lparr>rc_seq := n\<rparr> = rc\<lparr>rc_seq := n\<rparr>" for n by (subst seqs(5)) simp
  with seqs less show "runInv rc ns (rc1\<lparr>rc_seq := rc_seq rc1 + 1\<rparr>)"
    unfolding runInv_def by (intro exI[of _ seqs]) (auto intro: order.strict_trans)
  from upd seqs less show "runInv rc (ns @ [deriveNonce rc1 (rc_seq rc1)]) (rc1\<lparr>rc_seq := rc_seq rc1 + 1\<rparr>)"
    unfolding runInv_def nonce
    by (intro exI[of _ "seqs @ [rc_seq rc1]"]) (auto intro: order.strict_trans)
qed

lemma cipherRun_inv: "cipherRun rc ns rc' \<Longrightarrow> runInv rc ns rc'"
proof (induction rule: cipherRun.induct)
  case (run_start rc)
  show ?case by (simp add: runInv_def)
next
  case (run_seal rc ns rc1 t p pad rec rc2 n)
  then have "n = deriveNonce rc1 (rc_seq rc1)" using sealNonce_Some by fastforce
  with run_seal show ?case using SealWithPadding_success_state runInv_advance(2) by metis
next
  case (run_seal_error rc ns rc1 t p pad e rc2)
  then show ?case using SealWithPadding_error_state by metis
next
  case (run_unseal rc ns rc1 rec r rc2)
  then show ?case using Unseal_state runInv_advance(1) by metis
next
  case (run_reset rc ns rc1)
  then show ?case by (simp add: Reset_def)
qed

lemma runInv_distinct: "runInv rc ns rc' \<Longrightarrow> distinct ns"
  by (auto simp: runInv_def distinct_map inj_on_def dest: deriveNonce_inj)

lemma runInv_count: "runInv rc ns rc' \<Longrightarrow> length ns \<le> unat (rc_seq rc') - unat (rc_seq rc)"
proof -
  assume "runInv rc ns rc'"
  then obtain seqs where seqs: "ns = map (deriveNonce rc) seqs" "distinct seqs"
    "\<forall>s \<in> set seqs. rc_seq rc \<le> s \<and> s < rc_seq rc'"
    by (auto simp: runInv_def)
  have "card (unat ` set seqs) \<le> card {unat (rc_seq rc) ..< unat (rc_seq rc')}"
    using seqs(3) by (intro card_mono) (auto simp: word_le_nat_alt word_less_nat_alt)
  moreover have "card (unat ` set seqs) = length seqs"
    using seqs(2) by (simp add: card_image inj_on_def distinct_card word_unat_eq_iff)
  ultimately show ?thesis using seqs(1) by simp
qed

section \<open>Properties of the record layer\<close>

text \<open>
  C7: \<^verbatim>\<open>Unseal\<close> accepts a record exactly when \<^verbatim>\<open>SealWithPadding\<close>, run on the same cipher state, produces
  it for an admissible inner content type and some padding; it then returns that content type and
  plaintext and leaves the receiving cipher in the state the sending cipher is left in.
\<close>

theorem unseal_iff_sealed:
  assumes "rcInv rc"
  shows "Unseal rec rc = (Inr (t, p), rc') \<longleftrightarrow>
    validInnerType t \<and>
    (\<exists>pad. 0 \<le> pad \<and> pad < 2 ^ 63 \<and> SealWithPadding t p pad rc = (Inr rec, rc'))"
proof
  assume "Unseal rec rc = (Inr (t, p), rc')"
  then obtain k where k: "validInnerType t" "sealable rc p k" "rec = sealedRecord rc t p k"
    "rc' = rc\<lparr>rc_seq := rc_seq rc + 1\<rparr>"
    using Unseal_decrypts[OF assms] by blast
  have "int k < 2 ^ 63" using k(2) by (simp add: sealable_def)
  with k show "validInnerType t \<and>
    (\<exists>pad. 0 \<le> pad \<and> pad < 2 ^ 63 \<and> SealWithPadding t p pad rc = (Inr rec, rc'))"
    by (auto simp: SealWithPadding_Inr intro!: exI[of _ "int k"])
next
  assume "validInnerType t \<and>
    (\<exists>pad. 0 \<le> pad \<and> pad < 2 ^ 63 \<and> SealWithPadding t p pad rc = (Inr rec, rc'))"
  then show "Unseal rec rc = (Inr (t, p), rc')"
    by (auto simp: SealWithPadding_Inr Unseal_sealedRecord[OF assms])
qed

text \<open>A concrete cipher for witnesses: Galois/Counter mode over a toy permutation of blocks.\<close>

definition demoCipher :: RecordCipher where
  "demoCipher = \<lparr>rc_aead = NewGCM (\<lambda>w. w + 3), rc_baseIV = replicate 12 7, rc_seq = 5\<rparr>"

lemma demoCipher_inv: "rcInv demoCipher"
  by (auto simp: rcInv_def demoCipher_def)

theorem unseal_iff_sealed_witness:
  "rcInv demoCipher \<and>
   Unseal (sealedRecord demoCipher 23 [1, 2, 0] 4) demoCipher =
     (Inr (23, [1, 2, 0]), demoCipher\<lparr>rc_seq := 6\<rparr>)"
proof -
  have "SealWithPadding 23 [1, 2, 0] 4 demoCipher =
      (Inr (sealedRecord demoCipher 23 [1, 2, 0] 4), demoCipher\<lparr>rc_seq := 6\<rparr>)"
    by (simp add: SealWithPadding_Inr sealable_def demoCipher_def)
  then show ?thesis
    using unseal_iff_sealed[OF demoCipher_inv, of "sealedRecord demoCipher 23 [1, 2, 0] 4" 23 "[1, 2, 0]"]
      demoCipher_inv by fastforce
qed

text \<open>
  C8: across any sequence of calls on one cipher, failing ones and \<^verbatim>\<open>Reset\<close> included, no two successful
  calls of \<^verbatim>\<open>SealWithPadding\<close> hand the AEAD the same nonce (the nonces are those the code itself passes, see
  \<open>sealNonce\<close>), the sequence number never goes back, and it has advanced by at least the number of seals.
\<close>

theorem nonce_never_reused:
  "cipherRun rc ns rc' \<Longrightarrow>
     distinct ns \<and> rc_seq rc \<le> rc_seq rc' \<and> length ns \<le> unat (rc_seq rc') - unat (rc_seq rc)"
proof -
  assume "cipherRun rc ns rc'"
  then have inv: "runInv rc ns rc'" by (rule cipherRun_inv)
  then have "rc_seq rc \<le> rc_seq rc'" by (auto simp: runInv_def)
  with inv show ?thesis using runInv_distinct runInv_count by blast
qed

theorem nonce_never_reused_witness:
  "\<exists>n1 n2. sealNonce 23 [1] 0 demoCipher = Some n1 \<and>
     sealNonce 21 [1, 0] 0 (demoCipher\<lparr>rc_seq := 6\<rparr>) = Some n2 \<and> distinct [n1, n2] \<and>
     cipherRun demoCipher [n1, n2] (demoCipher\<lparr>rc_seq := 7\<rparr>)"
proof -
  let ?rc1 = "demoCipher\<lparr>rc_seq := 6\<rparr>"
  have s1: "SealWithPadding 23 [1] 0 demoCipher = (Inr (sealedRecord demoCipher 23 [1] 0), ?rc1)"
    and s2: "SealWithPadding 21 [1, 0] 0 ?rc1 =
      (Inr (sealedRecord ?rc1 21 [1, 0] 0), demoCipher\<lparr>rc_seq := 7\<rparr>)"
    by (simp_all add: SealWithPadding_Inr sealable_def demoCipher_def)
  obtain n1 n2 where n: "sealNonce 23 [1] 0 demoCipher = Some n1" "sealNonce 21 [1, 0] 0 ?rc1 = Some n2"
    using sealNonce_Some[OF s1] sealNonce_Some[OF s2] by blast
  have "cipherRun demoCipher ([] @ [n1]) ?rc1" by (rule run_seal[OF run_start s1 n(1)])
  from run_seal[OF this s2 n(2)]
  have run: "cipherRun demoCipher [n1, n2] (demoCipher\<lparr>rc_seq := 7\<rparr>)" by simp
  with nonce_never_reused[OF run] n show ?thesis by blast
qed

text \<open>
  C30: the outcome of \<^verbatim>\<open>SealWithPadding\<close> on every branch, for every padding a Go \<^verbatim>\<open>int\<close> can hold. The
  cipher changes only when a record is returned. A padding within 16400 of the largest \<^verbatim>\<open>int\<close> makes
  the length sum wrap around and slip past the size check, and the call ends in a panic instead of
  \<^verbatim>\<open>ErrCiphertextTooLarge\<close>.
\<close>

theorem seal_outcome:
  assumes "pad < 2 ^ 63"
  shows "SealWithPadding t p pad rc =
    (if length p > MaxPlaintextLength then (Inl ErrPlaintextTooLarge, rc)
     else if pad < 0 then (Inl (ErrNew ''teetls: padding length cannot be negative''), rc)
     else if int (length p) + 1 + pad + 16 \<ge> 2 ^ 63 then
       (if rc_seq rc = NOT 0 then (Inl ErrSequenceOverflow, rc)
        else (Inl (Panic ''makeslice: len out of range''), rc))
     else if int (length p) + 1 + pad + 16 > int MaxCiphertextLength
     then (Inl ErrCiphertextTooLarge, rc)
     else if rc_seq rc = NOT 0 then (Inl ErrSequenceOverflow, rc)
     else (Inr (sealedRecord rc t p (nat pad)), rc\<lparr>rc_seq := rc_seq rc + 1\<rparr>))"
proof -
  consider "length p > MaxPlaintextLength \<or> pad < 0"
    | "length p \<le> MaxPlaintextLength" "0 \<le> pad" "int (length p) + 1 + pad + int GCMTagSize < 2 ^ 63"
    | "length p \<le> MaxPlaintextLength" "0 \<le> pad" "2 ^ 63 \<le> int (length p) + 1 + pad + int GCMTagSize"
    by linarith
  then show ?thesis
  proof cases
    case 1
    then show ?thesis by (auto simp: SealWithPadding_def)
  next
    case 2
    then show ?thesis by (subst SealWithPadding_fits) auto
  next
    case 3
    then show ?thesis using assms by (subst SealWithPadding_wraps) auto
  qed
qed

theorem seal_outcome_witness:
  "SealWithPadding 23 [] (2 ^ 63 - 1) demoCipher =
     (Inl (Panic ''makeslice: len out of range''), demoCipher) \<and>
   SealWithPadding 23 [] 16624 demoCipher = (Inl ErrCiphertextTooLarge, demoCipher) \<and>
   fst (SealWithPadding 23 [] 16623 demoCipher) = Inr (sealedRecord demoCipher 23 [] 16623)"
  using seal_outcome[of "2 ^ 63 - 1" 23 "[]" demoCipher] seal_outcome[of 16624 23 "[]" demoCipher]
    seal_outcome[of 16623 23 "[]" demoCipher]
  by (simp add: demoCipher_def)

end
