(* ===== verification/Go_Strings.thy ===== *)
theory Go_Strings
  imports Go_IO
begin

text \<open>
  Go strings, which are byte sequences, and the functions of \<^verbatim>\<open>strings\<close>, \<^verbatim>\<open>encoding/hex\<close>, \<^verbatim>\<open>net/url\<close> and
  \<^verbatim>\<open>path/filepath\<close> (on Unix) that the program applies to them.
\<close>

type_synonym gostring = bytes

definition stringBytes :: "string \<Rightarrow> gostring" where
  "stringBytes cs = map (\<lambda>c. word_of_nat (of_char c)) cs"

section \<open>White space\<close>

text \<open>
  The UTF-8 forms of the characters for which \<^verbatim>\<open>unicode.IsSpace\<close> holds. No form is a prefix of another, and
  none is a suffix of another, so that decoding runes from either end and matching these
  sequences is the same.
\<close>

definition spaceSeqs :: "bytes list" where
  "spaceSeqs = [[0x09], [0x0a], [0x0b], [0x0c], [0x0d], [0x20], [0xc2, 0x85], [0xc2, 0xa0],
     [0xe1, 0x9a, 0x80], [0xe2, 0x80, 0x80], [0xe2, 0x80, 0x81], [0xe2, 0x80, 0x82],
     [0xe2, 0x80, 0x83], [0xe2, 0x80, 0x84], [0xe2, 0x80, 0x85], [0xe2, 0x80, 0x86],
     [0xe2, 0x80, 0x87], [0xe2, 0x80, 0x88], [0xe2, 0x80, 0x89], [0xe2, 0x80, 0x8a],
     [0xe2, 0x80, 0xa8], [0xe2, 0x80, 0xa9], [0xe2, 0x80, 0xaf], [0xe2, 0x81, 0x9f],
     [0xe3, 0x80, 0x80]]"

function trimPrefixes :: "bytes list \<Rightarrow> bytes \<Rightarrow> bytes" where
  "trimPrefixes ws bs =
     (case find (\<lambda>w. w \<noteq> [] \<and> take (length w) bs = w) ws of
        None \<Rightarrow> bs
      | Some w \<Rightarrow> trimPrefixes ws (drop (length w) bs))"
  by pat_completeness auto
termination
proof (relation "measure (\<lambda>(ws, bs). length bs)")
  fix ws bs w
  assume "find (\<lambda>w. w \<noteq> [] \<and> take (length w) bs = w) ws = Some w"
  then have "w \<noteq> []" "take (length w) bs = w" by (auto simp: find_Some_iff)
  then have "bs \<noteq> []" "length w > 0" by auto
  then show "((ws, drop (length w) bs), ws, bs) \<in> measure (\<lambda>(ws, bs). length bs)" by simp
qed simp

declare trimPrefixes.simps [simp del]

definition TrimSpace :: "gostring \<Rightarrow> gostring" where
  "TrimSpace s = rev (trimPrefixes (map rev spaceSeqs) (rev (trimPrefixes spaceSeqs s)))"

definition TrimRightByte :: "byte \<Rightarrow> gostring \<Rightarrow> gostring" where
  "TrimRightByte b s = rev (dropWhile (\<lambda>x. x = b) (rev s))"

lemma trimPrefixes_suffix: "\<exists>p. bs = p @ trimPrefixes ws bs"
proof (induction ws bs rule: trimPrefixes.induct)
  case (1 ws bs)
  show ?case
  proof (cases "find (\<lambda>w. w \<noteq> [] \<and> take (length w) bs = w) ws")
    case None
    then show ?thesis by (simp add: trimPrefixes.simps)
  next
    case (Some w)
    from 1[OF Some] obtain p where "drop (length w) bs = p @ trimPrefixes ws (drop (length w) bs)" by blast
    then have "bs = (take (length w) bs @ p) @ trimPrefixes ws (drop (length w) bs)"
      by (metis append_assoc append_take_drop_id)
    moreover have "trimPrefixes ws bs = trimPrefixes ws (drop (length w) bs)"
      using Some by (subst trimPrefixes.simps) simp
    ultimately show ?thesis by metis
  qed
qed

lemma trimPrefixes_id: "find (\<lambda>w. w \<noteq> [] \<and> take (length w) bs = w) ws = None \<Longrightarrow> trimPrefixes ws bs = bs"
  by (simp add: trimPrefixes.simps)

text \<open>Trimming keeps a substring.\<close>

lemma TrimSpace_substring: "\<exists>p q. s = p @ TrimSpace s @ q"
proof -
  obtain p where p: "s = p @ trimPrefixes spaceSeqs s" using trimPrefixes_suffix by blast
  let ?t = "trimPrefixes spaceSeqs s"
  obtain q where "rev ?t = q @ trimPrefixes (map rev spaceSeqs) (rev ?t)" using trimPrefixes_suffix by blast
  then have "rev (rev ?t) = TrimSpace s @ rev q" unfolding TrimSpace_def by (metis rev_append)
  with p show ?thesis by auto
qed

lemma TrimSpace_Nil [simp]: "TrimSpace [] = []"
  using TrimSpace_substring[of "[]"] by simp

section \<open>Case folding\<close>

text \<open>
  \<^verbatim>\<open>strings.EqualFold\<close> where one of the strings is hexadecimal, the only use the program makes of it. No
  character outside ASCII folds to a hexadecimal digit, so folding ASCII letters decides it.
\<close>

definition lowerByte :: "byte \<Rightarrow> byte" where
  "lowerByte b = (if 0x41 \<le> b \<and> b \<le> 0x5a then b + 0x20 else b)"

definition EqualFold :: "gostring \<Rightarrow> gostring \<Rightarrow> bool" where
  "EqualFold s t \<longleftrightarrow> map lowerByte s = map lowerByte t"

section \<open>Hexadecimal\<close>

definition hexDigit :: "nat \<Rightarrow> byte" where
  "hexDigit n = (if n < 10 then 0x30 + word_of_nat n else 0x57 + word_of_nat n)"

definition hexEncode :: "bytes \<Rightarrow> gostring" where
  "hexEncode bs = concat (map (\<lambda>b. [hexDigit (unat b div 16), hexDigit (unat b mod 16)]) bs)"

definition fromHexChar :: "byte \<Rightarrow> nat option" where
  "fromHexChar c =
     (if 0x30 \<le> c \<and> c \<le> 0x39 then Some (unat c - 0x30)
      else if 0x61 \<le> c \<and> c \<le> 0x66 then Some (unat c - 0x61 + 10)
      else if 0x41 \<le> c \<and> c \<le> 0x46 then Some (unat c - 0x41 + 10)
      else None)"

text \<open>\<^verbatim>\<open>hex.DecodeString\<close>; \<^verbatim>\<open>None\<close> is its error.\<close>

fun hexDecode :: "gostring \<Rightarrow> bytes option" where
  "hexDecode [] = Some []"
| "hexDecode [c] = None"
| "hexDecode (c # d # cs) =
     (case (fromHexChar c, fromHexChar d, hexDecode cs) of
        (Some a, Some b, Some bs) \<Rightarrow> Some (word_of_nat (a * 16 + b) # bs)
      | _ \<Rightarrow> None)"

lemma hexEncode_simps [simp]:
  "hexEncode [] = []"
  "hexEncode (b # bs) = hexDigit (unat b div 16) # hexDigit (unat b mod 16) # hexEncode bs"
  by (simp_all add: hexEncode_def)

lemma length_hexEncode [simp, bytes_simps]: "length (hexEncode bs) = 2 * length bs"
  by (induction bs) auto

text \<open>A fact on the sixteen digits is checked by evaluating it on each of them.\<close>

lemma digits_all: "list_all P [0..<16] \<Longrightarrow> n < 16 \<Longrightarrow> P n"
  by (simp add: list_all_iff)

lemma fromHexChar_hexDigit [simp]: "n < 16 \<Longrightarrow> fromHexChar (hexDigit n) = Some n"
  by (rule digits_all[where P = "\<lambda>k. fromHexChar (hexDigit k) = Some k"]) (code_simp, assumption)

lemma lowerByte_hexDigit [simp]: "n < 16 \<Longrightarrow> lowerByte (hexDigit n) = hexDigit n"
  by (rule digits_all[where P = "\<lambda>k. lowerByte (hexDigit k) = hexDigit k"]) (code_simp, assumption)

lemma hexDecode_hexEncode [simp, codec_simps]: "hexDecode (hexEncode bs) = Some bs"
proof (induction bs)
  case (Cons b bs)
  have "unat b div 16 < 16" using unat_byte_less[of b] by simp
  with Cons show ?case by simp
qed simp

lemma lowerByte_hexEncode: "map lowerByte (hexEncode bs) = hexEncode bs"
proof (induction bs)
  case (Cons b bs)
  have "unat b div 16 < 16" using unat_byte_less[of b] by simp
  with Cons show ?case by simp
qed simp

lemma fromHexChar_lower: "fromHexChar (lowerByte c) = fromHexChar c"
proof -
  have "unat c < 256" by (rule unat_byte_less)
  show ?thesis
  proof (cases "0x41 \<le> c \<and> c \<le> 0x5a")
    case True
    then have u: "65 \<le> unat c" "unat c \<le> 90" by (simp_all add: word_le_nat_alt)
    then have "unat (c + 0x20) = unat c + 32" by (simp add: unat_word_ariths)
    then show ?thesis using True u by (auto simp: fromHexChar_def lowerByte_def word_le_nat_alt)
  qed (simp only: lowerByte_def if_False)
qed

lemma hexDecode_lower: "hexDecode (map lowerByte s) = hexDecode s"
  by (induction s rule: hexDecode.induct) (simp_all add: fromHexChar_lower)

text \<open>Equality up to case with a hexadecimal encoding is equality of the decoded bytes.\<close>

lemma EqualFold_hexEncode: "EqualFold s (hexEncode bs) \<Longrightarrow> hexDecode s = Some bs"
  unfolding EqualFold_def lowerByte_hexEncode by (metis hexDecode_hexEncode hexDecode_lower)

lemma fromHexChar_Some: "fromHexChar c = Some a \<Longrightarrow> lowerByte c = hexDigit a \<and> a < 16"
proof -
  assume c: "fromHexChar c = Some a"
  then consider (digit) "48 \<le> unat c" "unat c \<le> 57" "a = unat c - 48"
    | (lower) "97 \<le> unat c" "unat c \<le> 102" "a = unat c - 87"
    | (upper) "65 \<le> unat c" "unat c \<le> 70" "a = unat c - 55"
    by (auto simp: fromHexChar_def word_le_nat_alt split: if_splits)
  then show ?thesis
    by cases (auto simp: lowerByte_def hexDigit_def word_le_nat_alt word_unat_eq_iff unat_word_ariths unat_of_nat)
qed

lemma hexDecode_Some: "hexDecode m = Some d \<Longrightarrow> map lowerByte m = hexEncode d \<and> length m = 2 * length d"
proof (induction m arbitrary: d rule: hexDecode.induct)
  case (3 c e cs)
  then obtain a b bs where h: "fromHexChar c = Some a" "fromHexChar e = Some b" "hexDecode cs = Some bs"
    "d = word_of_nat (a * 16 + b) # bs" by (auto split: option.splits)
  have ab: "a < 16" "b < 16" "lowerByte c = hexDigit a" "lowerByte e = hexDigit b"
    using fromHexChar_Some[OF h(1)] fromHexChar_Some[OF h(2)] by auto
  then have "unat (word_of_nat (a * 16 + b) :: byte) = a * 16 + b"
    using unat_word_of_nat_byte[of "a * 16 + b"] by simp
  with ab h "3.IH"[OF h(3)] show ?case by simp
qed simp_all

lemma hexDecode_iff_EqualFold: "hexDecode m = Some d \<longleftrightarrow> EqualFold m (hexEncode d)"
proof
  assume "hexDecode m = Some d"
  then have "map lowerByte m = hexEncode d" using hexDecode_Some by blast
  then show "EqualFold m (hexEncode d)" by (simp only: EqualFold_def lowerByte_hexEncode)
qed (rule EqualFold_hexEncode)

lemma EqualFold_refl [simp]: "EqualFold s s"
  by (simp add: EqualFold_def)

lemma EqualFold_sym: "EqualFold s t = EqualFold t s"
  by (auto simp: EqualFold_def)

section \<open>URLs\<close>

definition upperHexDigit :: "nat \<Rightarrow> byte" where
  "upperHexDigit n = (if n < 10 then 0x30 + word_of_nat n else 0x37 + word_of_nat n)"

definition unreserved :: "byte \<Rightarrow> bool" where
  "unreserved b \<longleftrightarrow> 0x61 \<le> b \<and> b \<le> 0x7a \<or> 0x41 \<le> b \<and> b \<le> 0x5a \<or> 0x30 \<le> b \<and> b \<le> 0x39 \<or>
     b = 0x2d \<or> b = 0x5f \<or> b = 0x2e \<or> b = 0x7e"

definition QueryEscape :: "gostring \<Rightarrow> gostring" where
  "QueryEscape s = concat (map (\<lambda>b. if unreserved b then [b] else if b = 0x20 then [0x2b]
     else [0x25, upperHexDigit (unat b div 16), upperHexDigit (unat b mod 16)]) s)"

section \<open>Paths\<close>

fun splitSlash :: "gostring \<Rightarrow> gostring list" where
  "splitSlash [] = [[]]"
| "splitSlash (c # cs) =
     (if c = 0x2f then [] # splitSlash cs
      else case splitSlash cs of [] \<Rightarrow> [[c]] | p # ps \<Rightarrow> (c # p) # ps)"

text \<open>The elements kept by \<^verbatim>\<open>filepath.Clean\<close>, the last one first.\<close>

fun cleanElems :: "bool \<Rightarrow> gostring list \<Rightarrow> gostring list \<Rightarrow> gostring list" where
  "cleanElems rooted kept [] = kept"
| "cleanElems rooted kept (p # ps) =
     (if p = [] \<or> p = [0x2e] then cleanElems rooted kept ps
      else if p = [0x2e, 0x2e] then
        (if kept \<noteq> [] \<and> hd kept \<noteq> [0x2e, 0x2e] then cleanElems rooted (tl kept) ps
         else if rooted then cleanElems rooted kept ps
         else cleanElems rooted (p # kept) ps)
      else cleanElems rooted (p # kept) ps)"

fun joinSlash :: "gostring list \<Rightarrow> gostring" where
  "joinSlash [] = []"
| "joinSlash [p] = p"
| "joinSlash (p # ps) = p @ [0x2f] @ joinSlash ps"

definition filepathClean :: "gostring \<Rightarrow> gostring" where
  "filepathClean p =
     (let rooted = (p \<noteq> [] \<and> hd p = 0x2f);
          body = joinSlash (rev (cleanElems rooted [] (splitSlash p)))
      in if rooted then 0x2f # body else if body = [] then [0x2e] else body)"

definition filepathDir :: "gostring \<Rightarrow> gostring" where
  "filepathDir p = filepathClean (rev (dropWhile (\<lambda>b. b \<noteq> 0x2f) (rev p)))"

definition filepathJoin2 :: "gostring \<Rightarrow> gostring \<Rightarrow> gostring" where
  "filepathJoin2 a b =
     (if a = [] \<and> b = [] then [] else if a = [] then filepathClean b else filepathClean (a @ [0x2f] @ b))"

end
