(* ===== verification/Handshake_Codec.thy ===== *)
theory Handshake_Codec
  imports Record_Layer Go_Strings
begin

text \<open>
  The handshake's message layer (\<^verbatim>\<open>handshake.go\<close>, everything below the two protocol roles): handshake
  messages and their framing in plaintext and in encrypted records, the buffering reader that
  reassembles them, the byte form of SM2 keys, the key schedule and the transcript. Connections are
  the \<open>net\<close> states of the prelude, and the reading loops terminate because every iteration takes
  bytes off the connection.
\<close>

section \<open>Constants and data\<close>

definition HandshakeTypeClientHello :: byte where [simp]: "HandshakeTypeClientHello = 1"
definition HandshakeTypeServerHello :: byte where [simp]: "HandshakeTypeServerHello = 2"
definition HandshakeTypeEncryptedExtensions :: byte where [simp]: "HandshakeTypeEncryptedExtensions = 8"
definition HandshakeTypeCertificate :: byte where [simp]: "HandshakeTypeCertificate = 11"
definition HandshakeTypeCertificateVerify :: byte where [simp]: "HandshakeTypeCertificateVerify = 15"
definition HandshakeTypeFinished :: byte where [simp]: "HandshakeTypeFinished = 20"

definition HandshakeHeaderLen :: nat where [simp]: "HandshakeHeaderLen = 4"
definition SM2UncompressedPubKeyLen :: nat where [simp]: "SM2UncompressedPubKeyLen = 65"
definition RandomBytesLen :: nat where [simp]: "RandomBytesLen = 32"
definition maxHandshakeBufferSize :: nat where [simp]: "maxHandshakeBufferSize = 2 * 1024 * 1024"

record HandshakeTrafficKeys =
  hk_ClientWriteKey :: bytes
  hk_ClientWriteIV :: bytes
  hk_ServerWriteKey :: bytes
  hk_ServerWriteIV :: bytes
  hk_ServerFinishedKey :: bytes
  hk_ClientFinishedKey :: bytes

record ApplicationTrafficKeys =
  ak_ClientWriteKey :: bytes
  ak_ClientWriteIV :: bytes
  ak_ServerWriteKey :: bytes
  ak_ServerWriteIV :: bytes

section \<open>Writing\<close>

definition writeFull :: "bytes \<Rightarrow> (net, unit) io" where
  "writeFull p s =
     (case connWrite p s of
        ((n, Some e), s') \<Rightarrow> (Inl e, s')
      | ((n, None), s') \<Rightarrow> if n \<noteq> length p then (Inl IoErrShortWrite, s') else (Inr (), s'))"

definition encodeHandshakeMsg :: "byte \<Rightarrow> bytes \<Rightarrow> bytes" where
  "encodeHandshakeMsg msgType body =
     (let len = length body
      in [msgType, word_of_nat (take_bit 8 (drop_bit 16 len)), word_of_nat (take_bit 8 (drop_bit 8 len)),
          word_of_nat (take_bit 8 len)] @ body)"

definition writePlaintextHandshakeMsg :: "byte \<Rightarrow> bytes \<Rightarrow> (net, bytes) io" where
  "writePlaintextHandshakeMsg msgType body =
     (let hsMsg = encodeHandshakeMsg msgType body
      in if length hsMsg > MaxPlaintextLength
         then fail (ErrNew ''teetls: plaintext handshake message exceeds max record length'')
         else
           let record = [RecordTypeHandshake, 0x03, 0x03] @
                 BigEndian_PutUint16 (word_of_nat (length hsMsg)) @ hsMsg
           in bindIO (wrapIO ''write plaintext handshake record'' (writeFull record)) (\<lambda>_. ret hsMsg))"

function writeEncryptedLoop :: "RecordCipher \<Rightarrow> bytes \<Rightarrow> (net, RecordCipher) io" where
  "writeEncryptedLoop rc hsMsg s =
     (if length hsMsg > 0 then
        let chunkSize = (if length hsMsg > MaxPlaintextLength then MaxPlaintextLength else length hsMsg)
        in case Seal RecordTypeHandshake (take chunkSize hsMsg) rc of
             (Inl e, _) \<Rightarrow> (Inl (ErrWrap ''seal handshake record'' e), s)
           | (Inr record, rc1) \<Rightarrow>
               (case writeFull record s of
                  (Inl e, s1) \<Rightarrow> (Inl (ErrWrap ''write record'' e), s1)
                | (Inr _, s1) \<Rightarrow> writeEncryptedLoop rc1 (drop chunkSize hsMsg) s1)
      else (Inr rc, s))"
  by pat_completeness auto
termination
  by (relation "measure (\<lambda>(rc, hsMsg, s). length hsMsg)") auto

declare writeEncryptedLoop.simps [simp del]

definition writeEncryptedHandshakeMsg :: "RecordCipher \<Rightarrow> byte \<Rightarrow> bytes \<Rightarrow> (net, RecordCipher) io" where
  "writeEncryptedHandshakeMsg cipher msgType body =
     writeEncryptedLoop cipher (encodeHandshakeMsg msgType body)"

section \<open>Reading\<close>

text \<open>The 24-bit length of a buffered handshake message, read from its bytes 1 to 3.\<close>

definition handshakeMsgLen :: "bytes \<Rightarrow> nat" where
  "handshakeMsgLen bs = push_bit 16 (unat (bs ! 1)) OR push_bit 8 (unat (bs ! 2)) OR unat (bs ! 3)"

text \<open>One plaintext record: header, checks and payload.\<close>

definition readPlaintextRecord :: "(net, bytes) io" where
  "readPlaintextRecord =
     bindIO (wrapIO ''read plaintext record header'' (readFull RecordHeaderLen)) (\<lambda>header.
       if header ! 0 \<noteq> RecordTypeHandshake
       then fail (ErrNew ''teetls: expected plaintext handshake record (22)'')
       else
         let payloadLen = unat (BigEndian_Uint16 (slice header 3 5))
         in if payloadLen \<le> 0 \<or> payloadLen > MaxPlaintextLength
            then fail (ErrNew ''teetls: invalid plaintext handshake record payload length'')
            else wrapIO ''read plaintext handshake payload'' (readFull payloadLen))"

lemma readPlaintextRecord_shrinks:
  "readPlaintextRecord s = (Inr p, s1) \<Longrightarrow> length (rx s1) < length (rx s)"
  by (auto simp: readPlaintextRecord_def io_success Let_def fail_def split: if_splits)

text \<open>
  The loop of \<^verbatim>\<open>readPlaintextHandshakeMsg\<close> over its variables \<^verbatim>\<open>assembled\<close>, \<^verbatim>\<open>msgType\<close> and
  \<^verbatim>\<open>expectedTotalLen\<close>.
\<close>

function readPlaintextLoop :: "bytes \<Rightarrow> byte \<Rightarrow> nat \<Rightarrow> (net, byte \<times> bytes \<times> bytes) io" where
  "readPlaintextLoop assembled0 msgType0 expected0 s =
     (case readPlaintextRecord s of
        (Inl e, s1) \<Rightarrow> (Inl e, s1)
      | (Inr recordPayload, s1) \<Rightarrow>
          if length assembled0 + length recordPayload > maxHandshakeBufferSize
          then (Inl (ErrNew ''teetls: plaintext handshake buffer size limit exceeded''), s1)
          else
            let assembled = assembled0 @ recordPayload;
                start = (expected0 = 0 \<and> length assembled \<ge> HandshakeHeaderLen);
                msgLen = handshakeMsgLen assembled;
                msgType = (if start then assembled ! 0 else msgType0);
                expected = (if start then HandshakeHeaderLen + msgLen else expected0)
            in if start \<and> msgLen > 2 ^ 24
               then (Inl (ErrNew ''teetls: invalid handshake message length''), s1)
               else if expected > 0 \<and> length assembled \<ge> expected then
                 if length assembled > expected
                 then (Inl (ErrNew ''teetls: excess data in plaintext handshake fragment''), s1)
                 else (Inr (msgType, slice assembled HandshakeHeaderLen expected, assembled), s1)
               else readPlaintextLoop assembled msgType expected s1)"
  by pat_completeness auto
termination
  by (relation "measure (\<lambda>(a, t, e, s). length (rx s))") (auto dest: readPlaintextRecord_shrinks[OF sym])

declare readPlaintextLoop.simps [simp del]

definition readPlaintextHandshakeMsg :: "(net, byte \<times> bytes \<times> bytes) io" where
  "readPlaintextHandshakeMsg = readPlaintextLoop [] 0 0"

record encryptedHandshakeReader =
  hr_cipher :: RecordCipher
  hr_buf :: bytes

definition newEncryptedHandshakeReader :: "RecordCipher \<Rightarrow> encryptedHandshakeReader" where
  "newEncryptedHandshakeReader cipher = \<lparr>hr_cipher = cipher, hr_buf = []\<rparr>"

text \<open>
  The two halves of an iteration of \<^verbatim>\<open>ReadMsg\<close>: take a message off the buffer if one is complete, and
  otherwise unseal one more record into the buffer.
\<close>

definition parseBuffered :: "bytes \<Rightarrow> (byte \<times> bytes \<times> bytes) option result" where
  "parseBuffered buf =
     (if length buf \<ge> HandshakeHeaderLen then
        let msgLen = handshakeMsgLen buf; totalLen = HandshakeHeaderLen + msgLen
        in if msgLen > 2 ^ 24 then Inl (ErrNew ''teetls: invalid handshake message length'')
           else if totalLen > maxHandshakeBufferSize
           then Inl (ErrNew ''teetls: handshake message exceeds buffer limit'')
           else if length buf \<ge> totalLen
           then Inr (Some (buf ! 0, slice buf HandshakeHeaderLen totalLen, drop totalLen buf))
           else Inr None
      else Inr None)"

definition readHandshakeRecord :: "encryptedHandshakeReader \<Rightarrow> (net, encryptedHandshakeReader) io" where
  "readHandshakeRecord hr =
     bindIO (wrapIO ''read record header'' (readFull RecordHeaderLen)) (\<lambda>header.
       if header ! 0 \<noteq> RecordTypeApplicationData then fail ErrInvalidRecordHeader
       else
         let payloadLen = unat (BigEndian_Uint16 (slice header 3 5))
         in if payloadLen \<le> 0 \<or> payloadLen > MaxCiphertextLength then fail ErrCiphertextTooLarge
            else
              bindIO (wrapIO ''read record payload'' (readFull payloadLen)) (\<lambda>payload.
                case Unseal (header @ payload) (hr_cipher hr) of
                  (Inl e, _) \<Rightarrow> fail (ErrWrap ''unseal record'' e)
                | (Inr (recType, plaintext), cipher) \<Rightarrow>
                    if recType \<noteq> RecordTypeHandshake
                    then fail (ErrNew ''teetls: expected handshake record type (22)'')
                    else if length (hr_buf hr) + length plaintext > maxHandshakeBufferSize
                    then fail (ErrNew ''teetls: handshake message buffer limit exceeded'')
                    else ret \<lparr>hr_cipher = cipher, hr_buf = hr_buf hr @ plaintext\<rparr>))"

lemma readHandshakeRecord_shrinks:
  "readHandshakeRecord hr s = (Inr hr1, s1) \<Longrightarrow> length (rx s1) < length (rx s)"
  by (auto simp: readHandshakeRecord_def io_success Let_def fail_def split: if_splits prod.splits sum.splits)

function ReadMsg :: "encryptedHandshakeReader \<Rightarrow> (net, byte \<times> bytes \<times> encryptedHandshakeReader) io" where
  "ReadMsg hr s =
     (case parseBuffered (hr_buf hr) of
        Inl e \<Rightarrow> (Inl e, s)
      | Inr (Some (msgType, body, rest)) \<Rightarrow> (Inr (msgType, body, hr\<lparr>hr_buf := rest\<rparr>), s)
      | Inr None \<Rightarrow>
          (case readHandshakeRecord hr s of
             (Inl e, s1) \<Rightarrow> (Inl e, s1)
           | (Inr hr1, s1) \<Rightarrow> ReadMsg hr1 s1))"
  by pat_completeness auto
termination
  by (relation "measure (\<lambda>(hr, s). length (rx s))") (auto dest: readHandshakeRecord_shrinks[OF sym])

declare ReadMsg.simps [simp del]

definition HasRemaining :: "encryptedHandshakeReader \<Rightarrow> bool" where
  "HasRemaining hr \<longleftrightarrow> length (hr_buf hr) > 0"

definition readEncryptedHandshakeMsg :: "RecordCipher \<Rightarrow> (net, byte \<times> bytes) io" where
  "readEncryptedHandshakeMsg cipher =
     bindIO (ReadMsg (newEncryptedHandshakeReader cipher)) (\<lambda>(msgType, body, _). ret (msgType, body))"

section \<open>SM2 keys\<close>

text \<open>
  \<^verbatim>\<open>None\<close> is the panic of a slice expression with a negative bound, for a coordinate too long for the
  buffer.
\<close>

definition encodePublicKeySM2 :: "sm2pub \<Rightarrow> bytes option" where
  "encodePublicKeySM2 pub =
     (let raw = 0x04 # replicate 64 0; xBytes = bigBytes (pk_X pub); yBytes = bigBytes (pk_Y pub)
      in if length xBytes > 1 + 32 \<or> length yBytes > 33 + 32 then None
         else Some (copy_at (copy_at raw (1 + 32 - length xBytes) xBytes) (33 + 32 - length yBytes) yBytes))"

definition decodePublicKeySM2 :: "gmsm \<Rightarrow> bytes \<Rightarrow> sm2pub result" where
  "decodePublicKeySM2 g raw =
     (if length raw \<noteq> SM2UncompressedPubKeyLen \<or> raw ! 0 \<noteq> 0x04
      then Inl (ErrNew ''teetls: invalid SM2 uncompressed public key format'')
      else
        let x = nat_of_be (slice raw 1 33); y = nat_of_be (slice raw 33 65)
        in if \<not> sm2_IsOnCurve g x y
           then Inl (ErrNew ''teetls: SM2 public key point not on curve'')
           else Inr \<lparr>pk_X = x, pk_Y = y\<rparr>)"

definition computeECDHESharedSecret :: "gmsm \<Rightarrow> sm2pub \<Rightarrow> sm2priv \<Rightarrow> bytes result" where
  "computeECDHESharedSecret g peerPub priv =
     (case sm2_ScalarMult g (pk_X peerPub) (pk_Y peerPub) (bigBytes (sk_D priv)) of
        None \<Rightarrow> Inl (ErrNew ''teetls: scalar mult produced nil point'')
      | Some sx \<Rightarrow>
          let sxBytes = bigBytes sx
          in if length sxBytes > 32 then Inl (Panic ''slice bounds out of range'')
             else Inr (copy_at (replicate 32 0) (32 - length sxBytes) sxBytes))"

definition extractSM2PublicKey :: "certPublicKey \<Rightarrow> sm2pub result" where
  "extractSM2PublicKey pubKey =
     (case pubKey of
        SM2Key p \<Rightarrow> Inr p
      | ECDSAKey x y \<Rightarrow> Inr \<lparr>pk_X = x, pk_Y = y\<rparr>
      | OtherKey \<Rightarrow> Inl (ErrNew ''teetls: peer certificate public key is not SM2/ECDSA''))"

section \<open>Key schedule\<close>

text \<open>\<^verbatim>\<open>io.ReadFull\<close> on the stream of an HKDF reader.\<close>

definition kdfRead :: "string \<Rightarrow> nat \<Rightarrow> (bytes, bytes) io" where
  "kdfRead label n st =
     (if n \<le> length st then (Inr (take n st), drop n st)
      else (Inl (ErrWrap label (ErrNew ''hkdf: entropy limit reached'')), st))"

definition deriveHandshakeTrafficKeys ::
    "gmsm \<Rightarrow> bytes \<Rightarrow> bytes \<Rightarrow> bytes \<Rightarrow> HandshakeTrafficKeys result" where
  "deriveHandshakeTrafficKeys g sharedSecret clientRandom serverRandom =
     (let salt = clientRandom @ serverRandom;
          info = stringBytes ''tls13-rfc8998-sm4-gcm-sm3-handshake'';
          kdf = hkdf_Stream g sharedSecret salt info
      in fst (bindIO (kdfRead ''derive client handshake write key'' 16) (\<lambda>ck.
              bindIO (kdfRead ''derive client handshake write iv'' 12) (\<lambda>civ.
              bindIO (kdfRead ''derive server handshake write key'' 16) (\<lambda>sk.
              bindIO (kdfRead ''derive server handshake write iv'' 12) (\<lambda>siv.
              bindIO (kdfRead ''derive server finished key'' 32) (\<lambda>sf.
              bindIO (kdfRead ''derive client finished key'' 32) (\<lambda>cf.
                ret \<lparr>hk_ClientWriteKey = ck, hk_ClientWriteIV = civ, hk_ServerWriteKey = sk,
                     hk_ServerWriteIV = siv, hk_ServerFinishedKey = sf,
                     hk_ClientFinishedKey = cf\<rparr>)))))) kdf))"

definition deriveApplicationTrafficKeys ::
    "gmsm \<Rightarrow> bytes \<Rightarrow> bytes \<Rightarrow> ApplicationTrafficKeys result" where
  "deriveApplicationTrafficKeys g sharedSecret transcriptHash =
     (let info = stringBytes ''tls13-rfc8998-sm4-gcm-sm3-application'';
          kdf = hkdf_Stream g sharedSecret transcriptHash info
      in fst (bindIO (kdfRead ''derive client app write key'' 16) (\<lambda>ck.
              bindIO (kdfRead ''derive client app write iv'' 12) (\<lambda>civ.
              bindIO (kdfRead ''derive server app write key'' 16) (\<lambda>sk.
              bindIO (kdfRead ''derive server app write iv'' 12) (\<lambda>siv.
                ret \<lparr>ak_ClientWriteKey = ck, ak_ClientWriteIV = civ, ak_ServerWriteKey = sk,
                     ak_ServerWriteIV = siv\<rparr>)))) kdf))"

definition computeHMACSM3 :: "gmsm \<Rightarrow> bytes \<Rightarrow> bytes \<Rightarrow> bytes" where
  "computeHMACSM3 g key data = hmacSum (sm3_Sum g) (sm3_BlockSize g) key data"

section \<open>Transcript\<close>

record handshakeTranscript =
  ts_buf :: bytes

definition emptyTranscript :: handshakeTranscript where
  "emptyTranscript = \<lparr>ts_buf = []\<rparr>"

definition transcriptWrite :: "handshakeTranscript \<Rightarrow> byte \<Rightarrow> bytes \<Rightarrow> handshakeTranscript" where
  "transcriptWrite t msgType body = t\<lparr>ts_buf := ts_buf t @ encodeHandshakeMsg msgType body\<rparr>"

definition transcriptBytes :: "handshakeTranscript \<Rightarrow> bytes" where
  "transcriptBytes t = ts_buf t"

definition transcriptHash :: "gmsm \<Rightarrow> handshakeTranscript \<Rightarrow> bytes" where
  "transcriptHash g t = sm3_Sum g (ts_buf t)"

section \<open>Message framing\<close>

lemma or_low_byte: "b < 256 \<Longrightarrow> push_bit 8 (a :: nat) OR b = a * 256 + b"
proof -
  assume "b < 256"
  then have b: "take_bit 8 b = b" by (simp add: take_bit_eq_mod)
  have "push_bit 8 a AND take_bit 8 b = 0" by (rule bit_eqI) (auto simp: bit_simps)
  then have "push_bit 8 a + b = push_bit 8 a OR b" unfolding b by (rule disjunctive_add_eq_or)
  then show ?thesis by (simp add: push_bit_eq_mult)
qed

lemma handshakeMsgLen_eq:
  "handshakeMsgLen bs = (unat (bs ! 1) * 256 + unat (bs ! 2)) * 256 + unat (bs ! 3)"
proof -
  have "handshakeMsgLen bs = push_bit 8 (push_bit 8 (unat (bs ! 1)) OR unat (bs ! 2)) OR unat (bs ! 3)"
    by (simp add: handshakeMsgLen_def push_bit_or or.assoc)
  then show ?thesis by (simp only: or_low_byte unat_byte_less)
qed

lemma handshakeMsgLen_bound: "handshakeMsgLen bs < 2 ^ 24"
  using unat_byte_less[of "bs ! 1"] unat_byte_less[of "bs ! 2"] unat_byte_less[of "bs ! 3"]
  by (simp add: handshakeMsgLen_eq)

lemma encodeHandshakeMsg_eq: "encodeHandshakeMsg t body = t # be_of_nat 3 (length body) @ body"
proof -
  have "(word_of_nat (take_bit 8 n) :: byte) = word_of_nat n" for n
    by (simp add: word_unat_eq_iff unat_of_nat take_bit_eq_mod)
  then show ?thesis
    by (simp add: encodeHandshakeMsg_def Let_def numeral_3_eq_3 drop_bit_eq_div div_mult2_eq[symmetric])
qed

lemma length_encodeHandshakeMsg [simp, bytes_simps]:
  "length (encodeHandshakeMsg t body) = 4 + length body"
  by (simp add: encodeHandshakeMsg_eq)

lemma handshakeMsgLen_encode:
  "length body < 2 ^ 24 \<Longrightarrow> handshakeMsgLen (encodeHandshakeMsg t body @ rest) = length body"
proof -
  assume small: "length body < 2 ^ 24"
  let ?n = "length body"
  have "handshakeMsgLen (encodeHandshakeMsg t body @ rest) = nat_of_be (be_of_nat 3 ?n)"
    by (simp add: handshakeMsgLen_eq encodeHandshakeMsg_eq numeral_3_eq_3 nat_of_be_def)
  then show ?thesis using small by (simp add: nat_of_be_of_nat)
qed

lemma encodeHandshakeMsg_type: "(encodeHandshakeMsg t body @ rest) ! 0 = t"
  by (simp add: encodeHandshakeMsg_eq)

lemma encodeHandshakeMsg_body:
  "slice (encodeHandshakeMsg t body @ rest) 4 (4 + length body) = body"
  by (simp add: encodeHandshakeMsg_eq slice_def)

lemma encodeHandshakeMsg_rest: "drop (4 + length body) (encodeHandshakeMsg t body @ rest) = rest"
  using length_encodeHandshakeMsg[of t body] by (metis append_eq_conv_conj)

text \<open>A complete message at the head of the buffer is taken off it; an incomplete one is left.\<close>

lemma parseBuffered_complete:
  "4 + length body \<le> maxHandshakeBufferSize \<Longrightarrow>
     parseBuffered (encodeHandshakeMsg t body @ rest) = Inr (Some (t, body, rest))"
  using encodeHandshakeMsg_type[of t body rest] encodeHandshakeMsg_body[of t body rest]
    encodeHandshakeMsg_rest[of body t rest]
  by (simp add: parseBuffered_def Let_def handshakeMsgLen_encode)

lemma handshakeMsgLen_prefix:
  "4 \<le> length buf \<Longrightarrow> handshakeMsgLen (buf @ ms) = handshakeMsgLen buf"
  by (simp add: handshakeMsgLen_eq nth_append)

lemma parseBuffered_incomplete:
  assumes "buf @ ms = encodeHandshakeMsg t body @ rest" "4 + length body \<le> maxHandshakeBufferSize"
    and "length buf < 4 + length body"
  shows "parseBuffered buf = Inr None"
proof (cases "4 \<le> length buf")
  case True
  then have "handshakeMsgLen buf = length body"
    using assms handshakeMsgLen_prefix[of buf ms] handshakeMsgLen_encode[of body t rest] by simp
  with assms show ?thesis by (simp add: parseBuffered_def Let_def)
next
  case False
  then show ?thesis by (simp add: parseBuffered_def)
qed

text \<open>The reader's buffer never grows beyond its limit.\<close>

lemma parseBuffered_shrinks:
  "parseBuffered buf = Inr (Some (t, body, rest)) \<Longrightarrow>
     length buf = 4 + length body + length rest \<and> buf = encodeHandshakeMsg t body @ rest"
proof -
  assume p: "parseBuffered buf = Inr (Some (t, body, rest))"
  let ?m = "handshakeMsgLen buf"
  have f: "4 \<le> length buf" "4 + ?m \<le> length buf" "t = buf ! 0" "body = slice buf 4 (4 + ?m)"
    "rest = drop (4 + ?m) buf"
    using p by (auto simp: parseBuffered_def Let_def split: if_splits)
  have len: "length body = ?m" using f by simp
  obtain a b c d xs where buf: "buf = a # b # c # d # xs"
    using f(1) by (auto simp: numeral_eq_Suc Suc_le_length_iff)
  have "be_of_nat 3 ?m = [b, c, d]"
    using be_of_nat_of_be[of "[b, c, d]"]
    by (simp del: be_of_nat.simps add: buf handshakeMsgLen_eq nat_of_be_def numeral_3_eq_3)
  moreover have "rest = drop ?m xs" using f(5) by (simp add: buf numeral_eq_Suc)
  ultimately show ?thesis using f len by (simp add: buf encodeHandshakeMsg_eq slice_def)
qed

section \<open>Writing whole messages\<close>

lemma writeFull_ok [simp]: "wr s = [] \<Longrightarrow> writeFull p s = (Inr (), s\<lparr>tx := tx s @ p\<rparr>)"
  by (simp add: writeFull_def connWrite_def)

lemma writeFull_Inr:
  "writeFull p s = (Inr u, s') \<Longrightarrow> tx s' = tx s @ p \<and> rx s' = rx s \<and> rx_end s' = rx_end s"
  by (auto simp: writeFull_def connWrite_def split: list.splits prod.splits option.splits if_splits)

section \<open>Streams of records\<close>

text \<open>
  What a sender puts on the wire for a list of content types, payloads and padding lengths, starting
  at the cipher's sequence number.
\<close>

definition advance :: "RecordCipher \<Rightarrow> RecordCipher" where
  "advance rc = rc\<lparr>rc_seq := rc_seq rc + 1\<rparr>"

fun sealStream :: "RecordCipher \<Rightarrow> (RecordType \<times> bytes \<times> nat) list \<Rightarrow> bytes" where
  "sealStream rc [] = []"
| "sealStream rc ((t, p, k) # rs) = sealedRecord rc t p k @ sealStream (advance rc) rs"

fun streamOk :: "RecordCipher \<Rightarrow> (RecordType \<times> bytes \<times> nat) list \<Rightarrow> bool" where
  "streamOk rc [] = True"
| "streamOk rc ((t, p, k) # rs) = (sealable rc p k \<and> streamOk (advance rc) rs)"

definition payloads :: "(RecordType \<times> bytes \<times> nat) list \<Rightarrow> bytes" where
  "payloads rs = concat (map (\<lambda>(t, p, k). p) rs)"

lemma payloads_simps [simp]:
  "payloads [] = []" "payloads ((t, p, k) # rs) = p @ payloads rs" "payloads (rs @ rs') = payloads rs @ payloads rs'"
  by (simp_all add: payloads_def)

lemma advance_inv [simp]: "rcInv (advance rc) = rcInv rc"
  by (simp add: advance_def)

lemma streamOk_append:
  "streamOk rc (rs @ rs') = (streamOk rc rs \<and> streamOk ((advance ^^ length rs) rc) rs')"
  by (induction rc rs rule: streamOk.induct) (auto simp: funpow_swap1)

lemma sealStream_append:
  "sealStream rc (rs @ rs') = sealStream rc rs @ sealStream ((advance ^^ length rs) rc) rs'"
  by (induction rc rs rule: sealStream.induct) (auto simp: funpow_swap1)

lemma advance_pow_inv [simp]: "rcInv ((advance ^^ n) rc) = rcInv rc"
  by (induction n) auto

text \<open>A record at the head of the connection is fetched by a header read and a payload read.\<close>

lemma sealedRecord_on_wire:
  assumes inv: "rcInv rc" and ok: "sealable rc p k" and rx: "rx s = sealedRecord rc t p k @ rest"
  obtains header payload where
    "readFull 5 s = (Inr header, s\<lparr>rx := payload @ rest\<rparr>)"
    "header @ payload = sealedRecord rc t p k" "header ! 0 = RecordTypeApplicationData"
    "unat (BigEndian_Uint16 (slice header 3 5)) = length payload"
    "0 < length payload" "length payload \<le> 16640" "length header = 5"
    "readFull (length payload) (s\<lparr>rx := payload @ rest\<rparr>) = (Inr payload, s\<lparr>rx := rest\<rparr>)"
proof
  let ?rec = "sealedRecord rc t p k"
  let ?h = "take 5 ?rec" and ?p = "drop 5 ?rec"
  have len: "length ?rec = 5 + (length p + 1 + k + 16)" by (rule length_sealedRecord[OF inv])
  show "readFull 5 s = (Inr ?h, s\<lparr>rx := ?p @ rest\<rparr>)" using rx len by (simp add: readFull_def)
  show "?h @ ?p = ?rec" by simp
  show "?h ! 0 = RecordTypeApplicationData"
    using recordHeader_fields(1) by (simp add: sealedRecord_def Let_def nth_append)
  have "slice ?h 3 5 = slice (?rec @ []) 3 5" using len by (simp add: slice_def drop_take)
  then show "unat (BigEndian_Uint16 (slice ?h 3 5)) = length ?p"
    using sealedRecord_declared[OF ok, of t "[]"] len by simp
  show "0 < length ?p" "length ?p \<le> 16640" "length ?h = 5"
    using len ok by (auto simp: sealable_def)
  show "readFull (length ?p) (s\<lparr>rx := ?p @ rest\<rparr>) = (Inr ?p, s\<lparr>rx := rest\<rparr>)"
    by (simp add: readFull_def)
qed

section \<open>Reading sealed messages\<close>

lemma readHandshakeRecord_sealed:
  assumes inv: "rcInv (hr_cipher hr)" and ok: "sealable (hr_cipher hr) p k"
    and rx: "rx s = sealedRecord (hr_cipher hr) RecordTypeHandshake p k @ rest"
    and room: "length (hr_buf hr) + length p \<le> maxHandshakeBufferSize"
  shows "readHandshakeRecord hr s =
    (Inr \<lparr>hr_cipher = advance (hr_cipher hr), hr_buf = hr_buf hr @ p\<rparr>, s\<lparr>rx := rest\<rparr>)"
proof -
  from sealedRecord_on_wire[OF inv ok rx] obtain header payload where w:
    "readFull 5 s = (Inr header, s\<lparr>rx := payload @ rest\<rparr>)"
    "header @ payload = sealedRecord (hr_cipher hr) RecordTypeHandshake p k"
    "header ! 0 = RecordTypeApplicationData"
    "unat (BigEndian_Uint16 (slice header 3 5)) = length payload"
    "0 < length payload" "length payload \<le> 16640"
    "readFull (length payload) (s\<lparr>rx := payload @ rest\<rparr>) = (Inr payload, s\<lparr>rx := rest\<rparr>)" by metis
  have un: "Unseal (header @ payload) (hr_cipher hr) = (Inr (RecordTypeHandshake, p), advance (hr_cipher hr))"
    using Unseal_sealedRecord[OF inv _ ok, of RecordTypeHandshake] w(2) by (simp add: advance_def)
  show ?thesis
    using w un room
    by (simp add: readHandshakeRecord_def bindIO_step wrapIO_step Let_def del: append_assoc)
qed

text \<open>
  The reader is in step with the peer's stream: \<open>ms\<close> is the handshake data still to be parsed, some of
  it in the buffer and the rest in sealed records at the head of the connection, which are followed
  by \<open>rest\<close>. Neither message boundaries nor record boundaries constrain each other.
\<close>

definition hsPending :: "encryptedHandshakeReader \<Rightarrow> net \<Rightarrow> bytes \<Rightarrow> bytes \<Rightarrow> bool" where
  "hsPending hr s ms rest \<longleftrightarrow> rcInv (hr_cipher hr) \<and>
     (\<exists>rs. streamOk (hr_cipher hr) rs \<and> (\<forall>(t, p, k) \<in> set rs. t = RecordTypeHandshake \<and> p \<noteq> []) \<and>
        rx s = sealStream (hr_cipher hr) rs @ rest \<and> hr_buf hr @ payloads rs = ms)"

text \<open>
  Room for a message: the record that completes it may carry up to 16383 further bytes into the
  buffer, unless no more than the limit is pending at all.
\<close>

definition fitsBuffer :: "bytes \<Rightarrow> bytes \<Rightarrow> bool" where
  "fitsBuffer body ms \<longleftrightarrow> 4 + length body \<le> maxHandshakeBufferSize \<and>
     (length ms \<le> maxHandshakeBufferSize \<or> 4 + length body + 16383 \<le> maxHandshakeBufferSize)"

lemma hsPending_step:
  assumes pend: "hsPending hr s ms rest" and len: "length (hr_buf hr) < length ms"
  obtains p k rest1 where "p \<noteq> []" "sealable (hr_cipher hr) p k"
    "rx s = sealedRecord (hr_cipher hr) RecordTypeHandshake p k @ rest1"
    "length (hr_buf hr) + length p \<le> length ms"
    "hsPending \<lparr>hr_cipher = advance (hr_cipher hr), hr_buf = hr_buf hr @ p\<rparr> (s\<lparr>rx := rest1\<rparr>) ms rest"
proof -
  obtain rs where rs: "rcInv (hr_cipher hr)" "streamOk (hr_cipher hr) rs"
    "\<forall>(t, p, k) \<in> set rs. t = RecordTypeHandshake \<and> p \<noteq> []"
    "rx s = sealStream (hr_cipher hr) rs @ rest" "hr_buf hr @ payloads rs = ms"
    using pend by (auto simp: hsPending_def)
  then have "rs \<noteq> []" using len by auto
  then obtain t p k rs1 where cons: "rs = (t, p, k) # rs1" by (cases rs) auto
  show thesis
  proof (rule that[of p k "sealStream (advance (hr_cipher hr)) rs1 @ rest"])
    show "hsPending \<lparr>hr_cipher = advance (hr_cipher hr), hr_buf = hr_buf hr @ p\<rparr>
        (s\<lparr>rx := sealStream (advance (hr_cipher hr)) rs1 @ rest\<rparr>) ms rest"
      using rs cons by (auto simp: hsPending_def intro!: exI[of _ rs1])
  qed (use rs cons in auto)
qed

lemma ReadMsg_pending:
  assumes "hsPending hr s (encodeHandshakeMsg t body @ ms) rest"
    and "fitsBuffer body (encodeHandshakeMsg t body @ ms)"
  shows "\<exists>hr' r'. ReadMsg hr s = (Inr (t, body, hr'), s\<lparr>rx := r'\<rparr>) \<and> hsPending hr' (s\<lparr>rx := r'\<rparr>) ms rest"
  using assms
proof (induction "length (rx s)" arbitrary: hr s rule: less_induct)
  case less
  let ?ms = "encodeHandshakeMsg t body @ ms"
  obtain rs where rs: "rcInv (hr_cipher hr)" "hr_buf hr @ payloads rs = ?ms"
    "streamOk (hr_cipher hr) rs" "\<forall>(t, p, k) \<in> set rs. t = RecordTypeHandshake \<and> p \<noteq> []"
    "rx s = sealStream (hr_cipher hr) rs @ rest"
    using less.prems(1) by (auto simp: hsPending_def)
  have small: "4 + length body \<le> maxHandshakeBufferSize" using less.prems(2) by (simp add: fitsBuffer_def)
  show ?case
  proof (cases "length (hr_buf hr) < 4 + length body")
    case True
    then have none: "parseBuffered (hr_buf hr) = Inr None"
      using parseBuffered_incomplete[OF rs(2) small] by simp
    obtain p k rest1 where step: "p \<noteq> []" "sealable (hr_cipher hr) p k"
      "rx s = sealedRecord (hr_cipher hr) RecordTypeHandshake p k @ rest1"
      "length (hr_buf hr) + length p \<le> length ?ms"
      "hsPending \<lparr>hr_cipher = advance (hr_cipher hr), hr_buf = hr_buf hr @ p\<rparr> (s\<lparr>rx := rest1\<rparr>) ?ms rest"
      using hsPending_step[OF less.prems(1)] True by auto
    let ?hr1 = "\<lparr>hr_cipher = advance (hr_cipher hr), hr_buf = hr_buf hr @ p\<rparr>" and ?s1 = "s\<lparr>rx := rest1\<rparr>"
    have room: "length (hr_buf hr) + length p \<le> maxHandshakeBufferSize"
      using less.prems(2) step(2,4) True by (auto simp: fitsBuffer_def sealable_def)
    have rd: "readHandshakeRecord hr s = (Inr ?hr1, ?s1)"
      by (rule readHandshakeRecord_sealed[OF rs(1) step(2,3) room])
    have "ReadMsg hr s = ReadMsg ?hr1 ?s1" by (subst ReadMsg.simps) (simp add: none rd)
    moreover have "length (rx ?s1) < length (rx s)" using readHandshakeRecord_shrinks[OF rd] .
    ultimately show ?thesis using less.hyps[of ?s1 ?hr1] step(5) less.prems(2) by simp
  next
    case False
    then obtain ms1 where buf: "hr_buf hr = encodeHandshakeMsg t body @ ms1"
      using rs(2) by (metis append_eq_append_conv_if append_take_drop_id length_encodeHandshakeMsg not_less)
    have "ReadMsg hr s = (Inr (t, body, hr\<lparr>hr_buf := ms1\<rparr>), s\<lparr>rx := rx s\<rparr>)"
      by (subst ReadMsg.simps) (simp add: buf parseBuffered_complete[OF small])
    moreover have "hsPending (hr\<lparr>hr_buf := ms1\<rparr>) (s\<lparr>rx := rx s\<rparr>) ms rest"
      using rs buf by (auto simp: hsPending_def intro!: exI[of _ rs])
    ultimately show ?thesis by blast
  qed
qed

lemma hsPending_done: "hsPending hr s [] rest \<Longrightarrow> \<not> HasRemaining hr \<and> rx s = rest"
proof -
  assume "hsPending hr s [] rest"
  then obtain rs where rs: "hr_buf hr = []" "payloads rs = []" "rx s = sealStream (hr_cipher hr) rs @ rest"
    "\<forall>(t, p, k) \<in> set rs. t = RecordTypeHandshake \<and> p \<noteq> []"
    by (auto simp: hsPending_def)
  then have "rs = []" by (cases rs) auto
  with rs show ?thesis by (simp add: HasRemaining_def)
qed

section \<open>Writing sealed messages\<close>

text \<open>The maximal chunks \<^verbatim>\<open>writeEncryptedHandshakeMsg\<close> and \<^verbatim>\<open>Conn.Write\<close> cut their data into.\<close>

function maxChunks :: "bytes \<Rightarrow> bytes list" where
  "maxChunks bs = (if bs = [] then [] else take 16384 bs # maxChunks (drop 16384 bs))"
  by pat_completeness auto
termination
  by (relation "measure length") auto

declare maxChunks.simps [simp del]

definition chunkRecords :: "RecordType \<Rightarrow> bytes \<Rightarrow> (RecordType \<times> bytes \<times> nat) list" where
  "chunkRecords t bs = map (\<lambda>c. (t, c, 0)) (maxChunks bs)"

lemma chunkRecords_Nil [simp]: "chunkRecords t [] = []"
  by (simp add: chunkRecords_def maxChunks.simps)

lemma chunkRecords_step:
  "bs \<noteq> [] \<Longrightarrow> chunkRecords t bs = (t, take 16384 bs, 0) # chunkRecords t (drop 16384 bs)"
  by (subst (1) chunkRecords_def, subst maxChunks.simps) (simp add: chunkRecords_def)

lemma payloads_chunkRecords [simp]: "payloads (chunkRecords t bs) = bs"
proof (induction bs rule: maxChunks.induct)
  case (1 bs)
  then show ?case by (cases "bs = []") (simp_all add: chunkRecords_step)
qed

lemma chunkRecords_wf: "(t', p, k) \<in> set (chunkRecords t bs) \<Longrightarrow> t' = t \<and> p \<noteq> [] \<and> length p \<le> 16384 \<and> k = 0"
proof (induction bs rule: maxChunks.induct)
  case (1 bs)
  then show ?case by (cases "bs = []") (auto simp: chunkRecords_step)
qed

lemma length_chunkRecords: "length (chunkRecords t bs) \<le> length bs"
proof (induction bs rule: maxChunks.induct)
  case (1 bs)
  then show ?case by (cases bs) (auto simp: chunkRecords_step)
qed

lemma word64_not_max: "unat (x :: 64 word) < 2 ^ 64 - 1 \<Longrightarrow> x \<noteq> NOT 0 \<and> unat (x + 1) = unat x + 1"
proof -
  assume small: "unat x < 2 ^ 64 - 1"
  have "unat (NOT 0 :: 64 word) = 2 ^ 64 - 1" by (simp add: unsigned_minus_1_eq_mask mask_eq_exp_minus_1)
  with small have "x \<noteq> NOT 0" by auto
  then have "1 + x \<noteq> 0" by (auto simp: add_eq_0_iff)
  then have "unat (1 + x) = Suc (unat x)" by (rule unatSuc)
  with \<open>x \<noteq> NOT 0\<close> show ?thesis by (simp add: add.commute)
qed

text \<open>A stream of short records is sealable as long as the sequence number does not run out.\<close>

lemma streamOk_short:
  "unat (rc_seq rc) + length rs \<le> 2 ^ 64 - 1 \<Longrightarrow>
     (\<And>t p k. (t, p, k) \<in> set rs \<Longrightarrow> length p \<le> 16384 \<and> k = 0) \<Longrightarrow> streamOk rc rs"
proof (induction rc rs rule: streamOk.induct)
  case (1 rc)
  show ?case by simp
next
  case (2 rc t p k rs)
  have seq: "rc_seq rc \<noteq> NOT 0" "unat (rc_seq rc + 1) = unat (rc_seq rc) + 1"
    using word64_not_max[of "rc_seq rc"] "2.prems"(1) by auto
  have "streamOk (advance rc) rs"
    using "2.prems" seq by (intro "2.IH") (auto simp: advance_def)
  with seq "2.prems"(2)[of t p k] show ?case by (simp add: sealable_def)
qed

lemma writeEncryptedLoop_step:
  "bs \<noteq> [] \<Longrightarrow> writeEncryptedLoop rc bs s =
     (case Seal RecordTypeHandshake (take 16384 bs) rc of
        (Inl e, _) \<Rightarrow> (Inl (ErrWrap ''seal handshake record'' e), s)
      | (Inr record, rc1) \<Rightarrow>
          (case writeFull record s of
             (Inl e, s1) \<Rightarrow> (Inl (ErrWrap ''write record'' e), s1)
           | (Inr _, s1) \<Rightarrow> writeEncryptedLoop rc1 (drop 16384 bs) s1))"
proof -
  assume "bs \<noteq> []"
  moreover have "take (if length bs > 16384 then 16384 else length bs) bs = take 16384 bs"
    "drop (if length bs > 16384 then 16384 else length bs) bs = drop 16384 bs" by auto
  ultimately show ?thesis
    by (subst writeEncryptedLoop.simps) (simp only: MaxPlaintextLength_def Let_def length_greater_0_conv not_False_eq_True if_True)
qed

lemma writeEncryptedLoop_done [simp]: "writeEncryptedLoop rc [] s = (Inr rc, s)"
  by (simp add: writeEncryptedLoop.simps)

lemma writeEncryptedLoop_total:
  "wr s = [] \<Longrightarrow> streamOk rc (chunkRecords RecordTypeHandshake bs) \<Longrightarrow>
     writeEncryptedLoop rc bs s =
       (Inr ((advance ^^ length (chunkRecords RecordTypeHandshake bs)) rc),
        s\<lparr>tx := tx s @ sealStream rc (chunkRecords RecordTypeHandshake bs)\<rparr>)"
proof (induction bs arbitrary: rc s rule: maxChunks.induct)
  case (1 bs)
  show ?case
  proof (cases "bs = []")
    case False
    then have rs: "chunkRecords RecordTypeHandshake bs =
        (RecordTypeHandshake, take 16384 bs, 0) # chunkRecords RecordTypeHandshake (drop 16384 bs)"
      by (rule chunkRecords_step)
    let ?rec = "sealedRecord rc RecordTypeHandshake (take 16384 bs) 0" and ?s1 = "\<lambda>r. s\<lparr>tx := tx s @ r\<rparr>"
    have ok: "sealable rc (take 16384 bs) 0"
        "streamOk (advance rc) (chunkRecords RecordTypeHandshake (drop 16384 bs))"
      using "1.prems"(2) unfolding rs by simp_all
    have sl: "Seal RecordTypeHandshake (take 16384 bs) rc = (Inr ?rec, advance rc)"
      using ok(1) by (simp add: Seal_Inr advance_def)
    have "writeEncryptedLoop rc bs s = writeEncryptedLoop (advance rc) (drop 16384 bs) (?s1 ?rec)"
      using "1.prems"(1) unfolding writeEncryptedLoop_step[OF False] sl by simp
    also have "\<dots> = (Inr ((advance ^^ length (chunkRecords RecordTypeHandshake (drop 16384 bs))) (advance rc)),
        s\<lparr>tx := tx s @ ?rec @ sealStream (advance rc) (chunkRecords RecordTypeHandshake (drop 16384 bs))\<rparr>)"
      using "1.IH"[OF False, of "?s1 ?rec" "advance rc"] "1.prems"(1) ok(2) by simp
    finally show ?thesis unfolding rs by (simp add: funpow_swap1)
  qed simp
qed

definition msgRecords :: "byte \<Rightarrow> bytes \<Rightarrow> (RecordType \<times> bytes \<times> nat) list" where
  "msgRecords t body = chunkRecords RecordTypeHandshake (encodeHandshakeMsg t body)"

lemma payloads_msgRecords [simp]: "payloads (msgRecords t body) = encodeHandshakeMsg t body"
  by (simp add: msgRecords_def)

lemma msgRecords_wf: "(t', p, k) \<in> set (msgRecords t body) \<Longrightarrow> t' = RecordTypeHandshake \<and> p \<noteq> [] \<and> length p \<le> 16384 \<and> k = 0"
  unfolding msgRecords_def by (rule chunkRecords_wf)

lemma length_msgRecords: "length (msgRecords t body) \<le> 4 + length body"
  using length_chunkRecords[of RecordTypeHandshake "encodeHandshakeMsg t body"] by (simp add: msgRecords_def)

lemma writeEncryptedHandshakeMsg_total:
  assumes "wr s = []" "unat (rc_seq rc) + 4 + length body \<le> 2 ^ 64 - 1"
  shows "writeEncryptedHandshakeMsg rc t body s =
      (Inr ((advance ^^ length (msgRecords t body)) rc), s\<lparr>tx := tx s @ sealStream rc (msgRecords t body)\<rparr>)
    \<and> streamOk rc (msgRecords t body)"
proof -
  have "streamOk rc (msgRecords t body)"
    using assms(2) length_msgRecords[of t body] msgRecords_wf
    by (intro streamOk_short) (simp, blast)
  then show ?thesis
    using writeEncryptedLoop_total[OF assms(1)]
    unfolding msgRecords_def writeEncryptedHandshakeMsg_def by blast
qed

text \<open>The sequence number counts records.\<close>

lemma advance_pow_seq: "(advance ^^ n) rc = rc\<lparr>rc_seq := rc_seq rc + of_nat n\<rparr>"
  by (induction n) (simp_all add: advance_def add_ac)

section \<open>Plaintext messages\<close>

definition plainRecord :: "byte \<times> byte \<Rightarrow> bytes \<Rightarrow> bytes" where
  "plainRecord ver p = [RecordTypeHandshake, fst ver, snd ver] @ BigEndian_PutUint16 (word_of_nat (length p)) @ p"

lemma readPlaintextRecord_plain:
  assumes "rx s = plainRecord ver p @ rest" "p \<noteq> []" "length p \<le> 16384"
  shows "readPlaintextRecord s = (Inr p, s\<lparr>rx := rest\<rparr>)"
proof -
  let ?h = "[RecordTypeHandshake, fst ver, snd ver] @ BigEndian_PutUint16 (word_of_nat (length p))"
  have h: "readFull 5 s = (Inr ?h, s\<lparr>rx := p @ rest\<rparr>)"
    using readFull_exact[of s ?h "p @ rest"] assms(1) by (simp add: plainRecord_def)
  have len: "unat (BigEndian_Uint16 (slice ?h 3 5)) = length p"
    using assms(3) by (simp add: slice_def unat_of_nat)
  have "readFull (length p) (s\<lparr>rx := p @ rest\<rparr>) = (Inr p, s\<lparr>rx := rest\<rparr>)"
    by (simp add: readFull_def)
  with h len assms(2,3) show ?thesis
    by (simp add: readPlaintextRecord_def bindIO_step wrapIO_step Let_def)
qed

lemma plainRecord_writes:
  assumes "wr s = []" "4 + length body \<le> 16384"
  shows "writePlaintextHandshakeMsg t body s =
    (Inr (encodeHandshakeMsg t body), s\<lparr>tx := tx s @ plainRecord (3, 3) (encodeHandshakeMsg t body)\<rparr>)"
  using assms by (simp add: writePlaintextHandshakeMsg_def Let_def plainRecord_def bindIO_step wrapIO_step)

lemma message_header:
  assumes "a @ r = encodeHandshakeMsg t body" "4 \<le> length a" "4 + length body \<le> maxHandshakeBufferSize"
  shows "handshakeMsgLen a = length body \<and> a ! 0 = t"
proof
  show "handshakeMsgLen a = length body"
    using handshakeMsgLen_prefix[OF assms(2), of r] handshakeMsgLen_encode[of body t "[]"] assms(1,3) by simp
  have "a ! 0 = (a @ r) ! 0" using assms(2) by (subst nth_append) auto
  then show "a ! 0 = t" using encodeHandshakeMsg_type[of t body "[]"] assms(1) by simp
qed

lemma readPlaintextLoop_fragments:
  assumes "rx s = concat (map (\<lambda>(ver, p). plainRecord ver p) ps) @ rest"
    and "\<forall>(ver, p) \<in> set ps. p \<noteq> [] \<and> length p \<le> 16384"
    and "a @ concat (map snd ps) = encodeHandshakeMsg t body" "length a < 4 + length body"
    and "4 + length body \<le> maxHandshakeBufferSize"
    and "ex = (if length a < 4 then 0 else 4 + length body)" "4 \<le> length a \<Longrightarrow> mt = t"
  shows "readPlaintextLoop a mt ex s = (Inr (t, body, encodeHandshakeMsg t body), s\<lparr>rx := rest\<rparr>)"
  using assms
proof (induction ps arbitrary: s a mt ex)
  case Nil
  then have "length a = 4 + length body" by simp
  with Nil show ?case by simp
next
  case (Cons vp ps)
  obtain ver p where vp: "vp = (ver, p)" by (cases vp)
  let ?s1 = "s\<lparr>rx := concat (map (\<lambda>(ver, p). plainRecord ver p) ps) @ rest\<rparr>" and ?a = "a @ p"
  have rd: "readPlaintextRecord s = (Inr p, ?s1)"
    using Cons.prems(1,2) by (intro readPlaintextRecord_plain) (auto simp: vp)
  have whole: "?a @ concat (map snd ps) = encodeHandshakeMsg t body" using Cons.prems(3) vp by simp
  have le: "length ?a \<le> 4 + length body"
    using arg_cong[OF whole, of length] by simp
  have big: "length a + length p \<le> maxHandshakeBufferSize" using le Cons.prems(5) by simp
  note hd = message_header[OF whole _ Cons.prems(5)]
  show ?case
  proof (cases "length ?a = 4 + length body")
    case True
    then have "length ?a = length (encodeHandshakeMsg t body)" by simp
    then have all: "?a = encodeHandshakeMsg t body" using whole by (metis append_eq_append_conv append_Nil2)
    have body: "slice ?a 4 (4 + length body) = body"
      using encodeHandshakeMsg_body[of t body "[]"] all by simp
    have last: "ps = []" using whole all Cons.prems(2) by (cases ps) auto
    show ?thesis
      using Cons.prems(4-7) True big hd rd body all last
      by (subst readPlaintextLoop.simps) (auto simp: Let_def)
  next
    case False
    with le have less: "length ?a < 4 + length body" by simp
    let ?mt = "if ex = 0 \<and> length ?a \<ge> 4 then ?a ! 0 else mt"
      and ?ex = "if ex = 0 \<and> length ?a \<ge> 4 then 4 + handshakeMsgLen ?a else ex"
    have "readPlaintextLoop a mt ex s = readPlaintextLoop ?a ?mt ?ex ?s1"
      using Cons.prems(5,6) less big hd rd
      by (subst readPlaintextLoop.simps) (auto simp: Let_def)
    also have "\<dots> = (Inr (t, body, encodeHandshakeMsg t body), ?s1\<lparr>rx := rest\<rparr>)"
      using Cons.prems less hd whole by (intro Cons.IH) (auto simp: vp)
    finally show ?thesis by simp
  qed
qed

section \<open>What a returned message says about the wire\<close>

lemma readHandshakeRecord_Inr:
  assumes inv: "rcInv (hr_cipher hr)" and rd: "readHandshakeRecord hr s = (Inr hr1, s1)"
  obtains p k where "sealable (hr_cipher hr) p k"
    "rx s = sealedRecord (hr_cipher hr) RecordTypeHandshake p k @ rx s1" "s1 = s\<lparr>rx := rx s1\<rparr>"
    "hr1 = \<lparr>hr_cipher = advance (hr_cipher hr), hr_buf = hr_buf hr @ p\<rparr>"
    "length (hr_buf hr1) \<le> maxHandshakeBufferSize"
proof -
  let ?n = "unat (BigEndian_Uint16 (slice (take 5 (rx s)) 3 5))"
  let ?rec = "take 5 (rx s) @ take ?n (drop 5 (rx s))"
  obtain p where un: "Unseal ?rec (hr_cipher hr) = (Inr (RecordTypeHandshake, p), hr_cipher hr1)"
    and hr1: "hr_buf hr1 = hr_buf hr @ p" "length (hr_buf hr) + length p \<le> maxHandshakeBufferSize"
    and s1: "s1 = s\<lparr>rx := drop ?n (drop 5 (rx s))\<rparr>"
    using rd by (auto simp: readHandshakeRecord_def io_success Let_def split: if_splits prod.splits sum.splits)
  obtain k where k: "sealable (hr_cipher hr) p k" "?rec = sealedRecord (hr_cipher hr) RecordTypeHandshake p k"
    "hr_cipher hr1 = advance (hr_cipher hr)"
    using Unseal_decrypts[OF inv un] by (auto simp: advance_def)
  have rx1: "rx s1 = drop ?n (drop 5 (rx s))" by (simp add: s1)
  have "rx s = ?rec @ rx s1" unfolding rx1 by (metis append_take_drop_id append_assoc)
  then have "rx s = sealedRecord (hr_cipher hr) RecordTypeHandshake p k @ rx s1"
    unfolding k(2) .
  moreover have "s1 = s\<lparr>rx := rx s1\<rparr>" by (simp add: s1)
  moreover have "hr1 = \<lparr>hr_cipher = advance (hr_cipher hr), hr_buf = hr_buf hr @ p\<rparr>"
    using k(3) hr1(1) by (cases hr1) simp
  moreover have "length (hr_buf hr1) \<le> maxHandshakeBufferSize" using hr1 by simp
  ultimately show thesis using k(1) by (intro that)
qed

text \<open>
  What \<^verbatim>\<open>ReadMsg\<close> returns was sealed by the holder of the peer's key: the consumed bytes are records at
  the cipher's consecutive sequence numbers, all of the handshake type, and their payloads
  continue the buffer with the message.
\<close>

lemma ReadMsg_sound:
  assumes "rcInv (hr_cipher hr)" "length (hr_buf hr) \<le> maxHandshakeBufferSize"
    and "ReadMsg hr s = (Inr (t, body, hr'), s')"
  shows "\<exists>rs. streamOk (hr_cipher hr) rs \<and> (\<forall>r \<in> set rs. fst r = RecordTypeHandshake) \<and>
    rx s = sealStream (hr_cipher hr) rs @ rx s' \<and> s' = s\<lparr>rx := rx s'\<rparr> \<and>
    hr_buf hr @ payloads rs = encodeHandshakeMsg t body @ hr_buf hr' \<and>
    hr_cipher hr' = (advance ^^ length rs) (hr_cipher hr) \<and>
    length (encodeHandshakeMsg t body @ hr_buf hr') \<le> maxHandshakeBufferSize"
  using assms
proof (induction hr s rule: ReadMsg.induct)
  case (1 hr s)
  show ?case
  proof (cases "parseBuffered (hr_buf hr)")
    case (Inl e)
    with "1.prems" show ?thesis by (simp add: ReadMsg.simps)
  next
    case (Inr r)
    show ?thesis
    proof (cases r)
      case None
      with Inr have pn: "parseBuffered (hr_buf hr) = Inr None" by simp
      obtain hr1 s1 where rd: "readHandshakeRecord hr s = (Inr hr1, s1)"
        and rec: "ReadMsg hr1 s1 = (Inr (t, body, hr'), s')"
        using "1.prems"(3) pn by (subst (asm) ReadMsg.simps) (auto split: prod.splits sum.splits)
      from readHandshakeRecord_Inr[OF "1.prems"(1) rd] obtain p k where r: "sealable (hr_cipher hr) p k"
        "rx s = sealedRecord (hr_cipher hr) RecordTypeHandshake p k @ rx s1" "s1 = s\<lparr>rx := rx s1\<rparr>"
        "hr1 = \<lparr>hr_cipher = advance (hr_cipher hr), hr_buf = hr_buf hr @ p\<rparr>"
        "length (hr_buf hr1) \<le> maxHandshakeBufferSize" .
      have "rcInv (hr_cipher hr1)" using r(4) "1.prems"(1) by simp
      from "1.IH"[OF pn refl rd[symmetric] refl this r(5) rec] obtain rs where rs:
        "streamOk (hr_cipher hr1) rs" "\<forall>r \<in> set rs. fst r = RecordTypeHandshake"
        "rx s1 = sealStream (hr_cipher hr1) rs @ rx s'" "s' = s1\<lparr>rx := rx s'\<rparr>"
        "hr_buf hr1 @ payloads rs = encodeHandshakeMsg t body @ hr_buf hr'"
        "hr_cipher hr' = (advance ^^ length rs) (hr_cipher hr1)"
        "length (encodeHandshakeMsg t body @ hr_buf hr') \<le> maxHandshakeBufferSize" by blast
      have "s' = s\<lparr>rx := rx s'\<rparr>" using rs(4) r(3) by (metis net.surjective net.update_convs(1))
      with r rs show ?thesis
        by (intro exI[of _ "(RecordTypeHandshake, p, k) # rs"]) (simp add: funpow_swap1)
    next
      case (Some m)
      obtain t1 b1 rest where m: "m = (t1, b1, rest)" by (cases m)
      have res: "t1 = t" "b1 = body" "hr' = hr\<lparr>hr_buf := rest\<rparr>" "s' = s"
        using "1.prems"(3) Inr Some m by (simp_all add: ReadMsg.simps)
      have "hr_buf hr = encodeHandshakeMsg t body @ rest"
        using parseBuffered_shrinks[of "hr_buf hr"] Inr Some m res by blast
      with res "1.prems"(2) show ?thesis by (intro exI[of _ "[]"]) simp
    qed
  qed
qed

section \<open>Keys\<close>

lemma encodePublicKeySM2_eq:
  assumes "pk_X pub < 2 ^ 256" "pk_Y pub < 2 ^ 256"
  shows "encodePublicKeySM2 pub = Some (0x04 # be_of_nat 32 (pk_X pub) @ be_of_nat 32 (pk_Y pub))"
proof -
  let ?x = "bigBytes (pk_X pub)" and ?y = "bigBytes (pk_Y pub)"
  have lx: "length ?x \<le> 32" and ly: "length ?y \<le> 32" using assms by (auto intro!: length_bigBytes_le)
  have px: "replicate (32 - length ?x) 0 @ ?x = be_of_nat 32 (pk_X pub)"
    and py: "replicate (32 - length ?y) 0 @ ?y = be_of_nat 32 (pk_Y pub)"
    using assms by (auto intro!: padded_bigBytes)
  have r: "replicate 64 (0 :: byte) = replicate 32 0 @ replicate 32 0" by (simp flip: replicate_add)
  have cx: "copy_at (0x04 # replicate 64 0) (33 - length ?x) ?x = 0x04 # be_of_nat 32 (pk_X pub) @ replicate 32 0"
    using lx unfolding px[symmetric] r
    by (simp add: copy_at_def take_Cons' Suc_diff_le flip: replicate_add)
  have cy: "copy_at (0x04 # be_of_nat 32 (pk_X pub) @ replicate 32 0) (65 - length ?y) ?y =
      0x04 # be_of_nat 32 (pk_X pub) @ be_of_nat 32 (pk_Y pub)"
    using ly unfolding py[symmetric] by (simp add: copy_at_def take_Cons')
  show ?thesis using lx ly cx cy by (simp add: encodePublicKeySM2_def Let_def)
qed

lemma decodePublicKeySM2_Inr [io_success]:
  "decodePublicKeySM2 g raw = Inr pub \<longleftrightarrow>
     (\<exists>x y. pub = \<lparr>pk_X = x, pk_Y = y\<rparr> \<and> x < 2 ^ 256 \<and> y < 2 ^ 256 \<and> sm2_IsOnCurve g x y \<and>
        raw = 0x04 # be_of_nat 32 x @ be_of_nat 32 y)" (is "?l \<longleftrightarrow> ?r")
proof
  assume l: ?l
  let ?x = "slice raw 1 33" and ?y = "slice raw 33 65"
  have f: "length raw = 65" "raw ! 0 = 0x04" "sm2_IsOnCurve g (nat_of_be ?x) (nat_of_be ?y)"
      "pub = \<lparr>pk_X = nat_of_be ?x, pk_Y = nat_of_be ?y\<rparr>"
    using l by (auto simp: decodePublicKeySM2_def Let_def split: if_splits)
  have "raw = 0x04 # ?x @ ?y"
    using f(1,2) by (cases raw) (simp_all add: slice_def)
  moreover have "be_of_nat 32 (nat_of_be ?x) = ?x" "be_of_nat 32 (nat_of_be ?y) = ?y"
    using be_of_nat_of_be[of ?x] be_of_nat_of_be[of ?y] f(1) by simp_all
  moreover have "nat_of_be ?x < 2 ^ 256" "nat_of_be ?y < 2 ^ 256"
    using nat_of_be_bound[of ?x] nat_of_be_bound[of ?y] f(1) by simp_all
  ultimately show ?r using f(3,4) by auto
next
  assume ?r
  then obtain x y where r: "pub = \<lparr>pk_X = x, pk_Y = y\<rparr>" "x < 2 ^ 256" "y < 2 ^ 256" "sm2_IsOnCurve g x y"
    "raw = 0x04 # be_of_nat 32 x @ be_of_nat 32 y" by auto
  have "nat_of_be (slice raw 1 33) = x" "nat_of_be (slice raw 33 65) = y"
    using r(2,3) by (simp_all add: r(5) slice_def nat_of_be_of_nat)
  then show ?l using r(1,4) by (simp add: decodePublicKeySM2_def r(5))
qed

lemma slice_chain: "lo \<le> mid \<Longrightarrow> mid \<le> hi \<Longrightarrow> slice st lo mid @ slice st mid hi = slice st lo hi"
  unfolding slice_def using take_add[of "mid - lo" "hi - mid" "drop lo st"] by simp

lemma slice_chain_append:
  "lo \<le> mid \<Longrightarrow> mid \<le> hi \<Longrightarrow> slice st lo mid @ slice st mid hi @ ys = slice st lo hi @ ys"
  using slice_chain[of lo mid hi st] by (metis append_assoc)

lemma kdfRead_Inr [io_success]:
  "kdfRead m n st = (Inr k, st') \<longleftrightarrow> n \<le> length st \<and> k = take n st \<and> st' = drop n st"
  by (auto simp: kdfRead_def)

lemma fst_Inr_iff: "fst p = Inr x \<longleftrightarrow> (\<exists>s. p = (Inr x, s))"
  by (cases p) auto

lemma deriveHandshakeTrafficKeys_Inr:
  "deriveHandshakeTrafficKeys g secret cr sr = Inr k \<longleftrightarrow>
     (let st = hkdf_Stream g secret (cr @ sr) (stringBytes ''tls13-rfc8998-sm4-gcm-sm3-handshake'')
      in 120 \<le> length st \<and>
         k = \<lparr>hk_ClientWriteKey = slice st 0 16, hk_ClientWriteIV = slice st 16 28,
              hk_ServerWriteKey = slice st 28 44, hk_ServerWriteIV = slice st 44 56,
              hk_ServerFinishedKey = slice st 56 88, hk_ClientFinishedKey = slice st 88 120\<rparr>)"
  by (auto simp: deriveHandshakeTrafficKeys_def Let_def fst_Inr_iff io_success slice_def)

lemma deriveApplicationTrafficKeys_Inr:
  "deriveApplicationTrafficKeys g secret th = Inr k \<longleftrightarrow>
     (let st = hkdf_Stream g secret th (stringBytes ''tls13-rfc8998-sm4-gcm-sm3-application'')
      in 56 \<le> length st \<and>
         k = \<lparr>ak_ClientWriteKey = slice st 0 16, ak_ClientWriteIV = slice st 16 28,
              ak_ServerWriteKey = slice st 28 44, ak_ServerWriteIV = slice st 44 56\<rparr>)"
  by (auto simp: deriveApplicationTrafficKeys_def Let_def fst_Inr_iff io_success slice_def)

section \<open>Properties of the message layer\<close>

text \<open>A connection on which nothing has happened, for witnesses.\<close>

definition quietNet :: net where
  "quietNet = \<lparr>rx = [], rx_end = IoEOF, tx = [], wr = [], deadline = 0, wdeadline = 0, dl_err = None,
     close_err = None, net_closed = False, laddr = [], raddr = []\<rparr>"

text \<open>
  C25: a handshake message written with \<^verbatim>\<open>writeEncryptedHandshakeMsg\<close>, of any length up to the reader's
  2 MiB limit and so over as many records as it takes, is read back by
  \<^verbatim>\<open>readEncryptedHandshakeMsg\<close> under the same keys and sequence number, with the bytes that follow it
  on the connection left unread.
\<close>

theorem encrypted_message_roundtrip:
  assumes inv: "rcInv rc" and wr: "wr w = []"
    and seq: "unat (rc_seq rc) + 4 + length body \<le> 2 ^ 64 - 1"
    and len: "4 + length body \<le> maxHandshakeBufferSize"
  shows "\<exists>wire rc'. writeEncryptedHandshakeMsg rc t body w = (Inr rc', w\<lparr>tx := tx w @ wire\<rparr>) \<and>
    (\<forall>s rest. rx s = wire @ rest \<longrightarrow>
       readEncryptedHandshakeMsg rc s = (Inr (t, body), s\<lparr>rx := rest\<rparr>))"
proof -
  let ?wire = "sealStream rc (msgRecords t body)"
  have written: "writeEncryptedHandshakeMsg rc t body w =
      (Inr ((advance ^^ length (msgRecords t body)) rc), w\<lparr>tx := tx w @ ?wire\<rparr>)"
    and ok: "streamOk rc (msgRecords t body)"
    using writeEncryptedHandshakeMsg_total[OF wr seq] by blast+
  have "readEncryptedHandshakeMsg rc s = (Inr (t, body), s\<lparr>rx := rest\<rparr>)" if rx: "rx s = ?wire @ rest" for s rest
  proof -
    let ?hr = "newEncryptedHandshakeReader rc"
    have "hsPending ?hr s (encodeHandshakeMsg t body @ []) rest"
      using inv ok rx msgRecords_wf[of _ _ _ t body]
      by (auto simp: hsPending_def newEncryptedHandshakeReader_def intro!: exI[of _ "msgRecords t body"])
    from ReadMsg_pending[OF this] len obtain hr' r' where
      rd: "ReadMsg ?hr s = (Inr (t, body, hr'), s\<lparr>rx := r'\<rparr>)" "hsPending hr' (s\<lparr>rx := r'\<rparr>) [] rest"
      by (auto simp: fitsBuffer_def)
    from hsPending_done[OF rd(2)] have "r' = rest" by simp
    with rd(1) show ?thesis by (simp add: readEncryptedHandshakeMsg_def bindIO_step)
  qed
  with written show ?thesis by blast
qed

theorem encrypted_message_roundtrip_witness:
  "\<exists>wire. \<forall>s rest. rx s = wire @ rest \<longrightarrow>
     readEncryptedHandshakeMsg demoCipher s = (Inr (8, replicate 40000 1), s\<lparr>rx := rest\<rparr>)"
  using encrypted_message_roundtrip[of demoCipher quietNet "replicate 40000 1" 8] demoCipher_inv
  by (auto simp: quietNet_def demoCipher_def)

text \<open>
  C26: \<^verbatim>\<open>ReadMsg\<close> reassembles handshake messages whatever their cut into records: with pending data that
  begins with an encoded message, partly buffered and partly in non-empty sealed handshake records of
  any size and padding, it returns that message, consumes only records it needs, and leaves
  exactly the data after the message pending, coalesced messages included.
\<close>

theorem readmsg_reassembles:
  assumes "hsPending hr s (encodeHandshakeMsg t body @ ms) rest"
    and "fitsBuffer body (encodeHandshakeMsg t body @ ms)"
  shows "\<exists>hr' r'. ReadMsg hr s = (Inr (t, body, hr'), s\<lparr>rx := r'\<rparr>) \<and>
    hsPending hr' (s\<lparr>rx := r'\<rparr>) ms rest"
  using ReadMsg_pending[OF assms] .

text \<open>Two messages coalesced over three records, the first cut inside its header.\<close>

definition demoStream :: "(RecordType \<times> bytes \<times> nat) list" where
  "demoStream = [(22, [8, 0, 0], 3), (22, [1, 9, 11, 0, 0], 0), (22, [1, 5], 100)]"

lemma demoStream_pending:
  "hsPending (newEncryptedHandshakeReader demoCipher) (quietNet\<lparr>rx := sealStream demoCipher demoStream @ [77]\<rparr>)
     (encodeHandshakeMsg 8 [9] @ encodeHandshakeMsg 11 [5]) [77]"
  unfolding hsPending_def
proof (intro conjI exI[of _ demoStream])
  show "streamOk (hr_cipher (newEncryptedHandshakeReader demoCipher)) demoStream"
    by (simp add: demoStream_def demoCipher_def newEncryptedHandshakeReader_def sealable_def advance_def)
  show "hr_buf (newEncryptedHandshakeReader demoCipher) @ payloads demoStream =
      encodeHandshakeMsg 8 [9] @ encodeHandshakeMsg 11 [5]"
    by (simp add: demoStream_def newEncryptedHandshakeReader_def encodeHandshakeMsg_def)
qed (auto simp: demoStream_def newEncryptedHandshakeReader_def demoCipher_inv)

theorem readmsg_reassembles_witness:
  "\<exists>hr' r'. ReadMsg (newEncryptedHandshakeReader demoCipher)
       (quietNet\<lparr>rx := sealStream demoCipher demoStream @ [77]\<rparr>) =
         (Inr (8, [9], hr'), quietNet\<lparr>rx := r'\<rparr>) \<and>
     hsPending hr' (quietNet\<lparr>rx := r'\<rparr>) (encodeHandshakeMsg 11 [5]) [77]"
  using readmsg_reassembles[OF demoStream_pending] by (simp add: fitsBuffer_def)

text \<open>
  C24: a message returned by \<^verbatim>\<open>ReadMsg\<close> is authentic and the reader's memory bounded: everything taken off
  the connection is a run of records sealed under the peer's key at consecutive sequence numbers and
  of handshake type, their payloads behind the old buffer are the message and the new buffer, the
  cipher has advanced by the number of records, and message and buffer fit in 2 MiB together.
\<close>

theorem readmsg_authentic:
  assumes "rcInv (hr_cipher hr)" "length (hr_buf hr) \<le> maxHandshakeBufferSize"
    and "ReadMsg hr s = (Inr (t, body, hr'), s')"
  shows "\<exists>rs. streamOk (hr_cipher hr) rs \<and> (\<forall>r \<in> set rs. fst r = RecordTypeHandshake) \<and>
    rx s = sealStream (hr_cipher hr) rs @ rx s' \<and> tx s' = tx s \<and>
    hr_buf hr @ payloads rs = encodeHandshakeMsg t body @ hr_buf hr' \<and>
    rc_seq (hr_cipher hr') = rc_seq (hr_cipher hr) + of_nat (length rs) \<and>
    4 + length body + length (hr_buf hr') \<le> maxHandshakeBufferSize"
proof -
  obtain rs where rs: "streamOk (hr_cipher hr) rs" "\<forall>r \<in> set rs. fst r = RecordTypeHandshake"
    "rx s = sealStream (hr_cipher hr) rs @ rx s'" "s' = s\<lparr>rx := rx s'\<rparr>"
    "hr_buf hr @ payloads rs = encodeHandshakeMsg t body @ hr_buf hr'"
    "hr_cipher hr' = (advance ^^ length rs) (hr_cipher hr)"
    "length (encodeHandshakeMsg t body @ hr_buf hr') \<le> maxHandshakeBufferSize"
    using ReadMsg_sound[OF assms] by blast
  have "tx s' = tx s" by (subst rs(4)) simp
  with rs show ?thesis by (intro exI[of _ rs]) (simp add: advance_pow_seq)
qed

theorem readmsg_authentic_witness:
  "\<exists>rs hr' s'. ReadMsg (newEncryptedHandshakeReader demoCipher)
       (quietNet\<lparr>rx := sealStream demoCipher demoStream @ [77]\<rparr>) = (Inr (8, [9], hr'), s') \<and>
     sealStream demoCipher demoStream @ [77] = sealStream demoCipher rs @ rx s' \<and>
     payloads rs = encodeHandshakeMsg 8 [9] @ hr_buf hr'"
proof -
  let ?hr = "newEncryptedHandshakeReader demoCipher" and ?s = "quietNet\<lparr>rx := sealStream demoCipher demoStream @ [77]\<rparr>"
  obtain hr' s' where rd: "ReadMsg ?hr ?s = (Inr (8, [9], hr'), s')"
    using ReadMsg_pending[OF demoStream_pending] by (auto simp: fitsBuffer_def)
  then show ?thesis
    using readmsg_authentic[OF _ _ rd] demoCipher_inv by (auto simp: newEncryptedHandshakeReader_def)
qed

text \<open>
  A plaintext hello is read back from any cut of its encoding into non-empty plaintext handshake
  records, with any version bytes in their headers, and the bytes behind the last record stay
  unread; what \<^verbatim>\<open>writePlaintextHandshakeMsg\<close> sends is one such record, and it sends nothing when the
  message does not fit a record.
\<close>

theorem plaintext_reassembles:
  assumes rx: "rx s = concat (map (\<lambda>(ver, p). plainRecord ver p) ps) @ rest"
    and frags: "\<forall>(ver, p) \<in> set ps. p \<noteq> [] \<and> length p \<le> MaxPlaintextLength"
    and msg: "concat (map snd ps) = encodeHandshakeMsg t body"
    and len: "4 + length body \<le> maxHandshakeBufferSize" and wr: "wr w = []"
  shows "readPlaintextHandshakeMsg s = (Inr (t, body, encodeHandshakeMsg t body), s\<lparr>rx := rest\<rparr>) \<and>
    writePlaintextHandshakeMsg t body w =
      (if 4 + length body \<le> MaxPlaintextLength
       then (Inr (encodeHandshakeMsg t body),
             w\<lparr>tx := tx w @ plainRecord (3, 3) (encodeHandshakeMsg t body)\<rparr>)
       else (Inl (ErrNew ''teetls: plaintext handshake message exceeds max record length''), w))"
proof
  show "readPlaintextHandshakeMsg s = (Inr (t, body, encodeHandshakeMsg t body), s\<lparr>rx := rest\<rparr>)"
    unfolding readPlaintextHandshakeMsg_def
    using rx frags msg len by (intro readPlaintextLoop_fragments[where ps = ps]) simp_all
next
  show "writePlaintextHandshakeMsg t body w =
      (if 4 + length body \<le> MaxPlaintextLength
       then (Inr (encodeHandshakeMsg t body),
             w\<lparr>tx := tx w @ plainRecord (3, 3) (encodeHandshakeMsg t body)\<rparr>)
       else (Inl (ErrNew ''teetls: plaintext handshake message exceeds max record length''), w))"
    using plainRecord_writes[OF wr, of body t] by (simp add: writePlaintextHandshakeMsg_def Let_def)
qed

theorem plaintext_reassembles_witness:
  "readPlaintextHandshakeMsg
      (quietNet\<lparr>rx := plainRecord (3, 1) [1, 0] @ plainRecord (3, 3) [0, 2, 5, 6] @ [9]\<rparr>) =
    (Inr (1, [5, 6], [1, 0, 0, 2, 5, 6]), quietNet\<lparr>rx := [9]\<rparr>)"
  using plaintext_reassembles[of "quietNet\<lparr>rx := plainRecord (3, 1) [1, 0] @ plainRecord (3, 3) [0, 2, 5, 6] @ [9]\<rparr>"
      "[((3, 1), [1, 0]), ((3, 3), [0, 2, 5, 6])]" "[9]" 1 "[5, 6]" quietNet]
  by (simp add: encodeHandshakeMsg_eq numeral_3_eq_3 quietNet_def)

text \<open>
  The 65-byte form of SM2 points is a bijection between byte strings \<^verbatim>\<open>decodePublicKeySM2\<close> accepts and
  points on the curve with 256-bit coordinates: decoding an encoded point gives the point, and a
  decoded point encodes to the bytes it came from.
\<close>

theorem publickey_codec:
  assumes "pk_X pub < 2 ^ 256" "pk_Y pub < 2 ^ 256"
  shows "(decodePublicKeySM2 g raw = Inr pub) \<longleftrightarrow>
    (encodePublicKeySM2 pub = Some raw \<and> sm2_IsOnCurve g (pk_X pub) (pk_Y pub))"
  using assms by (cases pub) (auto simp: decodePublicKeySM2_Inr encodePublicKeySM2_eq)

theorem publickey_codec_witness:
  "\<exists>raw. encodePublicKeySM2 \<lparr>pk_X = 5, pk_Y = 258\<rparr> = Some raw \<and> length raw = 65 \<and>
     (\<forall>g. (decodePublicKeySM2 g raw = Inr \<lparr>pk_X = 5, pk_Y = 258\<rparr>) = sm2_IsOnCurve g 5 258)"
  using publickey_codec[of "\<lparr>pk_X = 5, pk_Y = 258\<rparr>"] by (simp add: encodePublicKeySM2_eq)

text \<open>
  The key schedule cuts the HKDF stream of the shared secret, salted with both randoms (handshake) or
  the transcript hash (application), into consecutive disjoint pieces of the sizes SM4-GCM and
  HMAC-SM3 need, so that no byte serves two keys, and \<^verbatim>\<open>NewRecordCipher\<close> never rejects the size of a
  derived key or IV; a stream that is too short is an error.
\<close>

theorem key_schedule_slices:
  "let st = hkdf_Stream g secret (cr @ sr) (stringBytes ''tls13-rfc8998-sm4-gcm-sm3-handshake'');
       sa = hkdf_Stream g secret th (stringBytes ''tls13-rfc8998-sm4-gcm-sm3-application'')
   in (deriveHandshakeTrafficKeys g secret cr sr = Inr k \<longleftrightarrow>
        120 \<le> length st \<and>
        hk_ClientWriteKey k @ hk_ClientWriteIV k @ hk_ServerWriteKey k @ hk_ServerWriteIV k @
          hk_ServerFinishedKey k @ hk_ClientFinishedKey k = take 120 st \<and>
        map length [hk_ClientWriteKey k, hk_ClientWriteIV k, hk_ServerWriteKey k, hk_ServerWriteIV k,
          hk_ServerFinishedKey k, hk_ClientFinishedKey k] = [16, 12, 16, 12, 32, 32]) \<and>
      (deriveApplicationTrafficKeys g secret th = Inr a \<longleftrightarrow>
        56 \<le> length sa \<and>
        ak_ClientWriteKey a @ ak_ClientWriteIV a @ ak_ServerWriteKey a @ ak_ServerWriteIV a = take 56 sa \<and>
        map length [ak_ClientWriteKey a, ak_ClientWriteIV a, ak_ServerWriteKey a, ak_ServerWriteIV a] =
          [16, 12, 16, 12])"
proof -
  have cut: "take 120 st = slice st 0 16 @ slice st 16 28 @ slice st 28 44 @ slice st 44 56 @
      slice st 56 88 @ slice st 88 120" "take 56 st = slice st 0 16 @ slice st 16 28 @ slice st 28 44 @ slice st 44 56"
    for st :: bytes
    unfolding slice_0_take[symmetric] by (simp_all add: slice_chain slice_chain_append)
  show ?thesis
    unfolding deriveHandshakeTrafficKeys_Inr deriveApplicationTrafficKeys_Inr Let_def cut
    by (cases k; cases a) auto
qed

end
