(* ===== verification/Csv_Report.thy ===== *)
theory Csv_Report
  imports Go_Crypto Go_Strings
begin

text \<open>
  CSV attestation reports (\<^verbatim>\<open>pkg/csvattest\<close>: \<^verbatim>\<open>constants.go\<close>, \<^verbatim>\<open>errors.go\<close>, \<^verbatim>\<open>report.go\<close>): the fixed layout, the
  word-wise masking of fields with the report's A nonce, the session MAC, the nonce echo and the
  sealing key field.
\<close>

section \<open>Layout\<close>

definition ReportSize :: nat where [simp]: "ReportSize = 0x9f4"
definition PageSize :: nat where [simp]: "PageSize = 4096"
definition UserDataSize :: nat where [simp]: "UserDataSize = 64"
definition NonceSize :: nat where [simp]: "NonceSize = 16"
definition HashSize :: nat where [simp]: "HashSize = 32"
definition SealingKeySize :: nat where [simp]: "SealingKeySize = 32"
definition SignedSize :: nat where [simp]: "SignedSize = 0xb4"

definition OffsetReportPubkeyDigest :: nat where [simp]: "OffsetReportPubkeyDigest = 0x000"
definition OffsetReportVMID :: nat where [simp]: "OffsetReportVMID = 0x020"
definition OffsetReportVMVersion :: nat where [simp]: "OffsetReportVMVersion = 0x030"
definition OffsetUserData :: nat where [simp]: "OffsetUserData = 0x040"
definition OffsetMNonce :: nat where [simp]: "OffsetMNonce = 0x080"
definition OffsetMeasure :: nat where [simp]: "OffsetMeasure = 0x090"
definition OffsetReportPolicy :: nat where [simp]: "OffsetReportPolicy = 0x0b0"
definition OffsetReportSigUsage :: nat where [simp]: "OffsetReportSigUsage = 0x0b4"
definition OffsetReportSigAlgo :: nat where [simp]: "OffsetReportSigAlgo = 0x0b8"
definition OffsetANonce :: nat where [simp]: "OffsetANonce = 0x0bc"
definition OffsetReportSig1 :: nat where [simp]: "OffsetReportSig1 = 0x0c0"
definition OffsetPEKCert :: nat where [simp]: "OffsetPEKCert = 0x150"
definition OffsetChipID :: nat where [simp]: "OffsetChipID = 0x974"
definition OffsetReserved2 :: nat where [simp]: "OffsetReserved2 = 0x9b4"
definition OffsetMAC :: nat where [simp]: "OffsetMAC = 0x9d4"

definition HrkCertSize :: nat where [simp]: "HrkCertSize = 0x340"
definition CSVCertSize :: nat where [simp]: "CSVCertSize = 0x824"
definition HskCekSize :: nat where [simp]: "HskCekSize = HrkCertSize + CSVCertSize"
definition ChipIDSize :: nat where [simp]: "ChipIDSize = 64"

definition OffsetRootKeyUsage :: nat where [simp]: "OffsetRootKeyUsage = 0x024"
definition OffsetRootPubKey :: nat where [simp]: "OffsetRootPubKey = 0x040"
definition OffsetRootSig :: nat where [simp]: "OffsetRootSig = 0x240"

definition OffsetCSVPubKeyUsage :: nat where [simp]: "OffsetCSVPubKeyUsage = 0x008"
definition OffsetCSVPubKey :: nat where [simp]: "OffsetCSVPubKey = 0x010"
definition OffsetCSVSig1Usage :: nat where [simp]: "OffsetCSVSig1Usage = 0x414"
definition OffsetCSVSig1 :: nat where [simp]: "OffsetCSVSig1 = 0x41c"
definition OffsetCSVSig2Usage :: nat where [simp]: "OffsetCSVSig2Usage = 0x61c"
definition OffsetCSVSig2 :: nat where [simp]: "OffsetCSVSig2 = 0x624"

definition OffsetECCPubKeyQX :: nat where [simp]: "OffsetECCPubKeyQX = 0x004"
definition OffsetECCPubKeyQY :: nat where [simp]: "OffsetECCPubKeyQY = 0x04c"
definition OffsetECCPubKeyUserID :: nat where [simp]: "OffsetECCPubKeyUserID = 0x094"
definition OffsetHygonSigR :: nat where [simp]: "OffsetHygonSigR = 0x000"
definition OffsetHygonSigS :: nat where [simp]: "OffsetHygonSigS = 0x048"

definition KeyUsageHRK :: "32 word" where [simp]: "KeyUsageHRK = 0x0"
definition KeyUsageHSK :: "32 word" where [simp]: "KeyUsageHSK = 0x13"
definition KeyUsageInvalid :: "32 word" where [simp]: "KeyUsageInvalid = 0x1000"
definition KeyUsagePEK :: "32 word" where [simp]: "KeyUsagePEK = 0x1002"
definition KeyUsageCEK :: "32 word" where [simp]: "KeyUsageCEK = 0x1004"
definition CurveIDSM2 :: "32 word" where [simp]: "CurveIDSM2 = 0x3"

definition HRKCertURL :: gostring where
  "HRKCertURL = stringBytes ''https://cert.hygon.cn/hrk''"
definition KDSCertURL :: gostring where
  "KDSCertURL = stringBytes ''https://cert.hygon.cn/hsk_cek?snumber=''"

section \<open>Errors\<close>

definition ErrUnsupported :: goerr where
  "ErrUnsupported = ErrNew ''csvattest: unsupported operation''"
definition ErrShortBuffer :: goerr where
  "ErrShortBuffer = ErrNew ''csvattest: buffer too short''"
definition ErrInvalidNonce :: goerr where
  "ErrInvalidNonce = ErrNew ''csvattest: invalid nonce length''"
definition ErrInvalidUserData :: goerr where
  "ErrInvalidUserData = ErrNew ''csvattest: invalid user data''"
definition ErrSessionMAC :: goerr where
  "ErrSessionMAC = ErrNew ''csvattest: session MAC verification failed''"
definition ErrMNonceMismatch :: goerr where
  "ErrMNonceMismatch = ErrNew ''csvattest: report mnonce does not match request nonce''"

section \<open>Operations\<close>

definition hmacSM3 :: "gmsm \<Rightarrow> bytes \<Rightarrow> bytes \<Rightarrow> bytes" where
  "hmacSM3 g key data = copy_at (replicate 32 0) 0 (hmacSum (sm3_Sum g) (sm3_BlockSize g) key data)"

text \<open>The loop takes four bytes at a time; a tail of less than four is copied.\<close>

fun UnmaskWords :: "bytes \<Rightarrow> 32 word \<Rightarrow> bytes" where
  "UnmaskWords (a # b # c # d # data) anonce =
     LittleEndian_PutUint32 (LittleEndian_Uint32 [a, b, c, d] XOR anonce) @ UnmaskWords data anonce"
| "UnmaskWords data anonce = data"

definition validateReportBytes :: "bytes \<Rightarrow> unit result" where
  "validateReportBytes report =
     guardRes (length report \<ge> ReportSize) (ErrWrap ''report has too few bytes'' ErrShortBuffer)"

definition validateNonce :: "bytes \<Rightarrow> unit result" where
  "validateNonce nonce =
     guardRes (length nonce = NonceSize) (ErrWrap ''nonce has the wrong length'' ErrInvalidNonce)"

definition VerifySessionMAC :: "gmsm \<Rightarrow> bytes \<Rightarrow> bytes \<Rightarrow> unit result" where
  "VerifySessionMAC g report nonce =
     bindRes (validateReportBytes report) (\<lambda>_.
     bindRes (validateNonce nonce) (\<lambda>_.
       let macInput = slice report OffsetPEKCert OffsetMAC;
           got = hmacSM3 g nonce macInput;
           want = slice report OffsetMAC (OffsetMAC + HashSize)
       in guardRes (got = want) ErrSessionMAC))"

definition VerifyMNonce :: "bytes \<Rightarrow> bytes \<Rightarrow> unit result" where
  "VerifyMNonce report nonce =
     bindRes (validateReportBytes report) (\<lambda>_.
     bindRes (validateNonce nonce) (\<lambda>_.
       let anonce = LittleEndian_Uint32 (slice report OffsetANonce (OffsetANonce + 4));
           mnonce = UnmaskWords (slice report OffsetMNonce (OffsetMNonce + NonceSize)) anonce
       in guardRes (mnonce = nonce) ErrMNonceMismatch))"

definition ExtractSealingKey :: "bytes \<Rightarrow> bytes result" where
  "ExtractSealingKey report =
     bindRes (validateReportBytes report) (\<lambda>_.
       Inr (copy_at (replicate SealingKeySize 0) 0
              (slice report OffsetReserved2 (OffsetReserved2 + SealingKeySize))))"

definition zeroReserved2 :: "bytes \<Rightarrow> bytes result" where
  "zeroReserved2 report =
     bindRes (validateReportBytes report) (\<lambda>_.
       Inr (copy_at report OffsetReserved2 (replicate SealingKeySize 0)))"

definition ReverseCopy :: "bytes \<Rightarrow> bytes" where
  "ReverseCopy bs = map (\<lambda>i. bs ! (length bs - 1 - i)) [0..<length bs]"

section \<open>Masking\<close>

lemma length_UnmaskWords [simp, bytes_simps]: "length (UnmaskWords bs a) = length bs"
  by (induction bs a rule: UnmaskWords.induct) auto

lemma UnmaskWords_word:
  "length w = 4 \<Longrightarrow> UnmaskWords (w @ bs) a = LittleEndian_PutUint32 (LittleEndian_Uint32 w XOR a) @ UnmaskWords bs a"
  by (auto simp: numeral_eq_Suc length_Suc_conv)

lemma UnmaskWords_append:
  "4 dvd length xs \<Longrightarrow> UnmaskWords (xs @ ys) a = UnmaskWords xs a @ UnmaskWords ys a"
proof (induction xs a rule: UnmaskWords.induct)
  case (1 b c d e xs a)
  then have "4 dvd length xs" by (simp add: dvd_def) presburger
  with 1 show ?case by simp
qed (simp_all add: dvd_def, presburger+)

lemma UnmaskWords_compose: "UnmaskWords (UnmaskWords bs a) c = UnmaskWords bs (a XOR c)"
proof (induction bs a rule: UnmaskWords.induct)
  case (1 b c' d e bs a)
  let ?w = "LittleEndian_Uint32 [b, c', d, e]"
  have "UnmaskWords (LittleEndian_PutUint32 (?w XOR a) @ UnmaskWords bs a) c =
      LittleEndian_PutUint32 ((?w XOR a) XOR c) @ UnmaskWords (UnmaskWords bs a) c"
    using UnmaskWords_word[of "LittleEndian_PutUint32 (?w XOR a)" "UnmaskWords bs a" c]
      LittleEndian_Uint32_Put[of "?w XOR a" "[]"] by simp
  then show ?case using 1 by (simp add: xor.assoc)
qed simp_all

lemma UnmaskWords_0 [simp]: "UnmaskWords bs 0 = bs"
proof (induction bs "0 :: 32 word" rule: UnmaskWords.induct)
  case (1 b c d e bs)
  then show ?case using LittleEndian_Put_Uint32[of "[b, c, d, e]"] by simp
qed simp_all

lemma UnmaskWords_involution [simp]: "UnmaskWords (UnmaskWords bs a) a = bs"
  by (simp add: UnmaskWords_compose)

lemma ReverseCopy_rev [simp]: "ReverseCopy bs = rev bs"
  by (rule nth_equalityI) (simp_all add: ReverseCopy_def rev_nth)

lemma length_hmacSM3 [simp, bytes_simps]: "length (hmacSM3 g k d) = 32"
  by (simp add: hmacSM3_def)

lemma validate_Inr [io_success, simp]:
  "validateReportBytes r = Inr u \<longleftrightarrow> 0x9f4 \<le> length r"
  "validateNonce n = Inr u \<longleftrightarrow> length n = 16"
  by (simp_all add: validateReportBytes_def validateNonce_def)

lemma VerifySessionMAC_Inr [io_success]:
  "VerifySessionMAC g report nonce = Inr u \<longleftrightarrow>
     0x9f4 \<le> length report \<and> length nonce = 16 \<and>
     hmacSM3 g nonce (slice report 0x150 0x9d4) = slice report 0x9d4 0x9f4"
  by (auto simp: VerifySessionMAC_def io_success Let_def)

lemma VerifyMNonce_Inr [io_success]:
  "VerifyMNonce report nonce = Inr u \<longleftrightarrow>
     0x9f4 \<le> length report \<and> length nonce = 16 \<and>
     UnmaskWords (slice report 0x80 0x90) (LittleEndian_Uint32 (slice report 0xbc 0xc0)) = nonce"
  by (auto simp: VerifyMNonce_def io_success Let_def)

lemma zeroReserved2_Inr [io_success]:
  "zeroReserved2 report = Inr r \<longleftrightarrow>
     0x9f4 \<le> length report \<and> r = copy_at report 0x9b4 (replicate 32 0)"
  by (auto simp: zeroReserved2_def io_success)

section \<open>Properties of masking\<close>

text \<open>The index loop of the source, word by word, with the tail copied.\<close>

definition unmaskLoop :: "bytes \<Rightarrow> 32 word \<Rightarrow> bytes" where
  "unmaskLoop data a =
     concat (map (\<lambda>i. LittleEndian_PutUint32 (LittleEndian_Uint32 (slice data (4 * i) (4 * i + 4)) XOR a))
       [0..<length data div 4]) @ drop (4 * (length data div 4)) data"

lemma unmaskLoop_Cons4:
  "unmaskLoop (b # c # d # e # data) a =
     LittleEndian_PutUint32 (LittleEndian_Uint32 [b, c, d, e] XOR a) @ unmaskLoop data a"
proof -
  let ?n = "length data div 4"
  have n: "length (b # c # d # e # data) div 4 = Suc ?n" by simp
  have dr: "drop (4 * Suc i) (b # c # d # e # data) = drop (4 * i) data" for i
    by (simp add: numeral_eq_Suc)
  have "[0..<Suc ?n] = 0 # map Suc [0..<?n]" by (simp add: upt_conv_Cons map_Suc_upt del: upt_Suc)
  then show ?thesis
    unfolding unmaskLoop_def n by (simp add: dr comp_def slice_def del: upt_Suc mult_Suc_right)
qed

text \<open>
  \<^verbatim>\<open>UnmaskWords\<close> is the word-wise exclusive or with the A nonce that its index loop computes, for data of
  any length; it keeps the length and undoes itself, so that the same call masks and unmasks.
\<close>

theorem unmask_words_loop:
  "UnmaskWords data a = unmaskLoop data a \<and> length (UnmaskWords data a) = length data \<and>
   UnmaskWords (UnmaskWords data a) a = data"
proof -
  have "UnmaskWords data a = unmaskLoop data a"
    by (induction data a rule: UnmaskWords.induct)
      (simp_all add: unmaskLoop_Cons4, simp_all add: unmaskLoop_def)
  then show ?thesis using length_UnmaskWords UnmaskWords_involution by blast
qed

end
