(* ===== verification/Evidence.thy ===== *)
theory Evidence
  imports Csv_Report
begin

text \<open>
  The evidence extension (\<^verbatim>\<open>evidence.go\<close>): a DER SEQUENCE of an optional version with default 1, a report and
  two optional certificates under context tags. \<^verbatim>\<open>encoding/asn1\<close> of the standard library is written out
  for this structure: its tag and length parser with every rejection, the skipping of optional
  fields, and its tolerance of extra bytes at the end of a SEQUENCE.
\<close>

section \<open>DER\<close>

definition derLength :: "nat \<Rightarrow> bytes" where
  "derLength n =
     (if n < 128 then [word_of_nat n]
      else let bs = bigBytes n in (0x80 OR word_of_nat (length bs)) # bs)"

definition derField :: "byte \<Rightarrow> bytes \<Rightarrow> bytes" where
  "derField tag content = tag # derLength (length content) @ content"

text \<open>Parsing keeps the remaining bytes instead of an offset into the buffer.\<close>

fun parseBase128Int :: "nat \<Rightarrow> nat \<Rightarrow> bytes \<Rightarrow> (nat \<times> bytes) result" where
  "parseBase128Int shifted acc [] = Inl (ErrNew ''asn1: truncated base 128 integer'')"
| "parseBase128Int shifted acc (b # bs) =
     (if shifted = 5 then Inl (ErrNew ''asn1: base 128 integer too large'')
      else if shifted = 0 \<and> b = 0x80 then Inl (ErrNew ''asn1: integer is not minimally encoded'')
      else
        let acc' = acc * 128 + unat (b AND 0x7f)
        in if b AND 0x80 = 0 then
             if acc' > 2 ^ 31 - 1 then Inl (ErrNew ''asn1: base 128 integer too large'')
             else Inr (acc', bs)
           else parseBase128Int (shifted + 1) acc' bs)"

fun parseLengthBytes :: "nat \<Rightarrow> nat \<Rightarrow> bytes \<Rightarrow> (nat \<times> bytes) result" where
  "parseLengthBytes 0 len bs = Inr (len, bs)"
| "parseLengthBytes (Suc k) len [] = Inl (ErrNew ''asn1: truncated tag or length'')"
| "parseLengthBytes (Suc k) len (b # bs) =
     (if len \<ge> 2 ^ 23 then Inl (ErrNew ''asn1: length too large'')
      else
        let len' = len * 256 + unat b
        in if len' = 0 then Inl (ErrNew ''asn1: superfluous leading zeros in length'')
           else parseLengthBytes k len' bs)"

record tagAndLength =
  tl_class :: nat
  tl_tag :: nat
  tl_length :: nat
  tl_isCompound :: bool

definition parseLength :: "bytes \<Rightarrow> (nat \<times> bytes) result" where
  "parseLength bs =
     (case bs of
        [] \<Rightarrow> Inl (ErrNew ''asn1: truncated tag or length'')
      | b # bs' \<Rightarrow>
          if b AND 0x80 = 0 then Inr (unat (b AND 0x7f), bs')
          else
            let numBytes = unat (b AND 0x7f)
            in if numBytes = 0 then Inl (ErrNew ''asn1: indefinite length found (not DER)'')
               else bindRes (parseLengthBytes numBytes 0 bs') (\<lambda>(len, rest).
                 if len < 0x80 then Inl (ErrNew ''asn1: non-minimal length'') else Inr (len, rest)))"

definition parseTagAndLength :: "bytes \<Rightarrow> (tagAndLength \<times> bytes) result" where
  "parseTagAndLength bs =
     (case bs of
        [] \<Rightarrow> Inl (ErrNew ''asn1: internal error in parseTagAndLength'')
      | b # bs' \<Rightarrow>
          bindRes (if unat (b AND 0x1f) = 0x1f
                   then bindRes (parseBase128Int 0 0 bs') (\<lambda>(tag, rest).
                          if tag < 0x1f then Inl (ErrNew ''asn1: non-minimal tag'') else Inr (tag, rest))
                   else Inr (unat (b AND 0x1f), bs')) (\<lambda>(tag, rest).
          bindRes (parseLength rest) (\<lambda>(len, rest').
            Inr (\<lparr>tl_class = unat (drop_bit 6 b), tl_tag = tag, tl_length = len,
                  tl_isCompound = (b AND 0x20 = 0x20)\<rparr>, rest'))))"

text \<open>
  \<^verbatim>\<open>parseField\<close> for a field with the given class, tag and form: \<open>Inr (None, bs)\<close> means an optional field
  that is absent, at the end of the data or because the next element has another tag.
\<close>

definition parseField :: "bool \<Rightarrow> nat \<Rightarrow> nat \<Rightarrow> bool \<Rightarrow> bytes \<Rightarrow> (bytes option \<times> bytes) result" where
  "parseField opt cls tag compound bs =
     (if bs = [] then
        if opt then Inr (None, bs) else Inl (ErrNew ''asn1: sequence truncated'')
      else bindRes (parseTagAndLength bs) (\<lambda>(t, rest).
        if tl_class t \<noteq> cls \<or> tl_tag t \<noteq> tag \<or> tl_isCompound t \<noteq> compound then
          if opt then Inr (None, bs) else Inl (ErrNew ''asn1: tags do not match'')
        else if tl_length t > length rest then Inl (ErrNew ''asn1: data truncated'')
        else Inr (Some (take (tl_length t) rest), drop (tl_length t) rest)))"

definition checkInteger :: "bytes \<Rightarrow> unit result" where
  "checkInteger bs =
     (if bs = [] then Inl (ErrNew ''asn1: empty integer'')
      else if length bs \<ge> 2 \<and> (bs ! 0 = 0 \<and> bs ! 1 AND 0x80 = 0 \<or> bs ! 0 = 0xff \<and> bs ! 1 AND 0x80 = 0x80)
      then Inl (ErrNew ''asn1: integer not minimally-encoded'')
      else Inr ())"

definition parseInt64 :: "bytes \<Rightarrow> int result" where
  "parseInt64 bs =
     (if length bs > 8 then Inl (ErrNew ''asn1: integer too large'')
      else bindRes (checkInteger bs) (\<lambda>_.
        let n = int (nat_of_be bs)
        in Inr (if bs \<noteq> [] \<and> bs ! 0 AND 0x80 = 0x80 then n - 256 ^ length bs else n)))"

section \<open>Evidence\<close>

definition OIDCSVEvidence :: "nat list" where
  "OIDCSVEvidence = [1, 3, 6, 1, 4, 1, 58270, 1, 1]"
definition EvidenceVersion :: int where [simp]: "EvidenceVersion = 1"
definition errNilEvidence :: goerr where "errNilEvidence = ErrNew ''nil evidence extension''"

record CSVEvidenceExtension =
  ev_Version :: int
  ev_Report :: bytes
  ev_HRKCert :: bytes
  ev_HSKCekCert :: bytes

definition validateEvidenceExtension :: "CSVEvidenceExtension option \<Rightarrow> unit result" where
  "validateEvidenceExtension evp =
     (case evp of
        None \<Rightarrow> Inl errNilEvidence
      | Some ev \<Rightarrow>
          if ev_Version ev \<noteq> EvidenceVersion then Inl (ErrNew ''unsupported csv evidence version'')
          else if length (ev_Report ev) \<noteq> ReportSize
          then Inl (ErrNew ''invalid report size in evidence extension'')
          else if length (ev_HRKCert ev) > 0 \<and> length (ev_HRKCert ev) \<noteq> HrkCertSize
          then Inl (ErrNew ''invalid HRK cert size in evidence extension'')
          else if length (ev_HSKCekCert ev) > 0 \<and> length (ev_HSKCekCert ev) \<noteq> HskCekSize
          then Inl (ErrNew ''invalid HSK/CEK cert size in evidence extension'')
          else Inr ())"

text \<open>\<^verbatim>\<open>asn1.Marshal\<close> of the structure; the INTEGER is two's complement of the shortest length.\<close>

function derIntBytes :: "int \<Rightarrow> bytes" where
  "derIntBytes v =
     (if - 128 \<le> v \<and> v \<le> 127 then [word_of_int v] else derIntBytes (v div 256) @ [word_of_int v])"
  by pat_completeness auto
termination
  by (relation "measure (\<lambda>v. nat (if v < 0 then - v else v))") auto

definition marshalEvidence :: "CSVEvidenceExtension \<Rightarrow> bytes" where
  "marshalEvidence ev =
     derField 0x30
       ((if ev_Version ev = 1 then [] else derField 0x02 (derIntBytes (ev_Version ev))) @
        derField 0x80 (ev_Report ev) @
        (if length (ev_HRKCert ev) = 0 then [] else derField 0x81 (ev_HRKCert ev)) @
        (if length (ev_HSKCekCert ev) = 0 then [] else derField 0x82 (ev_HSKCekCert ev)))"

definition EncodeCSVEvidence :: "CSVEvidenceExtension option \<Rightarrow> pkix_Extension result" where
  "EncodeCSVEvidence evp =
     (case evp of
        None \<Rightarrow> Inl errNilEvidence
      | Some ev \<Rightarrow>
          let evCopy = (if ev_Version ev = 0 then ev\<lparr>ev_Version := EvidenceVersion\<rparr> else ev)
          in bindRes (validateEvidenceExtension (Some evCopy)) (\<lambda>_.
               Inr \<lparr>ext_Id = OIDCSVEvidence, ext_Critical = False, ext_Value = marshalEvidence evCopy\<rparr>))"

text \<open>\<^verbatim>\<open>asn1.Unmarshal\<close> into the structure: what is left of the SEQUENCE after the last field is ignored.\<close>

definition unmarshalEvidence :: "bytes \<Rightarrow> (CSVEvidenceExtension \<times> bytes) result" where
  "unmarshalEvidence data =
     bindRes (parseField False 0 16 True data) (\<lambda>(inner, rest).
     bindRes (parseField True 0 2 False (the inner)) (\<lambda>(v, in1).
     bindRes (case v of None \<Rightarrow> Inr 1 | Some bs \<Rightarrow> parseInt64 bs) (\<lambda>version.
     bindRes (parseField False 2 0 False in1) (\<lambda>(report, in2).
     bindRes (parseField True 2 1 False in2) (\<lambda>(hrk, in3).
     bindRes (parseField True 2 2 False in3) (\<lambda>(hskCek, in4).
       Inr (\<lparr>ev_Version = version, ev_Report = the report,
             ev_HRKCert = (case hrk of None \<Rightarrow> [] | Some b \<Rightarrow> b),
             ev_HSKCekCert = (case hskCek of None \<Rightarrow> [] | Some b \<Rightarrow> b)\<rparr>, rest)))))))"

definition DecodeCSVEvidence :: "bytes \<Rightarrow> CSVEvidenceExtension result" where
  "DecodeCSVEvidence data =
     bindRes (wrapRes ''unmarshal csv evidence'' (unmarshalEvidence data)) (\<lambda>(ev, rest).
       if length rest > 0 then Inl (ErrNew ''trailing bytes in csv evidence extension'')
       else bindRes (validateEvidenceExtension (Some ev)) (\<lambda>_. Inr ev))"

declare derIntBytes.simps [simp del]

section \<open>Fields of two-byte length\<close>

text \<open>Every field of valid evidence has a length of two bytes.\<close>

lemma bigBytes_two:
  assumes "256 \<le> n" "n < 65536"
  shows "bigBytes n = [word_of_nat (n div 256), word_of_nat n]"
proof -
  have q: "n div 256 \<noteq> 0" "n div 256 div 256 = 0" using assms by simp_all
  have "bigBytes n = bigBytes (n div 256) @ [word_of_nat n]"
    using assms by (subst bigBytes.simps) simp
  also have "bigBytes (n div 256) = [word_of_nat (n div 256)]"
    using q by (subst bigBytes.simps) simp
  finally show ?thesis by simp
qed

lemma derLength_two:
  "256 \<le> n \<Longrightarrow> n < 65536 \<Longrightarrow> derLength n = [0x82, word_of_nat (n div 256), word_of_nat n]"
  by (simp add: derLength_def bigBytes_two)

lemma parseLength_two:
  assumes "256 \<le> n" "n < 65536"
  shows "parseLength (derLength n @ rest) = Inr (n, rest)"
proof -
  have hi: "unat (word_of_nat (n div 256) :: byte) = n div 256"
    using assms by (simp add: unat_word_of_nat_byte div_less_iff_less_mult)
  have lo: "unat (word_of_nat n :: byte) = n mod 256" by (rule unat_word_of_nat_byte)
  have q: "0 < n div 256" "n div 256 < 256" using assms by simp_all
  have "parseLengthBytes (Suc (Suc 0)) 0 (word_of_nat (n div 256) # word_of_nat n # rest) = Inr (n, rest)"
    using q by (simp add: hi lo Let_def)
  then have "parseLengthBytes 2 0 (word_of_nat (n div 256) # word_of_nat n # rest) = Inr (n, rest)"
    by (simp only: numeral_2_eq_2)
  then show ?thesis using assms by (simp add: derLength_two parseLength_def)
qed

definition tagOf :: "byte \<Rightarrow> nat \<times> nat \<times> bool" where
  "tagOf b = (unat (drop_bit 6 b), unat (b AND 0x1f), b AND 0x20 = 0x20)"

lemma parseTagAndLength_field:
  assumes "256 \<le> length c" "length c < 65536" "tagOf b = (cls, tag, cmp)" "tag \<noteq> 0x1f"
  shows "parseTagAndLength (derField b c @ rest) =
    Inr (\<lparr>tl_class = cls, tl_tag = tag, tl_length = length c, tl_isCompound = cmp\<rparr>, c @ rest)"
  using assms by (simp add: parseTagAndLength_def derField_def parseLength_two tagOf_def)

lemma parseField_present:
  assumes "256 \<le> length c" "length c < 65536" "tagOf b = (cls, tag, cmp)" "tag \<noteq> 0x1f"
  shows "parseField opt cls tag cmp (derField b c @ rest) = Inr (Some c, rest)"
  using parseTagAndLength_field[OF assms, of rest] by (simp add: parseField_def derField_def)

lemma parseField_absent:
  assumes "256 \<le> length c" "length c < 65536" "tagOf b = (cls', tag', cmp')" "tag' \<noteq> 0x1f"
    and "(cls, tag, cmp) \<noteq> (cls', tag', cmp')"
  shows "parseField True cls tag cmp (derField b c @ rest) = Inr (None, derField b c @ rest)"
  using parseTagAndLength_field[OF assms(1-4), of rest] assms(5) by (simp add: parseField_def derField_def)

lemma parseField_end [simp]: "parseField True cls tag cmp [] = Inr (None, [])"
  by (simp add: parseField_def)

lemma tags [simp]:
  "tagOf 0x30 = (0, 16, True)" "tagOf 0x80 = (2, 0, False)" "tagOf 0x81 = (2, 1, False)" "tagOf 0x82 = (2, 2, False)"
  by code_simp+

lemma length_derField: "256 \<le> length c \<Longrightarrow> length c < 65536 \<Longrightarrow> length (derField b c) = 4 + length c"
  by (simp add: derField_def derLength_two)

section \<open>Decoding inverts encoding\<close>

text \<open>The optional certificates, absent when empty.\<close>

definition optField :: "byte \<Rightarrow> bytes \<Rightarrow> bytes" where
  "optField tag c = (if length c = 0 then [] else derField tag c)"

lemma parseField_optional:
  assumes "c = [] \<or> 256 \<le> length c \<and> length c < 65536" "tagOf b = (cls, tag, cmp)" "tag \<noteq> 0x1f"
    and "rest = [] \<or> (\<exists>b' c' r. rest = derField b' c' @ r \<and> 256 \<le> length c' \<and> length c' < 65536 \<and>
      fst (snd (tagOf b')) \<noteq> 0x1f \<and> tagOf b' \<noteq> tagOf b)"
  shows "\<exists>o1. parseField True cls tag cmp (optField b c @ rest) = Inr (o1, rest) \<and>
    (case o1 of None \<Rightarrow> [] | Some x \<Rightarrow> x) = c"
proof (cases "c = []")
  case False
  then show ?thesis using parseField_present[of c b cls tag cmp True rest] assms(1-3) by (simp add: optField_def)
next
  case True
  have "parseField True cls tag cmp rest = Inr (None, rest)"
  proof (cases "rest = []")
    case False
    then obtain b' c' r where r: "rest = derField b' c' @ r" "256 \<le> length c'" "length c' < 65536"
      "fst (snd (tagOf b')) \<noteq> 0x1f" "tagOf b' \<noteq> tagOf b" using assms(4) by blast
    show ?thesis unfolding r(1)
      by (rule parseField_absent[OF r(2,3), where cls' = "fst (tagOf b')" and tag' = "fst (snd (tagOf b'))"
            and cmp' = "snd (snd (tagOf b'))"]) (use r assms(2) in auto)
  qed simp
  with True show ?thesis by (simp add: optField_def)
qed

definition validEvidence :: "CSVEvidenceExtension \<Rightarrow> bool" where
  "validEvidence ev \<longleftrightarrow> ev_Version ev = 1 \<and> length (ev_Report ev) = ReportSize \<and>
     (ev_HRKCert ev = [] \<or> length (ev_HRKCert ev) = HrkCertSize) \<and>
     (ev_HSKCekCert ev = [] \<or> length (ev_HSKCekCert ev) = HskCekSize)"

lemma validateEvidenceExtension_Inr [io_success]:
  "validateEvidenceExtension (Some ev) = Inr u \<longleftrightarrow> validEvidence ev"
  by (auto simp: validateEvidenceExtension_def validEvidence_def)

lemma unmarshal_marshal:
  assumes "validEvidence ev"
  shows "unmarshalEvidence (marshalEvidence ev) = Inr (ev, [])"
proof -
  let ?hrk = "ev_HRKCert ev" and ?hsk = "ev_HSKCekCert ev" and ?rep = "ev_Report ev"
  let ?in = "derField 0x80 ?rep @ optField 0x81 ?hrk @ optField 0x82 ?hsk"
  have v: "ev_Version ev = 1" "length ?rep = 2548" "?hrk = [] \<or> length ?hrk = 832" "?hsk = [] \<or> length ?hsk = 2916"
    using assms by (auto simp: validEvidence_def)
  have m: "marshalEvidence ev = derField 0x30 ?in @ []"
    using v(1) by (simp add: marshalEvidence_def optField_def)
  have len: "256 \<le> length ?in" "length ?in < 65536"
    using v(2-4) by (auto simp: length_derField optField_def)
  have outer: "parseField False 0 16 True (marshalEvidence ev) = Inr (Some ?in, [])"
    unfolding m by (rule parseField_present[OF len]) simp_all
  have ver: "parseField True 0 2 False ?in = Inr (None, ?in)"
    by (rule parseField_absent[where cls' = 2 and tag' = 0 and cmp' = False]) (use v(2) in simp_all)
  have rep: "parseField False 2 0 False ?in = Inr (Some ?rep, optField 0x81 ?hrk @ optField 0x82 ?hsk)"
    by (rule parseField_present) (use v(2) in simp_all)
  have hsk: "\<exists>o1. parseField True 2 2 False (optField 0x82 ?hsk @ []) = Inr (o1, []) \<and> (case o1 of None \<Rightarrow> [] | Some x \<Rightarrow> x) = ?hsk"
    by (rule parseField_optional) (use v(4) in auto)
  have hrk: "\<exists>o1. parseField True 2 1 False (optField 0x81 ?hrk @ optField 0x82 ?hsk) = Inr (o1, optField 0x82 ?hsk) \<and>
      (case o1 of None \<Rightarrow> [] | Some x \<Rightarrow> x) = ?hrk"
  proof (rule parseField_optional)
    show "optField 0x82 ?hsk = [] \<or> (\<exists>b' c' r. optField 0x82 ?hsk = derField b' c' @ r \<and> 256 \<le> length c' \<and>
        length c' < 65536 \<and> fst (snd (tagOf b')) \<noteq> 31 \<and> tagOf b' \<noteq> tagOf 0x81)"
    proof (cases "?hsk = []")
      case False
      with v(4) show ?thesis
        by (intro disjI2 exI[of _ "0x82 :: byte"] exI[of _ ?hsk] exI[of _ "[]"]) (simp add: optField_def)
    qed (simp add: optField_def)
  qed (use v(3) in auto)
  obtain o1 o2 where "parseField True 2 1 False (optField 0x81 ?hrk @ optField 0x82 ?hsk) = Inr (o1, optField 0x82 ?hsk)"
    "(case o1 of None \<Rightarrow> [] | Some x \<Rightarrow> x) = ?hrk" "parseField True 2 2 False (optField 0x82 ?hsk) = Inr (o2, [])"
    "(case o2 of None \<Rightarrow> [] | Some x \<Rightarrow> x) = ?hsk" using hrk hsk by auto
  then show ?thesis using outer ver rep v(1) by (simp add: unmarshalEvidence_def)
qed

section \<open>Properties of the evidence extension\<close>

text \<open>
  C36: evidence that \<^verbatim>\<open>EncodeCSVEvidence\<close> accepts, with or without certificates and with the version given or
  left at zero, is decoded from the DER value of the extension to the same evidence with version 1;
  evidence of a wrong version or with a wrong size of report or certificate, and a nil pointer, are not encoded.
\<close>

theorem evidence_roundtrip:
  "(case EncodeCSVEvidence (Some ev) of
      Inl e \<Rightarrow> \<not> validEvidence (if ev_Version ev = 0 then ev\<lparr>ev_Version := 1\<rparr> else ev)
    | Inr ext \<Rightarrow> ext_Id ext = OIDCSVEvidence \<and>
        DecodeCSVEvidence (ext_Value ext) = Inr (ev\<lparr>ev_Version := 1\<rparr>) \<and> validEvidence (ev\<lparr>ev_Version := 1\<rparr>)) \<and>
   EncodeCSVEvidence None = Inl errNilEvidence"
proof -
  let ?ev = "if ev_Version ev = 0 then ev\<lparr>ev_Version := 1\<rparr> else ev"
  show ?thesis
  proof (cases "validEvidence ?ev")
    case True
    then have v: "ev_Version ?ev = 1" by (simp add: validEvidence_def)
    then have e: "?ev = ev\<lparr>ev_Version := 1\<rparr>" by (auto split: if_splits)
    have "DecodeCSVEvidence (marshalEvidence ?ev) = Inr ?ev"
      using True unmarshal_marshal[OF True] by (simp add: DecodeCSVEvidence_def bindRes_Inr validateEvidenceExtension_Inr)
    moreover have "validateEvidenceExtension (Some ?ev) = Inr ()"
      using True by (simp only: validateEvidenceExtension_Inr)
    then have "EncodeCSVEvidence (Some ev) =
        Inr \<lparr>ext_Id = OIDCSVEvidence, ext_Critical = False, ext_Value = marshalEvidence ?ev\<rparr>"
      by (cases "ev_Version ev = 0") (simp_all add: EncodeCSVEvidence_def Let_def)
    ultimately show ?thesis using True unfolding e by (simp add: EncodeCSVEvidence_def)
  next
    case False
    then obtain er where "validateEvidenceExtension (Some ?ev) = Inl er"
      using validateEvidenceExtension_Inr[of ?ev] by (cases "validateEvidenceExtension (Some ?ev)") auto
    then show ?thesis using False by (cases "ev_Version ev = 0") (simp_all add: EncodeCSVEvidence_def Let_def)
  qed
qed

text \<open>
  C37: decoding fails closed: evidence that \<^verbatim>\<open>DecodeCSVEvidence\<close> returns has version 1, a full report and
  certificates that are absent or of exactly their size, whatever the input bytes, and no input with
  bytes after the SEQUENCE is accepted.
\<close>

theorem decoded_evidence_valid:
  assumes "DecodeCSVEvidence data = Inr ev"
  shows "validEvidence ev \<and> unmarshalEvidence data = Inr (ev, [])"
  using assms
  by (auto simp: DecodeCSVEvidence_def bindRes_Inr validateEvidenceExtension_Inr split: if_splits)

theorem decoded_evidence_valid_witness:
  "DecodeCSVEvidence (marshalEvidence \<lparr>ev_Version = 1, ev_Report = replicate 2548 3, ev_HRKCert = [], ev_HSKCekCert = []\<rparr>) =
     Inr \<lparr>ev_Version = 1, ev_Report = replicate 2548 3, ev_HRKCert = [], ev_HSKCekCert = []\<rparr> \<and>
   validEvidence \<lparr>ev_Version = 1, ev_Report = replicate 2548 3, ev_HRKCert = [], ev_HSKCekCert = []\<rparr>"
proof -
  let ?ev = "\<lparr>ev_Version = 1, ev_Report = replicate 2548 3, ev_HRKCert = [], ev_HSKCekCert = []\<rparr>"
  have "validEvidence ?ev" by (simp add: validEvidence_def)
  then have "DecodeCSVEvidence (marshalEvidence ?ev) = Inr ?ev"
    using unmarshal_marshal[of ?ev] by (simp add: DecodeCSVEvidence_def validateEvidenceExtension_Inr bindRes_Inr)
  with decoded_evidence_valid[OF this] show ?thesis by blast
qed

end
