(* ===== verification/Config.thy ===== *)
theory Config
  imports Evidence
begin

text \<open>
  Configuration and certificates (\<^verbatim>\<open>config.go\<close>, \<^verbatim>\<open>cert.go\<close> and the interfaces of \<^verbatim>\<open>provider.go\<close>): validation, the
  effective defaults, generation of an ephemeral certificate with evidence and its cache. An
  interface value is a record of its methods, and an optional interface is an optional method. The
  locks of the source make the cache operations atomic. The clock is a function from the position of a
  \<^verbatim>\<open>time.Now\<close> call in the code to the time it returns; durations are nanoseconds.
\<close>

section \<open>Providers and contexts\<close>

text \<open>
  A context as far as a call observes it: \<open>cx_err\<close> is \<^verbatim>\<open>ctx.Err()\<close>, set when the call finds the context done
  before its own result, and \<open>cx_deadline\<close> its deadline, if it has one.
\<close>

record gocontext =
  cx_err :: "goerr option"
  cx_deadline :: "gotime option"

definition contextBackground :: gocontext where
  "contextBackground = \<lparr>cx_err = None, cx_deadline = None\<rparr>"

record EvidenceProvider =
  ep_GetEvidence :: "bytes \<Rightarrow> CSVEvidenceExtension option result"
  ep_GetMeasurementHex :: gostring
  ep_GetEvidenceContext :: "(gocontext \<Rightarrow> bytes \<Rightarrow> CSVEvidenceExtension option result) option"
  ep_TrustedHRKCert :: "bytes option"

definition getEvidenceWithContext ::
    "gocontext \<Rightarrow> EvidenceProvider \<Rightarrow> bytes \<Rightarrow> CSVEvidenceExtension option result" where
  "getEvidenceWithContext ctx provider pubDigest =
     (case ep_GetEvidenceContext provider of
        Some getCtx \<Rightarrow> getCtx ctx pubDigest
      | None \<Rightarrow> (case cx_err ctx of Some e \<Rightarrow> Inl e | None \<Rightarrow> ep_GetEvidence provider pubDigest))"

section \<open>Certificates\<close>

definition nsMillisecond :: int where [simp]: "nsMillisecond = 1000000"
definition nsSecond :: int where [simp]: "nsSecond = 1000000000"
definition nsMinute :: int where [simp]: "nsMinute = 60 * nsSecond"
definition nsHour :: int where [simp]: "nsHour = 60 * nsMinute"

definition ComputePublicKeySM3 :: "gmsm \<Rightarrow> bytes \<Rightarrow> bytes" where
  "ComputePublicKeySM3 g pubKeyDER = copy_at (replicate 32 0) 0 (sm3_Sum g pubKeyDER)"

definition ParseCertificatePEM :: "gmsm \<Rightarrow> bytes \<Rightarrow> x509cert result" where
  "ParseCertificatePEM g certPEM =
     bindRes (wrapRes ''read certificate from pem'' (gx509_ReadCertificateFromPem g certPEM))
       (\<lambda>gCert. Inr (gc_X509 gCert))"

text \<open>The draws from \<^verbatim>\<open>rand.Reader\<close> of one generation: for the key, the serial number and the signature.\<close>

record certEntropy =
  ce_key :: bytes
  ce_serial :: "nat result"
  ce_sign :: bytes

definition certTemplateFor :: "nat \<Rightarrow> gotime \<Rightarrow> pkix_Extension \<Rightarrow> certTemplate" where
  "certTemplateFor serialNumber now ext =
     \<lparr>tpl_SerialNumber = serialNumber, tpl_CommonName = ''TEE-TLS Ephemeral SM2 Certificate'',
      tpl_NotBefore = now - 1 * nsHour, tpl_NotAfter = now + 24 * nsHour,
      tpl_KeyUsage = [''DigitalSignature'', ''KeyEncipherment''],
      tpl_ExtKeyUsage = [''ServerAuth'', ''ClientAuth''],
      tpl_BasicConstraintsValid = True, tpl_IsCA = False, tpl_ExtraExtensions = [ext]\<rparr>"

definition GenerateSM2CertificateWithEvidenceContext ::
    "gmsm \<Rightarrow> certEntropy \<Rightarrow> gotime \<Rightarrow> gocontext option \<Rightarrow> EvidenceProvider option \<Rightarrow> (bytes \<times> bytes) result" where
  "GenerateSM2CertificateWithEvidenceContext g rnd now ctxp providerp =
     (case providerp of
        None \<Rightarrow> Inl (ErrNew ''nil evidence provider'')
      | Some provider \<Rightarrow>
          let ctx = (case ctxp of None \<Rightarrow> contextBackground | Some c \<Rightarrow> c)
          in bindRes (wrapRes ''generate sm2 key'' (sm2_GenerateKey g (ce_key rnd))) (\<lambda>priv.
             bindRes (wrapRes ''marshal sm2 public key'' (gx509_MarshalPKIXPublicKey g (sk_pub priv))) (\<lambda>pubDER.
             bindRes (wrapRes ''get attestation evidence''
               (getEvidenceWithContext ctx provider (ComputePublicKeySM3 g pubDER))) (\<lambda>evidence.
             bindRes (wrapRes ''encode csv evidence extension'' (EncodeCSVEvidence evidence)) (\<lambda>ext.
             bindRes (wrapRes ''generate serial number'' (ce_serial rnd)) (\<lambda>serialNumber.
             bindRes (wrapRes ''create certificate pem''
               (gx509_CreateCertificateToPem g (certTemplateFor serialNumber now ext) (sk_pub priv) priv (ce_sign rnd)))
               (\<lambda>certPEM.
             bindRes (wrapRes ''marshal sm2 private key pem'' (gx509_WritePrivateKeyToPem g priv)) (\<lambda>keyPEM.
               Inr (certPEM, keyPEM)))))))))"

definition GenerateSM2CertificateWithEvidence ::
    "gmsm \<Rightarrow> certEntropy \<Rightarrow> gotime \<Rightarrow> EvidenceProvider option \<Rightarrow> (bytes \<times> bytes) result" where
  "GenerateSM2CertificateWithEvidence g rnd now provider =
     GenerateSM2CertificateWithEvidenceContext g rnd now (Some contextBackground) provider"

section \<open>Configuration\<close>

definition defaultTimeout :: int where "defaultTimeout = 10 * nsSecond"

type_synonym AttestationMode = gostring

definition ModeStrict :: AttestationMode where "ModeStrict = stringBytes ''strict''"
definition ModePermissive :: AttestationMode where "ModePermissive = stringBytes ''permissive''"

record Config =
  cf_Mode :: AttestationMode
  cf_EvidenceProvider :: "EvidenceProvider option"
  cf_ExpectedMeasurements :: "gostring list"
  cf_VerifyMutualAttestation :: bool
  cf_Timeout :: int
  cf_InsecureSkipAttestationVerify :: bool
  cf_CertPEM :: bytes
  cf_KeyPEM :: bytes
  cf_HRKCertPath :: gostring
  cf_HSKCekCertPath :: gostring
  cf_TrustedHRKCert :: bytes
  cf_CertDir :: gostring
  cf_CertCacheTTL :: int
  cf_cachedCertPEM :: bytes
  cf_cachedKeyPEM :: bytes
  cf_cachedAt :: gotime
  cf_cachedNotAfter :: gotime

definition zeroConfig :: Config where
  "zeroConfig = \<lparr>cf_Mode = [], cf_EvidenceProvider = None, cf_ExpectedMeasurements = [],
     cf_VerifyMutualAttestation = False, cf_Timeout = 0, cf_InsecureSkipAttestationVerify = False,
     cf_CertPEM = [], cf_KeyPEM = [], cf_HRKCertPath = [], cf_HSKCekCertPath = [],
     cf_TrustedHRKCert = [], cf_CertDir = [], cf_CertCacheTTL = 0,
     cf_cachedCertPEM = [], cf_cachedKeyPEM = [], cf_cachedAt = 0, cf_cachedNotAfter = 0\<rparr>"

text \<open>The rule for one whitelist entry, and the loop over the list that reports the first failure.\<close>

definition checkMeasurement :: "gostring \<Rightarrow> unit result" where
  "checkMeasurement m =
     (if length m \<noteq> HashSize * 2
      then Inl (ErrNew ''teetls: ExpectedMeasurements entry is not 64 hex characters'')
      else case hexDecode m of
             None \<Rightarrow> Inl (ErrWrap ''teetls: ExpectedMeasurements entry is not valid hex''
                           (ErrNew ''encoding/hex: invalid byte''))
           | Some _ \<Rightarrow> Inr ())"

fun validateExpectedMeasurements :: "gostring list \<Rightarrow> unit result" where
  "validateExpectedMeasurements [] = Inr ()"
| "validateExpectedMeasurements (m # ms) =
     bindRes (checkMeasurement m) (\<lambda>_. validateExpectedMeasurements ms)"

definition Validate :: "Config \<Rightarrow> unit result" where
  "Validate c =
     (if cf_Mode c \<noteq> [] \<and> cf_Mode c \<noteq> ModeStrict \<and> cf_Mode c \<noteq> ModePermissive
      then Inl (ErrNew ''invalid attestation mode'')
      else if (length (cf_CertPEM c) = 0) \<noteq> (length (cf_KeyPEM c) = 0)
      then Inl (ErrNew ''teetls: CertPEM and KeyPEM must be configured together'')
      else if (cf_HRKCertPath c = []) \<noteq> (cf_HSKCekCertPath c = [])
      then Inl (ErrNew ''teetls: HRKCertPath and HSKCekCertPath must be configured together'')
      else validateExpectedMeasurements (cf_ExpectedMeasurements c))"

definition mode :: "Config \<Rightarrow> AttestationMode" where
  "mode c = (if cf_Mode c = [] then ModeStrict else cf_Mode c)"

definition timeout :: "Config \<Rightarrow> int" where
  "timeout c = (if cf_Timeout c \<le> 0 then defaultTimeout else cf_Timeout c)"

text \<open>The two clock readings of the check are its arguments.\<close>

definition cachedCertificateValidLocked :: "Config \<Rightarrow> int \<Rightarrow> gotime \<Rightarrow> gotime \<Rightarrow> bool" where
  "cachedCertificateValidLocked c ttl now1 now2 \<longleftrightarrow>
     \<not> (length (cf_cachedCertPEM c) = 0 \<or> length (cf_cachedKeyPEM c) = 0) \<and>
     \<not> (now1 - cf_cachedAt c \<ge> ttl) \<and>
     cf_cachedNotAfter c \<noteq> 0 \<and>
     now2 + nsMinute < cf_cachedNotAfter c"

definition GetOrGenerateCertificateContext ::
    "gmsm \<Rightarrow> certEntropy \<Rightarrow> (nat \<Rightarrow> gotime) \<Rightarrow> gocontext option \<Rightarrow> (Config, bytes \<times> bytes) io" where
  "GetOrGenerateCertificateContext g rnd clk ctxp c =
     (if length (cf_CertPEM c) > 0 \<and> length (cf_KeyPEM c) > 0 then (Inr (cf_CertPEM c, cf_KeyPEM c), c)
      else if cf_EvidenceProvider c = None
      then (Inl (ErrNew ''teetls: requires either CertPEM/KeyPEM or EvidenceProvider''), c)
      else
        let ttl = (if cf_CertCacheTTL c \<le> 0 then nsHour else cf_CertCacheTTL c)
        in if cachedCertificateValidLocked c ttl (clk 0) (clk 1)
              \<or> cachedCertificateValidLocked c ttl (clk 2) (clk 3)
           then (Inr (cf_cachedCertPEM c, cf_cachedKeyPEM c), c)
           else
             case wrapRes ''generate certificate''
                 (GenerateSM2CertificateWithEvidenceContext g rnd (clk 4)
                   (Some (case ctxp of None \<Rightarrow> contextBackground | Some x \<Rightarrow> x)) (cf_EvidenceProvider c)) of
               Inl e \<Rightarrow> (Inl e, c)
             | Inr (certPEM, keyPEM) \<Rightarrow>
                 (case wrapRes ''parse generated certificate'' (ParseCertificatePEM g certPEM) of
                    Inl e \<Rightarrow> (Inl e, c)
                  | Inr cert \<Rightarrow>
                      (Inr (certPEM, keyPEM),
                       c\<lparr>cf_cachedCertPEM := certPEM, cf_cachedKeyPEM := keyPEM,
                         cf_cachedAt := clk 5, cf_cachedNotAfter := crt_NotAfter cert\<rparr>)))"

definition GetOrGenerateCertificate ::
    "gmsm \<Rightarrow> certEntropy \<Rightarrow> (nat \<Rightarrow> gotime) \<Rightarrow> (Config, bytes \<times> bytes) io" where
  "GetOrGenerateCertificate g rnd clk = GetOrGenerateCertificateContext g rnd clk (Some contextBackground)"

section \<open>Properties of the configuration\<close>

lemma checkMeasurement_Inr: "checkMeasurement m = Inr u \<longleftrightarrow> (\<exists>d. length d = 32 \<and> EqualFold m (hexEncode d))"
proof
  assume "checkMeasurement m = Inr u"
  then obtain d where "length m = 64" "hexDecode m = Some d"
    by (auto simp: checkMeasurement_def split: if_splits option.splits)
  then show "\<exists>d. length d = 32 \<and> EqualFold m (hexEncode d)"
    using hexDecode_Some[of m d] hexDecode_iff_EqualFold[of m d] by auto
next
  assume "\<exists>d. length d = 32 \<and> EqualFold m (hexEncode d)"
  then obtain d where "length d = 32" "hexDecode m = Some d" using hexDecode_iff_EqualFold by auto
  then show "checkMeasurement m = Inr u" using hexDecode_Some[of m d] by (simp add: checkMeasurement_def)
qed

lemma validateExpectedMeasurements_Inr:
  "validateExpectedMeasurements ms = Inr u \<longleftrightarrow> (\<forall>m \<in> set ms. \<exists>d. length d = 32 \<and> EqualFold m (hexEncode d))"
  by (induction ms) (auto simp: bindRes_Inr checkMeasurement_Inr)

lemma Validate_Inr:
  "Validate c = Inr u \<longleftrightarrow>
     cf_Mode c \<in> {[], ModeStrict, ModePermissive} \<and>
     (cf_CertPEM c = [] \<longleftrightarrow> cf_KeyPEM c = []) \<and> (cf_HRKCertPath c = [] \<longleftrightarrow> cf_HSKCekCertPath c = []) \<and>
     validateExpectedMeasurements (cf_ExpectedMeasurements c) = Inr ()"
  by (auto simp: Validate_def)

text \<open>
  C38: \<^verbatim>\<open>Config.Validate\<close> accepts a configuration exactly when its mode is unset, strict or permissive, key and
  certificate and the two chain paths are given together, and every whitelist entry could match: it is the
  hexadecimal form, in any letter case, of some 32-byte measurement.
\<close>

theorem validate_iff:
  "Validate c = Inr () \<longleftrightarrow>
     cf_Mode c \<in> {[], ModeStrict, ModePermissive} \<and>
     (cf_CertPEM c = [] \<longleftrightarrow> cf_KeyPEM c = []) \<and> (cf_HRKCertPath c = [] \<longleftrightarrow> cf_HSKCekCertPath c = []) \<and>
     set (cf_ExpectedMeasurements c) \<subseteq> {m. \<exists>d. length d = HashSize \<and> EqualFold m (hexEncode d)}"
  unfolding Validate_Inr validateExpectedMeasurements_Inr by auto

text \<open>What a call of \<^verbatim>\<open>GetOrGenerateCertificateContext\<close> may hand out.\<close>

definition effectiveTTL :: "Config \<Rightarrow> int" where
  "effectiveTTL c = (if cf_CertCacheTTL c \<le> 0 then nsHour else cf_CertCacheTTL c)"

definition configuredPair :: "Config \<Rightarrow> bytes \<times> bytes \<Rightarrow> bool" where
  "configuredPair c ck \<longleftrightarrow> ck = (cf_CertPEM c, cf_KeyPEM c) \<and> cf_CertPEM c \<noteq> [] \<and> cf_KeyPEM c \<noteq> []"

definition freshCachedPair :: "Config \<Rightarrow> (nat \<Rightarrow> gotime) \<Rightarrow> bytes \<times> bytes \<Rightarrow> bool" where
  "freshCachedPair c clk ck \<longleftrightarrow> ck = (cf_cachedCertPEM c, cf_cachedKeyPEM c) \<and> fst ck \<noteq> [] \<and> snd ck \<noteq> [] \<and>
     (\<exists>i. clk i - cf_cachedAt c < effectiveTTL c \<and> clk (i + 1) + nsMinute < cf_cachedNotAfter c)"

lemma GetOrGenerate_miss:
  assumes "\<not> (length (cf_CertPEM c) > 0 \<and> length (cf_KeyPEM c) > 0)" "cf_EvidenceProvider c = Some p"
    and "\<not> (cachedCertificateValidLocked c (if cf_CertCacheTTL c \<le> 0 then nsHour else cf_CertCacheTTL c) (clk 0) (clk 1) \<or>
      cachedCertificateValidLocked c (if cf_CertCacheTTL c \<le> 0 then nsHour else cf_CertCacheTTL c) (clk 2) (clk 3))"
  shows "GetOrGenerateCertificateContext g rnd clk ctxp c =
    (case wrapRes ''generate certificate''
        (GenerateSM2CertificateWithEvidenceContext g rnd (clk 4) (Some (case ctxp of None \<Rightarrow> contextBackground | Some x \<Rightarrow> x)) (Some p)) of
       Inl e \<Rightarrow> (Inl e, c)
     | Inr (certPEM, keyPEM) \<Rightarrow>
         (case wrapRes ''parse generated certificate'' (ParseCertificatePEM g certPEM) of
            Inl e \<Rightarrow> (Inl e, c)
          | Inr cert \<Rightarrow> (Inr (certPEM, keyPEM), c\<lparr>cf_cachedCertPEM := certPEM, cf_cachedKeyPEM := keyPEM,
              cf_cachedAt := clk 5, cf_cachedNotAfter := crt_NotAfter cert\<rparr>)))"
  using assms unfolding GetOrGenerateCertificateContext_def Let_def
  by (simp only: if_True if_False simp_thms option.distinct)

text \<open>
  Every certificate \<^verbatim>\<open>GetOrGenerateCertificateContext\<close> returns is the configured pair, or a cached pair that
  is younger than the cache lifetime and more than a minute from expiry by the clock of this call, or one
  generated in this call from the provider and stored with its time and its own expiry; on an error the
  cache is as before, and no call changes anything else of the configuration.
\<close>

theorem certificate_cache_fresh:
  "case GetOrGenerateCertificateContext g rnd clk ctxp c of
     (Inl e, c') \<Rightarrow> c' = c
   | (Inr ck, c') \<Rightarrow>
       c' = c \<and> (configuredPair c ck \<or> freshCachedPair c clk ck) \<or>
       (\<exists>p cert. cf_EvidenceProvider c = Some p \<and>
          GenerateSM2CertificateWithEvidenceContext g rnd (clk 4)
            (Some (case ctxp of None \<Rightarrow> contextBackground | Some x \<Rightarrow> x)) (Some p) = Inr ck \<and>
          ParseCertificatePEM g (fst ck) = Inr cert \<and>
          c' = c\<lparr>cf_cachedCertPEM := fst ck, cf_cachedKeyPEM := snd ck, cf_cachedAt := clk 5,
                 cf_cachedNotAfter := crt_NotAfter cert\<rparr>)"
proof -
  let ?ttl = "if cf_CertCacheTTL c \<le> 0 then nsHour else cf_CertCacheTTL c"
  consider (conf) "length (cf_CertPEM c) > 0 \<and> length (cf_KeyPEM c) > 0"
    | (none) "\<not> (length (cf_CertPEM c) > 0 \<and> length (cf_KeyPEM c) > 0)" "cf_EvidenceProvider c = None"
    | (hit) "\<not> (length (cf_CertPEM c) > 0 \<and> length (cf_KeyPEM c) > 0)" "cf_EvidenceProvider c \<noteq> None"
        "cachedCertificateValidLocked c ?ttl (clk 0) (clk 1) \<or> cachedCertificateValidLocked c ?ttl (clk 2) (clk 3)"
    | (miss) p where "\<not> (length (cf_CertPEM c) > 0 \<and> length (cf_KeyPEM c) > 0)" "cf_EvidenceProvider c = Some p"
        "\<not> (cachedCertificateValidLocked c ?ttl (clk 0) (clk 1) \<or> cachedCertificateValidLocked c ?ttl (clk 2) (clk 3))"
    by blast
  then show ?thesis
  proof cases
    case conf
    then show ?thesis by (auto simp: GetOrGenerateCertificateContext_def configuredPair_def)
  next
    case none
    then show ?thesis by (auto simp: GetOrGenerateCertificateContext_def)
  next
    case hit
    have "\<exists>i. clk i - cf_cachedAt c < ?ttl \<and> clk (i + 1) + nsMinute < cf_cachedNotAfter c"
      using hit(3) by (auto simp: cachedCertificateValidLocked_def intro: exI[of _ 0] exI[of _ 2])
    moreover have "cf_cachedCertPEM c \<noteq> []" "cf_cachedKeyPEM c \<noteq> []"
      using hit(3) by (auto simp: cachedCertificateValidLocked_def)
    moreover have "GetOrGenerateCertificateContext g rnd clk ctxp c = (Inr (cf_cachedCertPEM c, cf_cachedKeyPEM c), c)"
      using hit unfolding GetOrGenerateCertificateContext_def Let_def by (simp only: if_True if_False simp_thms)
    ultimately show ?thesis by (simp add: freshCachedPair_def effectiveTTL_def)
  next
    case miss
    from GetOrGenerate_miss[OF miss] show ?thesis using miss(2) by (auto simp: wrapRes_def split: sum.splits prod.splits)
  qed
qed

end
