(* ===== verification/Csv_Verify.thy ===== *)
theory Csv_Verify
  imports Csv_Report
begin

text \<open>
  Verification of CSV reports (\<^verbatim>\<open>pkg/csvattest/verify.go\<close>): parsing a report into its fields, the PEK
  signature over its first bytes, the choice of the local certificate material and the
  HRK, HSK, CEK, PEK chain. A Go function that returns a value and an error returns a pair here,
  since the callers may look at the value even when there is an error. The file system is a
  parameter \<open>fs\<close>, what \<^verbatim>\<open>os.ReadFile\<close> returns for each path.
\<close>

section \<open>Data\<close>

definition ErrMissingCertChain :: goerr where
  "ErrMissingCertChain = ErrNew ''missing CSV certificate chain''"
definition ErrUntrustedHRK :: goerr where
  "ErrUntrustedHRK = ErrNew ''untrusted HRK certificate''"

type_synonym filesystem = "gostring \<Rightarrow> bytes result"

record PubKeyDetails =
  pd_CurveID :: "32 word"
  pd_UserID :: gostring
  pd_UserIDHex :: gostring
  pd_QXHex :: gostring
  pd_QYHex :: gostring

record RootCertDetails =
  rd_KeyUsage :: "32 word"
  rd_PubKey :: PubKeyDetails
  rd_SelfSignatureVerified :: bool
  rd_SignedByHRKVerified :: bool

record CSVCertDetails =
  cd_PubKeyUsage :: "32 word"
  cd_Sig1Usage :: "32 word"
  cd_Sig2Usage :: "32 word"
  cd_PubKey :: PubKeyDetails
  cd_SignedByHSKVerified :: bool
  cd_SignedByCEKVerified :: bool

record CertChainDetails =
  ch_HRK :: RootCertDetails
  ch_HSK :: RootCertDetails
  ch_CEK :: CSVCertDetails
  ch_PEK :: CSVCertDetails

record CertChainInput =
  ci_HRK :: bytes
  ci_HSKCEK :: bytes
  ci_Source :: gostring

record VerificationResult =
  vr_ReportSize :: nat
  vr_PubkeyDigest :: bytes
  vr_VMID :: bytes
  vr_VMVersion :: bytes
  vr_UserData :: bytes
  vr_MNonce :: bytes
  vr_Digest :: bytes
  vr_Policy :: "32 word"
  vr_SigUsage :: "32 word"
  vr_SigAlgo :: "32 word"
  vr_ANonce :: "32 word"
  vr_Signature :: bytes
  vr_PEKCert :: bytes
  vr_ChipID :: bytes
  vr_ChipIDASCII :: gostring
  vr_Reserved2 :: bytes
  vr_MAC :: bytes
  vr_PEKDetails :: CSVCertDetails
  vr_ReportVerified :: bool
  vr_ChainVerified :: bool
  vr_ChainSource :: gostring
  vr_HRKURL :: gostring
  vr_HSKCEKURL :: gostring
  vr_CertDetails :: "CertChainDetails option"
  vr_rawReport :: bytes

record VerifyOptions =
  vo_VerifyChain :: bool
  vo_TrustedHRKCertBytes :: bytes
  vo_TrustedHRKCertPath :: gostring
  vo_HSKCekCertBytes :: bytes
  vo_HSKCekCertPath :: gostring
  vo_CertDir :: gostring
  vo_HRKCertBytes :: bytes
  vo_HRKCertPath :: gostring

record hygonPubKey =
  hp_Key :: sm2pub
  hp_UserID :: bytes
  hp_Details :: PubKeyDetails

text \<open>The zero values of the structs.\<close>

definition zeroPubKeyDetails :: PubKeyDetails where
  "zeroPubKeyDetails = \<lparr>pd_CurveID = 0, pd_UserID = [], pd_UserIDHex = [], pd_QXHex = [], pd_QYHex = []\<rparr>"
definition zeroRootCertDetails :: RootCertDetails where
  "zeroRootCertDetails = \<lparr>rd_KeyUsage = 0, rd_PubKey = zeroPubKeyDetails,
     rd_SelfSignatureVerified = False, rd_SignedByHRKVerified = False\<rparr>"
definition zeroCSVCertDetails :: CSVCertDetails where
  "zeroCSVCertDetails = \<lparr>cd_PubKeyUsage = 0, cd_Sig1Usage = 0, cd_Sig2Usage = 0,
     cd_PubKey = zeroPubKeyDetails, cd_SignedByHSKVerified = False, cd_SignedByCEKVerified = False\<rparr>"
definition zeroCertChainDetails :: CertChainDetails where
  "zeroCertChainDetails = \<lparr>ch_HRK = zeroRootCertDetails, ch_HSK = zeroRootCertDetails,
     ch_CEK = zeroCSVCertDetails, ch_PEK = zeroCSVCertDetails\<rparr>"

section \<open>Certificates\<close>

definition parseHygonPubKey :: "bytes \<Rightarrow> hygonPubKey result" where
  "parseHygonPubKey data =
     (if length data < OffsetECCPubKeyUserID + 256 then Inl (ErrNew ''public key data too short'')
      else
        let curveID = LittleEndian_Uint32 data
        in if curveID \<noteq> CurveIDSM2 then Inl (ErrNew ''unsupported curve ID'')
           else
             let xBytes = ReverseCopy (slice data OffsetECCPubKeyQX (OffsetECCPubKeyQX + 32));
                 yBytes = ReverseCopy (slice data OffsetECCPubKeyQY (OffsetECCPubKeyQY + 32));
                 uidData = drop OffsetECCPubKeyUserID data;
                 uidLen = unat (LittleEndian_Uint16 uidData)
             in if uidLen > length uidData - 2 then Inl (ErrNew ''invalid SM2 user id length'')
                else
                  let userID = slice uidData 2 (2 + uidLen)
                  in Inr \<lparr>hp_Key = \<lparr>pk_X = nat_of_be xBytes, pk_Y = nat_of_be yBytes\<rparr>,
                          hp_UserID = userID,
                          hp_Details = \<lparr>pd_CurveID = curveID, pd_UserID = userID,
                            pd_UserIDHex = hexEncode userID, pd_QXHex = hexEncode xBytes,
                            pd_QYHex = hexEncode yBytes\<rparr>\<rparr>)"

definition ParseRootCertDetails :: "bytes \<Rightarrow> RootCertDetails result" where
  "ParseRootCertDetails cert =
     (if length cert < HrkCertSize then Inl (ErrNew ''certificate is too short'')
      else bindRes (parseHygonPubKey (drop OffsetRootPubKey cert)) (\<lambda>pub.
        Inr (zeroRootCertDetails\<lparr>rd_KeyUsage := LittleEndian_Uint32 (drop OffsetRootKeyUsage cert),
                                 rd_PubKey := hp_Details pub\<rparr>)))"

definition ParseCSVCertDetails :: "bytes \<Rightarrow> CSVCertDetails result" where
  "ParseCSVCertDetails cert =
     (if length cert < CSVCertSize then Inl (ErrNew ''certificate is too short'')
      else bindRes (parseHygonPubKey (drop OffsetCSVPubKey cert)) (\<lambda>pub.
        Inr (zeroCSVCertDetails\<lparr>cd_PubKeyUsage := LittleEndian_Uint32 (drop OffsetCSVPubKeyUsage cert),
                                cd_Sig1Usage := LittleEndian_Uint32 (drop OffsetCSVSig1Usage cert),
                                cd_Sig2Usage := LittleEndian_Uint32 (drop OffsetCSVSig2Usage cert),
                                cd_PubKey := hp_Details pub\<rparr>)))"

definition ParseHygonSignature :: "bytes \<Rightarrow> nat \<times> nat" where
  "ParseHygonSignature sig =
     (if length sig < OffsetHygonSigS + 32 then (0, 0)
      else (nat_of_be (ReverseCopy (slice sig OffsetHygonSigR (OffsetHygonSigR + 32))),
            nat_of_be (ReverseCopy (slice sig OffsetHygonSigS (OffsetHygonSigS + 32)))))"

definition verifyHygonSignature :: "gmsm \<Rightarrow> hygonPubKey \<Rightarrow> bytes \<Rightarrow> bytes \<Rightarrow> bool" where
  "verifyHygonSignature g pub msg sig =
     (let (r, s) = ParseHygonSignature sig in sm2_Sm2Verify g (hp_Key pub) msg (hp_UserID pub) r s)"

text \<open>
  \<^verbatim>\<open>VerifyCertChain\<close> fills in the details as it goes and returns them with its error: the steps run on
  the details as their state.
\<close>

definition chainStep :: "(CertChainDetails \<Rightarrow> CertChainDetails) \<Rightarrow> (CertChainDetails, unit) io" where
  "chainStep f d = (Inr (), f d)"

definition chainCheck :: "(CertChainDetails \<Rightarrow> bool) \<Rightarrow> string \<Rightarrow> (CertChainDetails, unit) io" where
  "chainCheck ok msg d = (if ok d then (Inr (), d) else (Inl (ErrNew msg), d))"

definition chainSteps :: "gmsm \<Rightarrow> bytes \<Rightarrow> bytes \<Rightarrow> bytes \<Rightarrow> bytes \<Rightarrow> (CertChainDetails, unit) io" where
  "chainSteps g hrk hsk cek pekCert =
     bindIO (liftRes (wrapRes ''parse HRK cert'' (ParseRootCertDetails hrk))) (\<lambda>dHRK.
     bindIO (chainStep (ch_HRK_update (\<lambda>_. dHRK))) (\<lambda>_.
     bindIO (liftRes (wrapRes ''parse HSK cert'' (ParseRootCertDetails hsk))) (\<lambda>dHSK.
     bindIO (chainStep (ch_HSK_update (\<lambda>_. dHSK))) (\<lambda>_.
     bindIO (liftRes (wrapRes ''parse CEK cert'' (ParseCSVCertDetails cek))) (\<lambda>dCEK.
     bindIO (chainStep (ch_CEK_update (\<lambda>_. dCEK))) (\<lambda>_.
     bindIO (liftRes (wrapRes ''parse PEK cert'' (ParseCSVCertDetails pekCert))) (\<lambda>dPEK.
     bindIO (chainStep (ch_PEK_update (\<lambda>_. dPEK))) (\<lambda>_.
     bindIO (chainCheck (\<lambda>d. rd_KeyUsage (ch_HRK d) = KeyUsageHRK) ''invalid HRK key_usage'') (\<lambda>_.
     bindIO (chainCheck (\<lambda>d. rd_KeyUsage (ch_HSK d) = KeyUsageHSK) ''invalid HSK key_usage'') (\<lambda>_.
     bindIO (chainCheck (\<lambda>d. cd_PubKeyUsage (ch_CEK d) = KeyUsageCEK) ''invalid CEK pubkey_usage'') (\<lambda>_.
     bindIO (chainCheck (\<lambda>d. cd_Sig1Usage (ch_CEK d) = KeyUsageHSK) ''invalid CEK sig1_usage'') (\<lambda>_.
     bindIO (chainCheck (\<lambda>d. cd_Sig2Usage (ch_CEK d) = KeyUsageInvalid) ''invalid CEK sig2_usage'') (\<lambda>_.
     bindIO (chainCheck (\<lambda>d. cd_PubKeyUsage (ch_PEK d) = KeyUsagePEK) ''invalid PEK pubkey_usage'') (\<lambda>_.
     bindIO (liftRes (wrapRes ''parse HRK public key'' (parseHygonPubKey (drop OffsetRootPubKey hrk)))) (\<lambda>hrkPub.
     bindIO (liftRes (wrapRes ''parse HSK public key'' (parseHygonPubKey (drop OffsetRootPubKey hsk)))) (\<lambda>hskPub.
     bindIO (liftRes (wrapRes ''parse CEK public key'' (parseHygonPubKey (drop OffsetCSVPubKey cek)))) (\<lambda>cekPub.
     bindIO (chainStep (ch_HRK_update (rd_SelfSignatureVerified_update
       (\<lambda>_. verifyHygonSignature g hrkPub (take OffsetRootSig hrk) (drop OffsetRootSig hrk))))) (\<lambda>_.
     bindIO (chainCheck (\<lambda>d. rd_SelfSignatureVerified (ch_HRK d))
       ''HRK self-signature verification failed'') (\<lambda>_.
     bindIO (chainStep (ch_HSK_update (rd_SignedByHRKVerified_update
       (\<lambda>_. verifyHygonSignature g hrkPub (take OffsetRootSig hsk) (drop OffsetRootSig hsk))))) (\<lambda>_.
     bindIO (chainCheck (\<lambda>d. rd_SignedByHRKVerified (ch_HSK d))
       ''HRK verification of HSK signature failed'') (\<lambda>_.
     bindIO (chainStep (ch_CEK_update (cd_SignedByHSKVerified_update
       (\<lambda>_. verifyHygonSignature g hskPub (take OffsetCSVSig1Usage cek) (drop OffsetCSVSig1 cek))))) (\<lambda>_.
     bindIO (chainCheck (\<lambda>d. cd_SignedByHSKVerified (ch_CEK d))
       ''HSK verification of CEK signature failed'') (\<lambda>_.
     bindIO (chainStep (ch_PEK_update (cd_SignedByCEKVerified_update
       (\<lambda>_. verifyHygonSignature g cekPub (take OffsetCSVSig1Usage pekCert) (drop OffsetCSVSig1 pekCert))))) (\<lambda>_.
     chainCheck (\<lambda>d. cd_SignedByCEKVerified (ch_PEK d))
       ''CEK verification of PEK signature failed''))))))))))))))))))))))))"

definition VerifyCertChain ::
    "gmsm \<Rightarrow> CertChainInput \<Rightarrow> bytes \<Rightarrow> CertChainDetails option \<times> goerr option" where
  "VerifyCertChain g certs pekCert =
     (if length (ci_HRK certs) < HrkCertSize then (None, Some (ErrNew ''hrk.cert is too short''))
      else if length (ci_HSKCEK certs) < HskCekSize
      then (None, Some (ErrNew ''hsk_cek.cert is too short''))
      else
        let hrk = take HrkCertSize (ci_HRK certs);
            hsk = take HrkCertSize (ci_HSKCEK certs);
            cek = slice (ci_HSKCEK certs) HrkCertSize HskCekSize
        in case chainSteps g hrk hsk cek pekCert zeroCertChainDetails of
             (Inl e, d) \<Rightarrow> (Some d, Some e)
           | (Inr _, d) \<Rightarrow> (Some d, None))"

section \<open>Reports\<close>

definition ChipIDASCII :: "bytes \<Rightarrow> gostring result" where
  "ChipIDASCII chipID =
     (let trimmed = TrimSpace (TrimRightByte 0 chipID)
      in if trimmed = [] then Inl (ErrNew ''ChipID is empty'')
         else if \<exists>b \<in> set trimmed. b < 0x20 \<or> b > 0x7e
         then Inl (ErrNew ''ChipID contains a non-printable character'')
         else Inr trimmed)"

definition reportFields :: "bytes \<Rightarrow> VerificationResult" where
  "reportFields report =
     (let anonce = LittleEndian_Uint32 (slice report OffsetANonce (OffsetANonce + 4))
      in \<lparr>vr_ReportSize = length report,
          vr_PubkeyDigest = slice report OffsetReportPubkeyDigest (OffsetReportPubkeyDigest + HashSize),
          vr_VMID = slice report OffsetReportVMID (OffsetReportVMID + 16),
          vr_VMVersion = slice report OffsetReportVMVersion (OffsetReportVMVersion + 16),
          vr_UserData = UnmaskWords (slice report OffsetUserData (OffsetUserData + UserDataSize)) anonce,
          vr_MNonce = UnmaskWords (slice report OffsetMNonce (OffsetMNonce + NonceSize)) anonce,
          vr_Digest = UnmaskWords (slice report OffsetMeasure (OffsetMeasure + HashSize)) anonce,
          vr_Policy = LittleEndian_Uint32
            (UnmaskWords (slice report OffsetReportPolicy (OffsetReportPolicy + 4)) anonce),
          vr_SigUsage = LittleEndian_Uint32
            (UnmaskWords (slice report OffsetReportSigUsage (OffsetReportSigUsage + 4)) anonce),
          vr_SigAlgo = LittleEndian_Uint32
            (UnmaskWords (slice report OffsetReportSigAlgo (OffsetReportSigAlgo + 4)) anonce),
          vr_ANonce = anonce,
          vr_Signature = slice report OffsetReportSig1 (OffsetReportSig1 + 144),
          vr_PEKCert = UnmaskWords (slice report OffsetPEKCert (OffsetPEKCert + CSVCertSize)) anonce,
          vr_ChipID = UnmaskWords (slice report OffsetChipID (OffsetChipID + ChipIDSize)) anonce,
          vr_ChipIDASCII = [],
          vr_Reserved2 = slice report OffsetReserved2 (OffsetReserved2 + SealingKeySize),
          vr_MAC = slice report OffsetMAC (OffsetMAC + HashSize),
          vr_PEKDetails = zeroCSVCertDetails,
          vr_ReportVerified = False, vr_ChainVerified = False, vr_ChainSource = [],
          vr_HRKURL = HRKCertURL, vr_HSKCEKURL = [], vr_CertDetails = None,
          vr_rawReport = report\<rparr>)"

definition ParseReport :: "bytes \<Rightarrow> VerificationResult option \<times> goerr option" where
  "ParseReport data =
     (if length data < ReportSize
      then (None, Some (ErrWrap ''report has too few bytes'' ErrShortBuffer))
      else
        let result = reportFields (take ReportSize data)
        in case ChipIDASCII (vr_ChipID result) of
             Inl e \<Rightarrow> (Some result, Some (ErrWrap ''failed to parse ChipID'' e))
           | Inr chipIDASCII \<Rightarrow>
               let result1 = result\<lparr>vr_ChipIDASCII := chipIDASCII,
                                    vr_HSKCEKURL := KDSCertURL @ QueryEscape chipIDASCII\<rparr>
               in case ParseCSVCertDetails (vr_PEKCert result1) of
                    Inl e \<Rightarrow> (Some result1,
                      Some (ErrWrap ''failed to parse PEK certificate from report'' e))
                  | Inr pekDetails \<Rightarrow> (Some (result1\<lparr>vr_PEKDetails := pekDetails\<rparr>), None))"

text \<open>The pointer receiver may be nil; the flag is set in the caller's result.\<close>

definition VerifyReportPEKSignature ::
    "gmsm \<Rightarrow> VerificationResult option \<Rightarrow> VerificationResult result" where
  "VerifyReportPEKSignature g resp =
     (case resp of
        None \<Rightarrow> Inl (ErrNew ''verification result is nil'')
      | Some res \<Rightarrow>
          if length (vr_PEKCert res) < CSVCertSize
          then Inl (ErrWrap ''PEK certificate is too short'' ErrShortBuffer)
          else if length (vr_Signature res) < OffsetHygonSigS + 32
          then Inl (ErrWrap ''report signature is too short'' ErrShortBuffer)
          else bindRes (wrapRes ''failed to parse PEK public key from report''
                 (parseHygonPubKey (drop OffsetCSVPubKey (vr_PEKCert res)))) (\<lambda>pekPub.
            if length (vr_rawReport res) < SignedSize
            then Inl (ErrWrap ''report is too short'' ErrShortBuffer)
            else
              let signed = take SignedSize (vr_rawReport res);
                  (r, s) = ParseHygonSignature (vr_Signature res)
              in if \<not> sm2_Sm2Verify g (hp_Key pekPub) signed (hp_UserID pekPub) r s
                 then Inl (ErrNew ''PEK report signature verification failed'')
                 else Inr (res\<lparr>vr_ReportVerified := True\<rparr>)))"

section \<open>Certificate material\<close>

definition readFixedFile :: "filesystem \<Rightarrow> gostring \<Rightarrow> nat \<Rightarrow> bytes result" where
  "readFixedFile fs path n =
     bindRes (fs path) (\<lambda>data.
       if length data < n then Inl (ErrNew ''file is too short'') else Inr (take n data))"

definition LoadCertChainFromFiles :: "filesystem \<Rightarrow> gostring \<Rightarrow> gostring \<Rightarrow> CertChainInput result" where
  "LoadCertChainFromFiles fs hrkPath hskCekPath =
     bindRes (wrapRes ''read hrk cert'' (readFixedFile fs hrkPath HrkCertSize)) (\<lambda>hrk.
     bindRes (wrapRes ''read hsk_cek cert'' (readFixedFile fs hskCekPath HskCekSize)) (\<lambda>hskCek.
       Inr \<lparr>ci_HRK = hrk, ci_HSKCEK = hskCek, ci_Source = stringBytes ''local file''\<rparr>))"

definition LoadLocalCertChain :: "filesystem \<Rightarrow> gostring \<Rightarrow> CertChainInput result" where
  "LoadLocalCertChain fs certDir =
     LoadCertChainFromFiles fs (filepathJoin2 certDir (stringBytes ''hrk.cert''))
       (filepathJoin2 certDir (stringBytes ''hsk_cek.cert''))"

definition LoadCertChain :: "filesystem \<Rightarrow> gostring \<Rightarrow> gostring \<Rightarrow> CertChainInput result" where
  "LoadCertChain fs certDir chipIDASCII =
     (case LoadLocalCertChain fs certDir of
        Inl e \<Rightarrow> Inl (ErrWrap ''local certificates unavailable'' ErrMissingCertChain)
      | Inr local \<Rightarrow> Inr local)"

definition loadChainFromOptions :: "filesystem \<Rightarrow> VerifyOptions \<Rightarrow> gostring \<Rightarrow> CertChainInput result" where
  "loadChainFromOptions fs opts chipIDASCII =
     (let trustedHRK = (if vo_TrustedHRKCertBytes opts = [] then vo_HRKCertBytes opts
                        else vo_TrustedHRKCertBytes opts);
          path1 = TrimSpace (vo_TrustedHRKCertPath opts);
          trustedHRKPath = (if path1 = [] then TrimSpace (vo_HRKCertPath opts) else path1);
          hskCek = vo_HSKCekCertBytes opts;
          hskCekPath = TrimSpace (vo_HSKCekCertPath opts)
      in if length trustedHRK > 0 \<or> length hskCek > 0 then
           if length trustedHRK = 0 \<or> length hskCek = 0
           then Inl (ErrWrap ''trusted HRK and HSK/CEK bytes must be provided together'' ErrMissingCertChain)
           else Inr \<lparr>ci_HRK = trustedHRK, ci_HSKCEK = hskCek,
                     ci_Source = stringBytes ''in-memory trusted HRK and HSK/CEK bytes''\<rparr>
         else if trustedHRKPath \<noteq> [] \<or> hskCekPath \<noteq> [] then
           if trustedHRKPath = [] \<or> hskCekPath = []
           then Inl (ErrWrap ''trusted HRK and HSK/CEK paths must be provided together'' ErrMissingCertChain)
           else LoadCertChainFromFiles fs trustedHRKPath hskCekPath
         else if TrimSpace (vo_CertDir opts) \<noteq> [] then LoadCertChain fs (vo_CertDir opts) chipIDASCII
         else Inl (ErrWrap ''no trusted HRK and HSK/CEK material configured'' ErrMissingCertChain))"

definition VerifyReportWithOptions ::
    "gmsm \<Rightarrow> filesystem \<Rightarrow> bytes \<Rightarrow> VerifyOptions \<Rightarrow> VerificationResult option \<times> goerr option" where
  "VerifyReportWithOptions g fs data opts =
     (case ParseReport data of
        (resp, Some e) \<Rightarrow> (resp, Some e)
      | (resp, None) \<Rightarrow>
          (case VerifyReportPEKSignature g resp of
             Inl e \<Rightarrow> (resp, Some e)
           | Inr res \<Rightarrow>
               if \<not> vo_VerifyChain opts then (Some res, None)
               else
                 case loadChainFromOptions fs opts (vr_ChipIDASCII res) of
                   Inl e \<Rightarrow> (Some res, Some e)
                 | Inr certs \<Rightarrow>
                     let res1 = res\<lparr>vr_ChainSource := ci_Source certs\<rparr>;
                         (details, err) = VerifyCertChain g certs (vr_PEKCert res1);
                         res2 = (case details of None \<Rightarrow> res1
                                 | Some d \<Rightarrow> res1\<lparr>vr_CertDetails := Some d, vr_PEKDetails := ch_PEK d\<rparr>)
                     in case err of
                          Some e \<Rightarrow> (Some res2, Some e)
                        | None \<Rightarrow> (Some (res2\<lparr>vr_ChainVerified := True\<rparr>), None)))"

definition VerifyReportData ::
    "gmsm \<Rightarrow> filesystem \<Rightarrow> bytes \<Rightarrow> gostring \<Rightarrow> bool \<Rightarrow> VerificationResult option \<times> goerr option" where
  "VerifyReportData g fs data certDir verifyChain =
     VerifyReportWithOptions g fs data
       \<lparr>vo_VerifyChain = verifyChain, vo_TrustedHRKCertBytes = [], vo_TrustedHRKCertPath = [],
        vo_HSKCekCertBytes = [], vo_HSKCekCertPath = [], vo_CertDir = certDir,
        vo_HRKCertBytes = [], vo_HRKCertPath = []\<rparr>"

definition VerifyReport ::
    "gmsm \<Rightarrow> filesystem \<Rightarrow> gostring \<Rightarrow> bool \<Rightarrow> VerificationResult option \<times> goerr option" where
  "VerifyReport g fs reportFile0 verifyChain =
     (let reportFile = TrimSpace reportFile0
      in if reportFile = [] then (None, Some (ErrNew ''report file path cannot be empty''))
         else case fs reportFile of
                Inl e \<Rightarrow> (None, Some (ErrWrap ''read report file'' e))
              | Inr data \<Rightarrow> VerifyReportData g fs data (filepathDir reportFile) verifyChain)"

definition VerifyAttestationReport :: "gmsm \<Rightarrow> filesystem \<Rightarrow> bytes \<Rightarrow> bool \<Rightarrow> goerr option" where
  "VerifyAttestationReport g fs reportBuf verifyChain =
     snd (VerifyReportData g fs reportBuf (stringBytes ''.'') verifyChain)"

section \<open>What a verified chain is\<close>

text \<open>
  The specification of the chain: three keys, each parsed from its certificate, whose usages are those
  of the level, with the HRK self-signed and each level signed by the one above.
\<close>

definition usageOf :: "bytes \<Rightarrow> nat \<Rightarrow> 32 word" where
  "usageOf cert off = LittleEndian_Uint32 (drop off cert)"

definition chainTrusted :: "gmsm \<Rightarrow> bytes \<Rightarrow> bytes \<Rightarrow> bytes \<Rightarrow> bytes \<Rightarrow> bool" where
  "chainTrusted g hrk hsk cek pek \<longleftrightarrow>
     (\<exists>hrkPub hskPub cekPub pekPub.
        parseHygonPubKey (drop 0x40 hrk) = Inr hrkPub \<and> parseHygonPubKey (drop 0x40 hsk) = Inr hskPub \<and>
        parseHygonPubKey (drop 0x10 cek) = Inr cekPub \<and> parseHygonPubKey (drop 0x10 pek) = Inr pekPub \<and>
        usageOf hrk 0x24 = KeyUsageHRK \<and> usageOf hsk 0x24 = KeyUsageHSK \<and>
        usageOf cek 0x08 = KeyUsageCEK \<and> usageOf cek 0x414 = KeyUsageHSK \<and>
        usageOf cek 0x61c = KeyUsageInvalid \<and> usageOf pek 0x08 = KeyUsagePEK \<and>
        verifyHygonSignature g hrkPub (take 0x240 hrk) (drop 0x240 hrk) \<and>
        verifyHygonSignature g hrkPub (take 0x240 hsk) (drop 0x240 hsk) \<and>
        verifyHygonSignature g hskPub (take 0x414 cek) (drop 0x41c cek) \<and>
        verifyHygonSignature g cekPub (take 0x414 pek) (drop 0x41c pek))"

definition chainVerified :: "gmsm \<Rightarrow> CertChainInput \<Rightarrow> bytes \<Rightarrow> bool" where
  "chainVerified g certs pek \<longleftrightarrow>
     0x340 \<le> length (ci_HRK certs) \<and> 0xb64 \<le> length (ci_HSKCEK certs) \<and> 0x824 \<le> length pek \<and>
     chainTrusted g (take 0x340 (ci_HRK certs)) (take 0x340 (ci_HSKCEK certs))
       (slice (ci_HSKCEK certs) 0x340 0xb64) pek"

lemma chainStep_Inr [io_success]: "chainStep f d = (Inr u, d') \<longleftrightarrow> d' = f d"
  by (auto simp: chainStep_def)

lemma chainCheck_Inr [io_success]: "chainCheck ok m d = (Inr u, d') \<longleftrightarrow> ok d \<and> d' = d"
  by (auto simp: chainCheck_def)

lemma ParseRootCertDetails_Inr [io_success]:
  "ParseRootCertDetails cert = Inr d \<longleftrightarrow>
     0x340 \<le> length cert \<and> (\<exists>pub. parseHygonPubKey (drop 0x40 cert) = Inr pub \<and>
       d = zeroRootCertDetails\<lparr>rd_KeyUsage := usageOf cert 0x24, rd_PubKey := hp_Details pub\<rparr>)"
  by (auto simp: ParseRootCertDetails_def io_success usageOf_def)

lemma ParseCSVCertDetails_Inr [io_success]:
  "ParseCSVCertDetails cert = Inr d \<longleftrightarrow>
     0x824 \<le> length cert \<and> (\<exists>pub. parseHygonPubKey (drop 0x10 cert) = Inr pub \<and>
       d = zeroCSVCertDetails\<lparr>cd_PubKeyUsage := usageOf cert 0x08, cd_Sig1Usage := usageOf cert 0x414,
         cd_Sig2Usage := usageOf cert 0x61c, cd_PubKey := hp_Details pub\<rparr>)"
  by (auto simp: ParseCSVCertDetails_def io_success usageOf_def)

lemma chainSteps_sound:
  assumes "chainSteps g hrk hsk cek pek d0 = (Inr u, d)"
  shows "chainTrusted g hrk hsk cek pek \<and> 0x824 \<le> length pek"
  using assms
  by (auto simp: chainSteps_def io_success chainTrusted_def)

lemma chainSteps_complete:
  assumes "chainTrusted g hrk hsk cek pek" "0x340 \<le> length hrk" "0x340 \<le> length hsk"
    "0x824 \<le> length cek" "0x824 \<le> length pek"
  shows "\<exists>d. chainSteps g hrk hsk cek pek d0 = (Inr (), d)"
  using assms unfolding chainTrusted_def
  by (auto simp: chainSteps_def io_success)

lemma VerifyCertChain_verified:
  "snd (VerifyCertChain g certs pek) = None \<longleftrightarrow> chainVerified g certs pek"
proof (cases "0x340 \<le> length (ci_HRK certs) \<and> 0xb64 \<le> length (ci_HSKCEK certs)")
  case True
  let ?run = "chainSteps g (take 0x340 (ci_HRK certs)) (take 0x340 (ci_HSKCEK certs))
    (slice (ci_HSKCEK certs) 0x340 0xb64) pek zeroCertChainDetails"
  have "snd (VerifyCertChain g certs pek) = None \<longleftrightarrow> (\<exists>d. ?run = (Inr (), d))"
    using True by (auto simp: VerifyCertChain_def Let_def split: prod.splits sum.splits)
  also have "\<dots> \<longleftrightarrow> chainVerified g certs pek"
    using True chainSteps_sound[of g "take 0x340 (ci_HRK certs)"] chainSteps_complete[of g "take 0x340 (ci_HRK certs)"]
    by (auto simp: chainVerified_def)
  finally show ?thesis .
next
  case False
  then show ?thesis by (auto simp: VerifyCertChain_def chainVerified_def)
qed

section \<open>What a verified report is\<close>

definition anonceOf :: "bytes \<Rightarrow> 32 word" where
  "anonceOf rep = LittleEndian_Uint32 (slice rep 0xbc 0xc0)"

definition pekOf :: "bytes \<Rightarrow> bytes" where
  "pekOf rep = UnmaskWords (slice rep 0x150 0x974) (anonceOf rep)"

definition chipOf :: "bytes \<Rightarrow> gostring result" where
  "chipOf rep = ChipIDASCII (UnmaskWords (slice rep 0x974 0x9b4) (anonceOf rep))"

text \<open>The PEK certificate inside the report signs the first 0xb4 bytes as they are on the wire.\<close>

definition pekSigned :: "gmsm \<Rightarrow> bytes \<Rightarrow> bool" where
  "pekSigned g rep \<longleftrightarrow>
     (\<exists>pub. parseHygonPubKey (drop 0x10 (pekOf rep)) = Inr pub \<and>
        verifyHygonSignature g pub (take 0xb4 rep) (slice rep 0xc0 0x150))"

definition reportAccepted :: "gmsm \<Rightarrow> filesystem \<Rightarrow> VerifyOptions \<Rightarrow> bytes \<Rightarrow> bool" where
  "reportAccepted g fs opts data \<longleftrightarrow>
     (let rep = take 0x9f4 data
      in 0x9f4 \<le> length data \<and> pekSigned g rep \<and>
         (\<exists>chip. chipOf rep = Inr chip \<and>
            (vo_VerifyChain opts \<longrightarrow>
               (\<exists>certs. loadChainFromOptions fs opts chip = Inr certs \<and> chainVerified g certs (pekOf rep)))))"

lemma reportFields_simps:
  "vr_PEKCert (reportFields rep) = pekOf rep"
  "vr_ChipID (reportFields rep) = UnmaskWords (slice rep 0x974 0x9b4) (anonceOf rep)"
  "vr_UserData (reportFields rep) = UnmaskWords (slice rep 0x40 0x80) (anonceOf rep)"
  "vr_Digest (reportFields rep) = UnmaskWords (slice rep 0x90 0xb0) (anonceOf rep)"
  "vr_Signature (reportFields rep) = slice rep 0xc0 0x150"
  "vr_rawReport (reportFields rep) = rep" "vr_ReportSize (reportFields rep) = length rep"
  "vr_PubkeyDigest (reportFields rep) = take 0x20 rep" "vr_VMID (reportFields rep) = slice rep 0x20 0x30"
  "vr_VMVersion (reportFields rep) = slice rep 0x30 0x40"
  "vr_MNonce (reportFields rep) = UnmaskWords (slice rep 0x80 0x90) (anonceOf rep)"
  "vr_Policy (reportFields rep) = LittleEndian_Uint32 (UnmaskWords (slice rep 0xb0 0xb4) (anonceOf rep))"
  "vr_SigUsage (reportFields rep) = LittleEndian_Uint32 (UnmaskWords (slice rep 0xb4 0xb8) (anonceOf rep))"
  "vr_SigAlgo (reportFields rep) = LittleEndian_Uint32 (UnmaskWords (slice rep 0xb8 0xbc) (anonceOf rep))"
  "vr_ANonce (reportFields rep) = anonceOf rep"
  "vr_Reserved2 (reportFields rep) = slice rep 0x9b4 0x9d4" "vr_MAC (reportFields rep) = slice rep 0x9d4 0x9f4"
  "vr_HRKURL (reportFields rep) = HRKCertURL"
  by (simp_all add: reportFields_def Let_def pekOf_def anonceOf_def slice_def)

lemma length_pekOf [simp]: "0x9f4 \<le> length rep \<Longrightarrow> length (pekOf rep) = 0x824"
  by (simp add: pekOf_def)

lemma parseHygonPubKey_cert:
  "0x824 \<le> length cert \<Longrightarrow> parseHygonPubKey (drop 0x10 cert) = Inr pub \<Longrightarrow>
     \<exists>d. ParseCSVCertDetails cert = Inr d"
  by (simp add: ParseCSVCertDetails_Inr)

lemma ParseReport_None:
  "ParseReport data = (resp, None) \<longleftrightarrow>
     0x9f4 \<le> length data \<and>
     (\<exists>chip d. chipOf (take 0x9f4 data) = Inr chip \<and> ParseCSVCertDetails (pekOf (take 0x9f4 data)) = Inr d \<and>
        resp = Some ((reportFields (take 0x9f4 data))\<lparr>vr_ChipIDASCII := chip,
          vr_HSKCEKURL := KDSCertURL @ QueryEscape chip, vr_PEKDetails := d\<rparr>))"
  by (auto simp: ParseReport_def Let_def reportFields_simps chipOf_def split: sum.splits)

lemma VerifyReportPEKSignature_Inr:
  "VerifyReportPEKSignature g (Some res) = Inr res' \<longleftrightarrow>
     0x824 \<le> length (vr_PEKCert res) \<and> 0x68 \<le> length (vr_Signature res) \<and> 0xb4 \<le> length (vr_rawReport res) \<and>
     (\<exists>pub. parseHygonPubKey (drop 0x10 (vr_PEKCert res)) = Inr pub \<and>
        verifyHygonSignature g pub (take 0xb4 (vr_rawReport res)) (vr_Signature res)) \<and>
     res' = res\<lparr>vr_ReportVerified := True\<rparr>"
  by (cases "ParseHygonSignature (vr_Signature res)")
    (auto simp: VerifyReportPEKSignature_def bindRes_Inr verifyHygonSignature_def Let_def)

text \<open>The result of an accepted report, field by field: where each field is in the report and whether it is masked.\<close>

definition resultOf :: "bytes \<Rightarrow> VerificationResult \<Rightarrow> bool" where
  "resultOf data res \<longleftrightarrow>
     (let rep = take 0x9f4 data
      in vr_UserData res = UnmaskWords (slice rep 0x40 0x80) (anonceOf rep) \<and>
         vr_Digest res = UnmaskWords (slice rep 0x90 0xb0) (anonceOf rep) \<and>
         vr_PEKCert res = pekOf rep \<and> chipOf rep = Inr (vr_ChipIDASCII res) \<and> vr_ReportVerified res \<and>
         vr_ReportSize res = 0x9f4 \<and> vr_PubkeyDigest res = take 0x20 rep \<and> vr_VMID res = slice rep 0x20 0x30 \<and>
         vr_VMVersion res = slice rep 0x30 0x40 \<and> vr_MNonce res = UnmaskWords (slice rep 0x80 0x90) (anonceOf rep) \<and>
         vr_Policy res = LittleEndian_Uint32 (UnmaskWords (slice rep 0xb0 0xb4) (anonceOf rep)) \<and>
         vr_SigUsage res = LittleEndian_Uint32 (UnmaskWords (slice rep 0xb4 0xb8) (anonceOf rep)) \<and>
         vr_SigAlgo res = LittleEndian_Uint32 (UnmaskWords (slice rep 0xb8 0xbc) (anonceOf rep)) \<and>
         vr_ANonce res = anonceOf rep \<and> vr_Signature res = slice rep 0xc0 0x150 \<and>
         vr_ChipID res = UnmaskWords (slice rep 0x974 0x9b4) (anonceOf rep) \<and>
         vr_Reserved2 res = slice rep 0x9b4 0x9d4 \<and> vr_MAC res = slice rep 0x9d4 0x9f4 \<and>
         vr_HRKURL res = HRKCertURL \<and> vr_HSKCEKURL res = KDSCertURL @ QueryEscape (vr_ChipIDASCII res) \<and> vr_rawReport res = rep)"

lemma VerifyReportWithOptions_accepts:
  assumes acc: "reportAccepted g fs opts data"
  shows "\<exists>res. VerifyReportWithOptions g fs data opts = (Some res, None) \<and> resultOf data res \<and>
    vr_ChainVerified res = vo_VerifyChain opts"
proof -
  let ?rep = "take 0x9f4 data"
  have len: "0x9f4 \<le> length data" and signed: "pekSigned g ?rep"
    using acc by (auto simp: reportAccepted_def Let_def)
  obtain chip where chip: "chipOf ?rep = Inr chip" and chain: "vo_VerifyChain opts \<longrightarrow>
      (\<exists>certs. loadChainFromOptions fs opts chip = Inr certs \<and> chainVerified g certs (pekOf ?rep))"
    using acc by (auto simp: reportAccepted_def Let_def)
  obtain d where d: "ParseCSVCertDetails (pekOf ?rep) = Inr d"
    using signed len parseHygonPubKey_cert[of "pekOf ?rep"] by (auto simp: pekSigned_def)
  let ?res = "(reportFields ?rep)\<lparr>vr_ChipIDASCII := chip,
    vr_HSKCEKURL := KDSCertURL @ QueryEscape chip, vr_PEKDetails := d\<rparr>"
  have parse: "ParseReport data = (Some ?res, None)" using len chip d by (auto simp: ParseReport_None)
  have sig: "VerifyReportPEKSignature g (Some ?res) = Inr (?res\<lparr>vr_ReportVerified := True\<rparr>)"
    using signed len by (auto simp: VerifyReportPEKSignature_Inr reportFields_simps pekSigned_def)
  show ?thesis
  proof (cases "vo_VerifyChain opts")
    case False
    then show ?thesis
      using parse sig chip len d by (simp add: VerifyReportWithOptions_def resultOf_def Let_def reportFields_simps)
        (simp add: reportFields_def Let_def)
  next
    case True
    then obtain certs where certs: "loadChainFromOptions fs opts chip = Inr certs"
      "chainVerified g certs (pekOf ?rep)" using chain by blast
    obtain det where "VerifyCertChain g certs (pekOf ?rep) = (det, None)"
      using certs(2) VerifyCertChain_verified[of g certs "pekOf ?rep"] by (metis prod.collapse)
    then show ?thesis
      using parse sig chip True certs(1) len d
      by (cases det) (simp_all add: VerifyReportWithOptions_def resultOf_def Let_def reportFields_simps)
  qed
qed

lemma VerifyReportWithOptions_accepted:
  assumes ver: "snd (VerifyReportWithOptions g fs data opts) = None"
  shows "reportAccepted g fs opts data"
proof -
  let ?rep = "take 0x9f4 data"
  obtain res where parse: "ParseReport data = (Some res, None)"
    and sig: "\<exists>res1. VerifyReportPEKSignature g (Some res) = Inr res1"
    using ver ParseReport_None
    by (auto simp: VerifyReportWithOptions_def split: prod.splits option.splits sum.splits)
  obtain chip d where c: "0x9f4 \<le> length data" "chipOf ?rep = Inr chip" "res = (reportFields ?rep)\<lparr>vr_ChipIDASCII := chip,
      vr_HSKCEKURL := KDSCertURL @ QueryEscape chip, vr_PEKDetails := d\<rparr>"
    using parse by (auto simp: ParseReport_None)
  obtain res1 where res1: "VerifyReportPEKSignature g (Some res) = Inr res1" using sig by blast
  then have signed: "pekSigned g ?rep" and r1: "res1 = res\<lparr>vr_ReportVerified := True\<rparr>"
    using c by (auto simp: VerifyReportPEKSignature_Inr reportFields_simps pekSigned_def)
  have chain: "\<exists>certs. loadChainFromOptions fs opts chip = Inr certs \<and> chainVerified g certs (pekOf ?rep)"
    if v: "vo_VerifyChain opts"
  proof -
    obtain certs where certs: "loadChainFromOptions fs opts chip = Inr certs"
      and "snd (VerifyCertChain g certs (pekOf ?rep)) = None"
      using ver v parse res1 r1 c(3)
      by (auto simp: VerifyReportWithOptions_def Let_def reportFields_simps split: sum.splits prod.splits option.splits)
    then show ?thesis using VerifyCertChain_verified by blast
  qed
  show ?thesis using c signed chain by (auto simp: reportAccepted_def Let_def)
qed

section \<open>Properties of report verification\<close>

text \<open>
  C14: \<^verbatim>\<open>VerifyReportWithOptions\<close> accepts a report exactly when it is long enough, its chip identifier is
  printable, the PEK certificate inside it verifies the signature over its first 0xb4 bytes and, where
  the chain is asked for, the configured material loads and forms a trusted HRK, HSK, CEK chain that
  signs this PEK. An accepted result carries every field of the report, unmasked where the report masks it, and the
  addresses of the chain material, and is marked chain-verified exactly when the chain was asked for.
\<close>

theorem report_verified_iff:
  "(snd (VerifyReportWithOptions g fs data opts) = None \<longleftrightarrow> reportAccepted g fs opts data) \<and>
   ((\<exists>res. VerifyReportWithOptions g fs data opts = (Some res, None) \<and> resultOf data res \<and>
      vr_ChainVerified res = vo_VerifyChain opts) \<longleftrightarrow> reportAccepted g fs opts data)"
  using VerifyReportWithOptions_accepts[of g fs opts data] VerifyReportWithOptions_accepted[of g fs data opts]
  by auto

text \<open>
  C15: \<^verbatim>\<open>VerifyCertChain\<close> returns no error exactly for chains that meet the specification: long enough
  certificates, keys that parse, the key usages of each level, a self-signed HRK, and each of
  HSK, CEK and PEK signed by the level above it.
\<close>

theorem cert_chain_verified_iff:
  "snd (VerifyCertChain g certs pek) = None \<longleftrightarrow>
     0x340 \<le> length (ci_HRK certs) \<and> 0xb64 \<le> length (ci_HSKCEK certs) \<and> 0x824 \<le> length pek \<and>
     chainTrusted g (take 0x340 (ci_HRK certs)) (take 0x340 (ci_HSKCEK certs))
       (slice (ci_HSKCEK certs) 0x340 0xb64) pek"
  unfolding VerifyCertChain_verified chainVerified_def by blast

text \<open>
  The A nonce is outside the signed bytes: it can be exchanged, and the unsigned masked fields masked
  again, without touching the signature.
\<close>

definition remask :: "32 word \<Rightarrow> bytes \<Rightarrow> bytes" where
  "remask c rep =
     take 0xbc rep @ LittleEndian_PutUint32 (anonceOf rep XOR c) @ slice rep 0xc0 0x150 @
     UnmaskWords (slice rep 0x150 0x974) c @ UnmaskWords (slice rep 0x974 0x9b4) c @ drop 0x9b4 rep"

lemma slice_take: "hi \<le> n \<Longrightarrow> slice (take n xs) lo hi = slice xs lo hi"
  by (simp add: slice_def drop_take min.absorb1 diff_le_mono)

lemma remask_slices:
  assumes "length rep = 0x9f4"
  shows "length (remask c rep) = 0x9f4" "take 0xb4 (remask c rep) = take 0xb4 rep"
    "anonceOf (remask c rep) = anonceOf rep XOR c"
    "slice (remask c rep) 0xc0 0x150 = slice rep 0xc0 0x150"
    "slice (remask c rep) 0x150 0x974 = UnmaskWords (slice rep 0x150 0x974) c"
    "slice (remask c rep) 0x974 0x9b4 = UnmaskWords (slice rep 0x974 0x9b4) c"
    "hi \<le> 0xbc \<Longrightarrow> slice (remask c rep) lo hi = slice rep lo hi"
proof -
  let ?n = "LittleEndian_PutUint32 (anonceOf rep XOR c)"
  show "length (remask c rep) = 0x9f4" using assms by (simp add: remask_def)
  show "take 0xb4 (remask c rep) = take 0xb4 rep" using assms by (simp add: remask_def)
  have "slice (remask c rep) 0xbc 0xc0 = ?n"
    using assms by (simp add: remask_def slice_append_right slice_append_left)
  then show "anonceOf (remask c rep) = anonceOf rep XOR c"
    using LittleEndian_Uint32_Put[of "anonceOf rep XOR c" "[]"] by (simp add: anonceOf_def)
  show "slice (remask c rep) 0xc0 0x150 = slice rep 0xc0 0x150"
    "slice (remask c rep) 0x150 0x974 = UnmaskWords (slice rep 0x150 0x974) c"
    "slice (remask c rep) 0x974 0x9b4 = UnmaskWords (slice rep 0x974 0x9b4) c"
    using assms by (simp_all add: remask_def slice_append_right slice_append_left)
  show "hi \<le> 0xbc \<Longrightarrow> slice (remask c rep) lo hi = slice rep lo hi"
    using assms by (simp add: remask_def slice_append_left slice_take)
qed

text \<open>
  C33: the A nonce is not authenticated by report verification. For every 32-bit pattern, the report with the
  pattern folded into its A nonce and its unsigned masked fields masked accordingly is accepted
  exactly when the original is, with the same PEK certificate, while the user data and the measurement
  it yields are those of the original with the pattern folded into every word. Only the caller's
  comparison of the unmasked user data with a key digest pins the nonce.
\<close>

theorem anonce_malleable:
  assumes "length rep = ReportSize"
  shows "(snd (VerifyReportWithOptions g fs (remask c rep) opts) = None \<longleftrightarrow>
      snd (VerifyReportWithOptions g fs rep opts) = None) \<and>
    vr_UserData (reportFields (remask c rep)) = UnmaskWords (vr_UserData (reportFields rep)) c \<and>
    vr_Digest (reportFields (remask c rep)) = UnmaskWords (vr_Digest (reportFields rep)) c \<and>
    vr_PEKCert (reportFields (remask c rep)) = vr_PEKCert (reportFields rep)"
proof -
  have len: "length rep = 0x9f4" using assms by simp
  note sl = remask_slices[OF len]
  have cancel: "c XOR (a XOR c) = a" for a :: "32 word"
    by (metis xor.commute xor_cancel_right)
  have pek: "pekOf (remask c rep) = pekOf rep"
    by (simp add: pekOf_def sl UnmaskWords_compose cancel)
  have chip: "chipOf (remask c rep) = chipOf rep"
    by (simp add: chipOf_def sl UnmaskWords_compose cancel)
  have "pekSigned g (remask c rep) = pekSigned g rep"
    by (simp add: pekSigned_def pek sl)
  then have "reportAccepted g fs opts (remask c rep) = reportAccepted g fs opts rep"
    using len sl(1) by (simp add: reportAccepted_def Let_def pek chip)
  then have "snd (VerifyReportWithOptions g fs (remask c rep) opts) = None \<longleftrightarrow>
      snd (VerifyReportWithOptions g fs rep opts) = None"
    using VerifyReportWithOptions_accepts VerifyReportWithOptions_accepted by (metis snd_conv)
  then show ?thesis
    by (simp add: reportFields_simps sl UnmaskWords_compose pek)
qed

theorem anonce_malleable_witness:
  "vr_UserData (reportFields (remask 7 (replicate 0x9f4 0))) =
     UnmaskWords (vr_UserData (reportFields (replicate 0x9f4 0))) 7 \<and>
   length (replicate 0x9f4 (0 :: byte)) = ReportSize"
  using anonce_malleable[of "replicate 0x9f4 0" _ _ 7] by simp

end
