(* ===== verification/Verifier.thy ===== *)
theory Verifier
  imports Config Csv_Verify
begin

text \<open>
  Verification of the peer (\<^verbatim>\<open>verifier.go\<close>): validity period, evidence extension, choice of the trust anchor and
  of the chain material, report and chain verification, binding of the certificate key to the report, and
  the measurement policy. The lemmas show what an accepted peer has proved, where the anchor can come
  from, and for which configurations no peer is accepted.
\<close>

section \<open>Operations\<close>

definition ErrMissingCSVEvidence :: goerr where
  "ErrMissingCSVEvidence = ErrNew ''certificate missing CSV attestation evidence extension''"
definition ErrPublicKeyBindingMismatch :: goerr where
  "ErrPublicKeyBindingMismatch = ErrNew ''peer public key does not match attestation report USER_DATA''"
definition ErrMeasurementMismatch :: goerr where
  "ErrMeasurementMismatch = ErrNew ''peer measurement hash does not match expected measurements''"
definition ErrInvalidEvidenceReport :: goerr where
  "ErrInvalidEvidenceReport = ErrNew ''invalid or corrupted CSV attestation report''"
definition ErrCertificateExpired :: goerr where
  "ErrCertificateExpired = ErrNew ''peer certificate has expired''"
definition ErrCertificateNotYetValid :: goerr where
  "ErrCertificateNotYetValid = ErrNew ''peer certificate is not yet valid''"

definition normalizeHRKCert :: "bytes \<Rightarrow> bytes option" where
  "normalizeHRKCert cert = (if length cert < HrkCertSize then None else Some (take HrkCertSize cert))"

definition normalizedVerifyConfig :: "Config option \<Rightarrow> Config result" where
  "normalizedVerifyConfig cfgp =
     (let cfg = (case cfgp of None \<Rightarrow> zeroConfig | Some c \<Rightarrow> c);
          copyCfg = cfg\<lparr>cf_cachedCertPEM := [], cf_cachedKeyPEM := [], cf_cachedAt := 0, cf_cachedNotAfter := 0\<rparr>;
          copy1 = (if cf_Mode copyCfg = [] then copyCfg\<lparr>cf_Mode := ModeStrict\<rparr> else copyCfg)
      in if cf_Mode copy1 \<noteq> ModeStrict \<and> cf_Mode copy1 \<noteq> ModePermissive
         then Inl (ErrNew ''invalid attestation mode'')
         else if (cf_HRKCertPath copy1 = []) \<noteq> (cf_HSKCekCertPath copy1 = [])
         then Inl (ErrNew ''teetls: HRKCertPath and HSKCekCertPath must be configured together'')
         else bindRes (validateExpectedMeasurements (cf_ExpectedMeasurements copy1)) (\<lambda>_.
           if length (cf_TrustedHRKCert copy1) = 0 then
             case cf_EvidenceProvider copy1 of
               None \<Rightarrow> Inr copy1
             | Some provider \<Rightarrow>
                 (case ep_TrustedHRKCert provider of
                    None \<Rightarrow> Inr copy1
                  | Some hrk \<Rightarrow> Inr (copy1\<lparr>cf_TrustedHRKCert := hrk\<rparr>))
           else Inr copy1))"

text \<open>
  The options for report verification. An error formatted with \<^verbatim>\<open>%v\<close> under \<^verbatim>\<open>ErrInvalidEvidenceReport\<close> is only
  text.
\<close>

definition invalidEvidence :: "string \<Rightarrow> goerr" where
  "invalidEvidence msg = ErrWrap msg ErrInvalidEvidenceReport"

definition anchorOptions :: "Config \<Rightarrow> CSVEvidenceExtension \<Rightarrow> VerifyOptions result" where
  "anchorOptions cfg evidence =
     (let opts = \<lparr>vo_VerifyChain = True, vo_TrustedHRKCertBytes = [], vo_TrustedHRKCertPath = [],
                  vo_HSKCekCertBytes = [], vo_HSKCekCertPath = [], vo_CertDir = cf_CertDir cfg,
                  vo_HRKCertBytes = [], vo_HRKCertPath = []\<rparr>
      in if length (cf_TrustedHRKCert cfg) > 0 then
           case normalizeHRKCert (cf_TrustedHRKCert cfg) of
             None \<Rightarrow> Inl (invalidEvidence ''trusted HRK anchor is too short'')
           | Some trusted \<Rightarrow>
               if length (ev_HRKCert evidence) > 0 \<and> ev_HRKCert evidence \<noteq> trusted
               then Inl (invalidEvidence ''untrusted HRK certificate'')
               else Inr (opts\<lparr>vo_TrustedHRKCertBytes := trusted\<rparr>)
         else Inr opts)"

definition chainOptions :: "filesystem \<Rightarrow> Config \<Rightarrow> CSVEvidenceExtension \<Rightarrow> VerifyOptions \<Rightarrow> VerifyOptions result" where
  "chainOptions fs cfg evidence opts =
     (if cf_HRKCertPath cfg \<noteq> [] \<and> cf_HSKCekCertPath cfg \<noteq> [] then
        Inr (opts\<lparr>vo_TrustedHRKCertPath := cf_HRKCertPath cfg, vo_HSKCekCertPath := cf_HSKCekCertPath cfg\<rparr>)
      else if cf_CertDir cfg \<noteq> [] then
        case LoadLocalCertChain fs (cf_CertDir cfg) of
          Inl e \<Rightarrow> Inl (invalidEvidence ''load local certificate chain'')
        | Inr chain \<Rightarrow>
            let opts1 = opts\<lparr>vo_HSKCekCertBytes := ci_HSKCEK chain\<rparr>
            in Inr (if length (vo_TrustedHRKCertBytes opts1) = 0
                    then opts1\<lparr>vo_TrustedHRKCertBytes := ci_HRK chain\<rparr> else opts1)
      else if length (ev_HSKCekCert evidence) > 0
      then Inr (opts\<lparr>vo_HSKCekCertBytes := ev_HSKCekCert evidence\<rparr>)
      else Inr opts)"

definition measurementListed :: "Config \<Rightarrow> bytes \<Rightarrow> bool" where
  "measurementListed cfg digest =
     list_ex (\<lambda>m. EqualFold m (map lowerByte (hexEncode digest))) (cf_ExpectedMeasurements cfg)"

definition checkPolicy :: "Config \<Rightarrow> bytes \<Rightarrow> unit result" where
  "checkPolicy cfg digest =
     (if cf_Mode cfg = ModeStrict \<and> length (cf_ExpectedMeasurements cfg) = 0
      then Inl (ErrWrap ''strict mode requires non-empty ExpectedMeasurements'' ErrMeasurementMismatch)
      else if length (cf_ExpectedMeasurements cfg) > 0 \<and> \<not> measurementListed cfg digest
              \<and> cf_Mode cfg = ModeStrict
      then Inl (ErrWrap ''got another measurement'' ErrMeasurementMismatch)
      else Inr ())"

definition VerifyPeerCertificateAndEvidence ::
    "gmsm \<Rightarrow> filesystem \<Rightarrow> gotime \<Rightarrow> bytes \<Rightarrow> Config option \<Rightarrow> CSVEvidenceExtension option result" where
  "VerifyPeerCertificateAndEvidence g fs now peerCertPEM cfgp =
     bindRes (normalizedVerifyConfig cfgp) (\<lambda>cfg.
     bindRes (wrapRes ''parse peer certificate'' (ParseCertificatePEM g peerCertPEM)) (\<lambda>cert.
       if now < crt_NotBefore cert then Inl (ErrWrap ''not valid before'' ErrCertificateNotYetValid)
       else if now > crt_NotAfter cert then Inl (ErrWrap ''expired at'' ErrCertificateExpired)
       else
         case find (\<lambda>ext. ext_Id ext = OIDCSVEvidence) (crt_Extensions cert) of
           None \<Rightarrow> if cf_InsecureSkipAttestationVerify cfg then Inr None else Inl ErrMissingCSVEvidence
         | Some ext \<Rightarrow>
             (case DecodeCSVEvidence (ext_Value ext) of
                Inl e \<Rightarrow> Inl (invalidEvidence ''decode evidence'')
              | Inr evidence \<Rightarrow>
                  if cf_InsecureSkipAttestationVerify cfg then Inr (Some evidence)
                  else
                    bindRes (anchorOptions cfg evidence) (\<lambda>opts0.
                    bindRes (chainOptions fs cfg evidence opts0) (\<lambda>opts.
                      case VerifyReportWithOptions g fs (ev_Report evidence) opts of
                        (_, Some e) \<Rightarrow> Inl (invalidEvidence ''verify report'')
                      | (None, None) \<Rightarrow> Inl (Panic ''nil pointer dereference'')
                      | (Some res, None) \<Rightarrow>
                          let pubDigest = ComputePublicKeySM3 g (crt_RawSubjectPublicKeyInfo cert)
                          in if length (vr_UserData res) < 32 \<or> take 32 (vr_UserData res) \<noteq> pubDigest
                             then Inl (ErrWrap ''expected public key digest'' ErrPublicKeyBindingMismatch)
                             else bindRes (checkPolicy cfg (vr_Digest res)) (\<lambda>_. Inr (Some evidence)))))))"

section \<open>The trust anchor\<close>

lemma normalizedVerifyConfig_Inr:
  assumes "normalizedVerifyConfig cfgp = Inr cfg"
  defines "c \<equiv> case cfgp of None \<Rightarrow> zeroConfig | Some c \<Rightarrow> c"
  shows "cf_Mode cfg = mode c" "mode c = ModeStrict \<or> mode c = ModePermissive"
    "cf_ExpectedMeasurements cfg = cf_ExpectedMeasurements c"
    "cf_InsecureSkipAttestationVerify cfg = cf_InsecureSkipAttestationVerify c"
    "cf_HRKCertPath cfg = cf_HRKCertPath c" "cf_HSKCekCertPath cfg = cf_HSKCekCertPath c"
    "cf_CertDir cfg = cf_CertDir c"
    "cf_TrustedHRKCert cfg = (if cf_TrustedHRKCert c = [] then
       (case cf_EvidenceProvider c of None \<Rightarrow> [] | Some p \<Rightarrow>
         (case ep_TrustedHRKCert p of None \<Rightarrow> [] | Some h \<Rightarrow> h)) else cf_TrustedHRKCert c)"
  using assms unfolding normalizedVerifyConfig_def mode_def
  by (auto simp: Let_def bindRes_Inr split: if_splits option.splits)

text \<open>The HRK anchors a configuration provides locally, after its own normalisation.\<close>

definition localAnchor :: "filesystem \<Rightarrow> Config \<Rightarrow> bytes \<Rightarrow> bool" where
  "localAnchor fs cfg hrk \<longleftrightarrow>
     (cf_TrustedHRKCert cfg \<noteq> [] \<and> normalizeHRKCert (cf_TrustedHRKCert cfg) = Some hrk) \<or>
     (cf_TrustedHRKCert cfg = [] \<and> cf_HRKCertPath cfg \<noteq> [] \<and>
        readFixedFile fs (TrimSpace (cf_HRKCertPath cfg)) HrkCertSize = Inr hrk) \<or>
     (cf_TrustedHRKCert cfg = [] \<and> cf_CertDir cfg \<noteq> [] \<and>
        readFixedFile fs (filepathJoin2 (cf_CertDir cfg) (stringBytes ''hrk.cert'')) HrkCertSize = Inr hrk)"

lemma readFixedFile_length: "readFixedFile fs p n = Inr d \<Longrightarrow> length d = n"
  by (auto simp: readFixedFile_def bindRes_Inr split: if_splits)

lemma LoadCertChainFromFiles_Inr:
  "LoadCertChainFromFiles fs p q = Inr ch \<longleftrightarrow>
     (\<exists>h k. readFixedFile fs p HrkCertSize = Inr h \<and> readFixedFile fs q HskCekSize = Inr k \<and>
        ch = \<lparr>ci_HRK = h, ci_HSKCEK = k, ci_Source = stringBytes ''local file''\<rparr>)"
  by (auto simp: LoadCertChainFromFiles_def bindRes_Inr)

lemma anchorOptions_Inr:
  "anchorOptions cfg ev = Inr opts \<longleftrightarrow>
     (\<exists>hrk. opts = \<lparr>vo_VerifyChain = True, vo_TrustedHRKCertBytes = hrk, vo_TrustedHRKCertPath = [],
        vo_HSKCekCertBytes = [], vo_HSKCekCertPath = [], vo_CertDir = cf_CertDir cfg,
        vo_HRKCertBytes = [], vo_HRKCertPath = []\<rparr> \<and>
      (if cf_TrustedHRKCert cfg = [] then hrk = []
       else normalizeHRKCert (cf_TrustedHRKCert cfg) = Some hrk \<and> (ev_HRKCert ev = [] \<or> ev_HRKCert ev = hrk)))"
  by (auto simp: anchorOptions_def Let_def split: option.splits)

lemma normalizeHRKCert_nonempty: "normalizeHRKCert c = Some h \<Longrightarrow> h \<noteq> [] \<and> length h = 0x340"
  by (auto simp: normalizeHRKCert_def split: if_splits)

text \<open>Whatever the peer sends, the chain that is checked starts at a local anchor.\<close>

lemma anchor_is_local:
  assumes "anchorOptions cfg ev = Inr opts0" "chainOptions fs cfg ev opts0 = Inr opts"
    and "loadChainFromOptions fs opts chip = Inr certs"
  shows "localAnchor fs cfg (ci_HRK certs) \<and> vo_VerifyChain opts"
proof -
  obtain hrk where o: "opts0 = \<lparr>vo_VerifyChain = True, vo_TrustedHRKCertBytes = hrk, vo_TrustedHRKCertPath = [],
      vo_HSKCekCertBytes = [], vo_HSKCekCertPath = [], vo_CertDir = cf_CertDir cfg,
      vo_HRKCertBytes = [], vo_HRKCertPath = []\<rparr>"
    and hrk: "if cf_TrustedHRKCert cfg = [] then hrk = [] else normalizeHRKCert (cf_TrustedHRKCert cfg) = Some hrk"
    using assms(1) by (auto simp: anchorOptions_Inr split: if_splits)
  show ?thesis
  proof (cases "cf_HRKCertPath cfg \<noteq> [] \<and> cf_HSKCekCertPath cfg \<noteq> []")
    case True
    then have "opts = opts0\<lparr>vo_TrustedHRKCertPath := cf_HRKCertPath cfg, vo_HSKCekCertPath := cf_HSKCekCertPath cfg\<rparr>"
      using assms(2) by (simp add: chainOptions_def)
    with assms(3) hrk True show ?thesis
      by (auto simp: o loadChainFromOptions_def Let_def LoadCertChainFromFiles_Inr LoadCertChain_def
          LoadLocalCertChain_def localAnchor_def dest: normalizeHRKCert_nonempty split: if_splits sum.splits)
  next
    case noPath: False
    show ?thesis
    proof (cases "cf_CertDir cfg = []")
      case True
      with noPath assms(2) have "opts = (if ev_HSKCekCert ev = [] then opts0
          else opts0\<lparr>vo_HSKCekCertBytes := ev_HSKCekCert ev\<rparr>)"
        by (auto simp: chainOptions_def split: if_splits)
      with assms(3) hrk True show ?thesis
        by (auto simp: o loadChainFromOptions_def Let_def localAnchor_def split: if_splits)
    next
      case False
      then obtain ch where ch: "LoadLocalCertChain fs (cf_CertDir cfg) = Inr ch"
        using noPath assms(2) by (auto simp: chainOptions_def split: sum.splits if_splits)
      then have opts: "opts = (let opts1 = opts0\<lparr>vo_HSKCekCertBytes := ci_HSKCEK ch\<rparr> in
          if hrk = [] then opts1\<lparr>vo_TrustedHRKCertBytes := ci_HRK ch\<rparr> else opts1)"
        using noPath False assms(2) by (auto simp: chainOptions_def o Let_def split: if_splits)
      have files: "readFixedFile fs (filepathJoin2 (cf_CertDir cfg) (stringBytes ''hrk.cert'')) HrkCertSize = Inr (ci_HRK ch)"
        using ch by (auto simp: LoadLocalCertChain_def LoadCertChainFromFiles_Inr)
      have nonempty: "ci_HRK ch \<noteq> []" using readFixedFile_length[OF files] by auto
      have "ci_HRK certs = (if hrk = [] then ci_HRK ch else hrk)"
        using assms(3) nonempty by (auto simp: opts o loadChainFromOptions_def Let_def split: if_splits)
      with files hrk False show ?thesis
        by (auto simp: opts o localAnchor_def Let_def dest: normalizeHRKCert_nonempty split: if_splits)
    qed
  qed
qed

section \<open>What an accepted peer has shown\<close>

definition userDataOf :: "bytes \<Rightarrow> bytes" where
  "userDataOf rep = UnmaskWords (slice rep 0x40 0x80) (anonceOf rep)"

definition digestOf :: "bytes \<Rightarrow> bytes" where
  "digestOf rep = UnmaskWords (slice rep 0x90 0xb0) (anonceOf rep)"

text \<open>
  The certificate is within its validity period and carries the evidence, whose report is signed by a PEK
  that chains up to a local anchor and binds the certificate's public key.
\<close>

definition peerAttested ::
    "gmsm \<Rightarrow> filesystem \<Rightarrow> gotime \<Rightarrow> bytes \<Rightarrow> Config \<Rightarrow> CSVEvidenceExtension \<Rightarrow> bool" where
  "peerAttested g fs now pem cfg ev \<longleftrightarrow>
     (\<exists>cert ext certs. ParseCertificatePEM g pem = Inr cert \<and>
        crt_NotBefore cert \<le> now \<and> now \<le> crt_NotAfter cert \<and>
        ext \<in> set (crt_Extensions cert) \<and> ext_Id ext = OIDCSVEvidence \<and>
        DecodeCSVEvidence (ext_Value ext) = Inr ev \<and>
        pekSigned g (ev_Report ev) \<and> chainVerified g certs (pekOf (ev_Report ev)) \<and>
        localAnchor fs cfg (ci_HRK certs) \<and>
        take 32 (userDataOf (ev_Report ev)) = ComputePublicKeySM3 g (crt_RawSubjectPublicKeyInfo cert))"

lemma checkPolicy_Inr [io_success]:
  "checkPolicy cfg d = Inr u \<longleftrightarrow> (cf_Mode cfg = ModeStrict \<longrightarrow> measurementListed cfg d)"
  by (cases "cf_ExpectedMeasurements cfg") (auto simp: checkPolicy_def measurementListed_def)

lemma measurementListed_iff:
  "measurementListed cfg d \<longleftrightarrow> (\<exists>m \<in> set (cf_ExpectedMeasurements cfg). hexDecode m = Some d)"
  by (auto simp: measurementListed_def list_ex_iff lowerByte_hexEncode hexDecode_iff_EqualFold)

lemma decoded_report_length: "DecodeCSVEvidence data = Inr ev \<Longrightarrow> length (ev_Report ev) = 0x9f4"
  by (auto simp: DecodeCSVEvidence_def bindRes_Inr validateEvidenceExtension_Inr validEvidence_def split: if_splits)

lemma VerifyPeer_steps:
  assumes ver: "VerifyPeerCertificateAndEvidence g fs now pem cfgp = Inr evo"
    and cfg: "normalizedVerifyConfig cfgp = Inr cfg" and skip: "\<not> cf_InsecureSkipAttestationVerify cfg"
  shows "\<exists>ev cert ext opts0 opts. evo = Some ev \<and> ParseCertificatePEM g pem = Inr cert \<and>
    crt_NotBefore cert \<le> now \<and> now \<le> crt_NotAfter cert \<and>
    find (\<lambda>ext. ext_Id ext = OIDCSVEvidence) (crt_Extensions cert) = Some ext \<and>
    DecodeCSVEvidence (ext_Value ext) = Inr ev \<and> anchorOptions cfg ev = Inr opts0 \<and>
    chainOptions fs cfg ev opts0 = Inr opts \<and> reportAccepted g fs opts (ev_Report ev) \<and>
    take 32 (userDataOf (ev_Report ev)) = ComputePublicKeySM3 g (crt_RawSubjectPublicKeyInfo cert) \<and>
    checkPolicy cfg (digestOf (ev_Report ev)) = Inr ()"
proof -
  obtain cert where cert: "ParseCertificatePEM g pem = Inr cert"
    using ver by (auto simp: VerifyPeerCertificateAndEvidence_def bindRes_Inr)
  have time: "crt_NotBefore cert \<le> now" "now \<le> crt_NotAfter cert"
    using ver by (auto simp: VerifyPeerCertificateAndEvidence_def bindRes_Inr cert cfg split: if_splits)
  obtain ext where ext: "find (\<lambda>ext. ext_Id ext = OIDCSVEvidence) (crt_Extensions cert) = Some ext"
    using ver skip time
    by (auto simp: VerifyPeerCertificateAndEvidence_def bindRes_Inr cert cfg split: option.splits)
  obtain ev where ev: "DecodeCSVEvidence (ext_Value ext) = Inr ev"
    using ver skip time by (auto simp: VerifyPeerCertificateAndEvidence_def bindRes_Inr cert cfg ext split: sum.splits)
  obtain opts0 opts where opts: "anchorOptions cfg ev = Inr opts0" "chainOptions fs cfg ev opts0 = Inr opts"
    and rest: "(case VerifyReportWithOptions g fs (ev_Report ev) opts of
                  (_, Some e) \<Rightarrow> Inl (invalidEvidence ''verify report'')
                | (None, None) \<Rightarrow> Inl (Panic ''nil pointer dereference'')
                | (Some res, None) \<Rightarrow>
                    let pubDigest = ComputePublicKeySM3 g (crt_RawSubjectPublicKeyInfo cert)
                    in if length (vr_UserData res) < 32 \<or> take 32 (vr_UserData res) \<noteq> pubDigest
                       then Inl (ErrWrap ''expected public key digest'' ErrPublicKeyBindingMismatch)
                       else bindRes (checkPolicy cfg (vr_Digest res)) (\<lambda>_. Inr (Some ev))) = Inr evo"
    using ver skip time by (auto simp: VerifyPeerCertificateAndEvidence_def bindRes_Inr cert cfg ext ev)
  obtain res where res: "VerifyReportWithOptions g fs (ev_Report ev) opts = (Some res, None)"
    using rest by (auto split: prod.splits option.splits)
  have fin: "take 32 (vr_UserData res) = ComputePublicKeySM3 g (crt_RawSubjectPublicKeyInfo cert)"
      "checkPolicy cfg (vr_Digest res) = Inr ()" "evo = Some ev"
    using rest by (auto simp: res Let_def bindRes_Inr split: if_splits)
  have acc: "reportAccepted g fs opts (ev_Report ev)"
    by (rule VerifyReportWithOptions_accepted) (simp add: res)
  have fields: "resultOf (ev_Report ev) res" using VerifyReportWithOptions_accepts[OF acc] res by auto
  have whole: "take 0x9f4 (ev_Report ev) = ev_Report ev" using decoded_report_length[OF ev] by simp
  have "vr_UserData res = userDataOf (ev_Report ev)" "vr_Digest res = digestOf (ev_Report ev)"
    using fields by (simp_all add: resultOf_def Let_def whole userDataOf_def digestOf_def)
  with fin have "take 32 (userDataOf (ev_Report ev)) = ComputePublicKeySM3 g (crt_RawSubjectPublicKeyInfo cert)"
    "checkPolicy cfg (digestOf (ev_Report ev)) = Inr ()" by simp_all
  with fin(3) cert time ext ev opts acc show ?thesis by blast
qed

lemma VerifyPeer_sound:
  assumes "VerifyPeerCertificateAndEvidence g fs now pem cfgp = Inr evo"
    and "normalizedVerifyConfig cfgp = Inr cfg" and "\<not> cf_InsecureSkipAttestationVerify cfg"
  shows "\<exists>ev. evo = Some ev \<and> peerAttested g fs now pem cfg ev \<and>
    (cf_Mode cfg = ModeStrict \<longrightarrow> (\<exists>m \<in> set (cf_ExpectedMeasurements cfg). hexDecode m = Some (digestOf (ev_Report ev))))"
proof -
  obtain ev cert ext opts0 opts where s: "evo = Some ev" "ParseCertificatePEM g pem = Inr cert"
    "crt_NotBefore cert \<le> now" "now \<le> crt_NotAfter cert"
    "find (\<lambda>ext. ext_Id ext = OIDCSVEvidence) (crt_Extensions cert) = Some ext"
    "DecodeCSVEvidence (ext_Value ext) = Inr ev" "reportAccepted g fs opts (ev_Report ev)"
    "take 32 (userDataOf (ev_Report ev)) = ComputePublicKeySM3 g (crt_RawSubjectPublicKeyInfo cert)"
    "checkPolicy cfg (digestOf (ev_Report ev)) = Inr ()"
    and opts: "anchorOptions cfg ev = Inr opts0" "chainOptions fs cfg ev opts0 = Inr opts"
    using VerifyPeer_steps[OF assms] by blast
  have whole: "take 0x9f4 (ev_Report ev) = ev_Report ev" using decoded_report_length[OF s(6)] by simp
  have vc: "vo_VerifyChain opts" using opts
    by (auto simp: anchorOptions_Inr chainOptions_def Let_def split: if_splits sum.splits)
  obtain certs where chain: "chainVerified g certs (pekOf (ev_Report ev))"
    "localAnchor fs cfg (ci_HRK certs)" "pekSigned g (ev_Report ev)"
    using s(7) anchor_is_local[OF opts] unfolding reportAccepted_def Let_def whole using vc by blast
  have "ext \<in> set (crt_Extensions cert)" "ext_Id ext = OIDCSVEvidence" using s(5) by (auto simp: find_Some_iff)
  then have "peerAttested g fs now pem cfg ev" unfolding peerAttested_def using s chain by blast
  with s(1,9) show ?thesis by (auto simp: checkPolicy_Inr measurementListed_iff)
qed

lemma VerifyPeer_accepts:
  assumes cfg: "normalizedVerifyConfig cfgp = Inr cfg" and skip: "\<not> cf_InsecureSkipAttestationVerify cfg"
    and cert: "ParseCertificatePEM g pem = Inr cert" "crt_NotBefore cert \<le> now" "now \<le> crt_NotAfter cert"
    and ext: "find (\<lambda>ext. ext_Id ext = OIDCSVEvidence) (crt_Extensions cert) = Some ext"
    and ev: "DecodeCSVEvidence (ext_Value ext) = Inr ev"
    and opts: "anchorOptions cfg ev = Inr opts0" "chainOptions fs cfg ev opts0 = Inr opts"
    and acc: "reportAccepted g fs opts (ev_Report ev)"
    and bind: "take 32 (userDataOf (ev_Report ev)) = ComputePublicKeySM3 g (crt_RawSubjectPublicKeyInfo cert)"
    and pol: "checkPolicy cfg (digestOf (ev_Report ev)) = Inr ()"
  shows "VerifyPeerCertificateAndEvidence g fs now pem cfgp = Inr (Some ev)"
proof -
  have whole: "take 0x9f4 (ev_Report ev) = ev_Report ev" and len: "length (ev_Report ev) = 0x9f4"
    using decoded_report_length[OF ev] by simp_all
  obtain res where res: "VerifyReportWithOptions g fs (ev_Report ev) opts = (Some res, None)" "resultOf (ev_Report ev) res"
    using VerifyReportWithOptions_accepts[OF acc] by blast
  have f: "vr_UserData res = userDataOf (ev_Report ev)" "vr_Digest res = digestOf (ev_Report ev)"
    using res(2) by (simp_all add: resultOf_def Let_def whole userDataOf_def digestOf_def)
  have "length (userDataOf (ev_Report ev)) = 64" using len by (simp add: userDataOf_def)
  then show ?thesis
    using assms(2-6) ext ev opts res(1) f bind pol
    by (simp add: VerifyPeerCertificateAndEvidence_def cfg cert(1))
qed

end
