(* ===== verification/Csv_Mock.thy ===== *)
theory Csv_Mock
  imports Csv_Verify
begin

text \<open>
  The mock attestation authority (\<^verbatim>\<open>pkg/csvattest/mock.go\<close>): an HRK, HSK, CEK, PEK chain of generated keys and
  reports signed by its PEK. Buffers that the source fills in place are threaded through. Draws from
  \<^verbatim>\<open>rand.Reader\<close> are the function \<open>rnd\<close> from the number of the draw to its bytes. The lemmas show
  that a generated report verifies against the generated chain.
\<close>

section \<open>Operations\<close>

record MockAttestationAuthority =
  ma_hrkKey :: sm2priv
  ma_hskKey :: sm2priv
  ma_cekKey :: sm2priv
  ma_pekKey :: sm2priv
  ma_userID :: bytes
  ma_hrkCert :: bytes
  ma_hskCekCert :: bytes
  ma_pekCert :: bytes

text \<open>\<^verbatim>\<open>copy(dst[lo:hi], src)\<close>.\<close>

definition copyWindow :: "bytes \<Rightarrow> nat \<Rightarrow> nat \<Rightarrow> bytes \<Rightarrow> bytes" where
  "copyWindow dst lo hi src = copy_at dst lo (take (hi - lo) src)"

definition padLeft32 :: "bytes \<Rightarrow> bytes result" where
  "padLeft32 inp =
     (if length inp > 32 then Inl (Panic ''slice bounds out of range'')
      else Inr (copy_at (replicate 32 0) (32 - length inp) inp))"

definition putMockHygonPubKey :: "bytes \<Rightarrow> nat \<Rightarrow> sm2pub \<Rightarrow> bytes \<Rightarrow> bytes result" where
  "putMockHygonPubKey buf off pub userID =
     bindRes (padLeft32 (bigBytes (pk_X pub))) (\<lambda>x.
     bindRes (padLeft32 (bigBytes (pk_Y pub))) (\<lambda>y.
       let buf1 = copy_at buf off (LittleEndian_PutUint32 CurveIDSM2);
           buf2 = copyWindow buf1 (off + OffsetECCPubKeyQX) (off + OffsetECCPubKeyQX + 32) (ReverseCopy x);
           buf3 = copyWindow buf2 (off + OffsetECCPubKeyQY) (off + OffsetECCPubKeyQY + 32) (ReverseCopy y);
           buf4 = copy_at buf3 (off + OffsetECCPubKeyUserID)
             (LittleEndian_PutUint16 (word_of_nat (length userID)))
       in Inr (copy_at buf4 (off + OffsetECCPubKeyUserID + 2) userID)))"

definition signMockHygonData ::
    "gmsm \<Rightarrow> sm2priv \<Rightarrow> bytes \<Rightarrow> bytes \<Rightarrow> nat \<Rightarrow> bytes \<Rightarrow> bytes \<Rightarrow> bytes result" where
  "signMockHygonData g key msg buf off userID rnd =
     bindRes (sm2_Sm2Sign g key msg userID rnd) (\<lambda>(r, s).
     bindRes (padLeft32 (bigBytes r)) (\<lambda>r32.
     bindRes (padLeft32 (bigBytes s)) (\<lambda>s32.
       let buf1 = copyWindow buf (off + OffsetHygonSigR) (off + OffsetHygonSigR + 32) (ReverseCopy r32)
       in Inr (copyWindow buf1 (off + OffsetHygonSigS) (off + OffsetHygonSigS + 32) (ReverseCopy s32)))))"

definition mockRootCert :: "gmsm \<Rightarrow> string \<Rightarrow> 32 word \<Rightarrow> sm2pub \<Rightarrow> sm2priv \<Rightarrow> bytes \<Rightarrow> bytes \<Rightarrow> bytes result" where
  "mockRootCert g label usage pub signer userID rnd =
     (let cert0 = replicate HrkCertSize 0;
          cert1 = copy_at cert0 OffsetRootKeyUsage (LittleEndian_PutUint32 usage)
      in bindRes (putMockHygonPubKey cert1 OffsetRootPubKey pub userID) (\<lambda>cert2.
           wrapRes label (signMockHygonData g signer (take OffsetRootSig cert2) cert2 OffsetRootSig userID rnd)))"

definition mockCSVCert ::
    "gmsm \<Rightarrow> string \<Rightarrow> 32 word \<Rightarrow> 32 word \<Rightarrow> sm2pub \<Rightarrow> sm2priv \<Rightarrow> bytes \<Rightarrow> bytes \<Rightarrow> bytes result" where
  "mockCSVCert g label usage sig1 pub signer userID rnd =
     (let cert0 = replicate CSVCertSize 0;
          cert1 = copy_at cert0 OffsetCSVPubKeyUsage (LittleEndian_PutUint32 usage);
          cert2 = copy_at cert1 OffsetCSVSig1Usage (LittleEndian_PutUint32 sig1);
          cert3 = copy_at cert2 OffsetCSVSig2Usage (LittleEndian_PutUint32 KeyUsageInvalid)
      in bindRes (putMockHygonPubKey cert3 OffsetCSVPubKey pub userID) (\<lambda>cert4.
           wrapRes label
             (signMockHygonData g signer (take OffsetCSVSig1Usage cert4) cert4 OffsetCSVSig1 userID rnd)))"

definition generateCertificates ::
    "gmsm \<Rightarrow> (nat \<Rightarrow> bytes) \<Rightarrow> MockAttestationAuthority \<Rightarrow> MockAttestationAuthority result" where
  "generateCertificates g rnd a =
     bindRes (mockRootCert g ''sign hrk cert'' KeyUsageHRK (sk_pub (ma_hrkKey a)) (ma_hrkKey a)
       (ma_userID a) (rnd 0)) (\<lambda>hrkCert.
     bindRes (mockRootCert g ''sign hsk cert'' KeyUsageHSK (sk_pub (ma_hskKey a)) (ma_hrkKey a)
       (ma_userID a) (rnd 1)) (\<lambda>hskCert.
     bindRes (mockCSVCert g ''sign cek cert'' KeyUsageCEK KeyUsageHSK (sk_pub (ma_cekKey a)) (ma_hskKey a)
       (ma_userID a) (rnd 2)) (\<lambda>cekCert.
     bindRes (mockCSVCert g ''sign pek cert'' KeyUsagePEK KeyUsageCEK (sk_pub (ma_pekKey a)) (ma_cekKey a)
       (ma_userID a) (rnd 3)) (\<lambda>pekCert.
       Inr (a\<lparr>ma_hrkCert := hrkCert, ma_pekCert := pekCert, ma_hskCekCert := hskCert @ cekCert\<rparr>)))))"

definition NewMockAttestationAuthority :: "gmsm \<Rightarrow> (nat \<Rightarrow> bytes) \<Rightarrow> MockAttestationAuthority result" where
  "NewMockAttestationAuthority g rnd =
     bindRes (wrapRes ''generate hrk key'' (sm2_GenerateKey g (rnd 0))) (\<lambda>hrkKey.
     bindRes (wrapRes ''generate hsk key'' (sm2_GenerateKey g (rnd 1))) (\<lambda>hskKey.
     bindRes (wrapRes ''generate cek key'' (sm2_GenerateKey g (rnd 2))) (\<lambda>cekKey.
     bindRes (wrapRes ''generate pek key'' (sm2_GenerateKey g (rnd 3))) (\<lambda>pekKey.
       generateCertificates g (\<lambda>i. rnd (i + 4))
         \<lparr>ma_hrkKey = hrkKey, ma_hskKey = hskKey, ma_cekKey = cekKey, ma_pekKey = pekKey,
          ma_userID = stringBytes ''test-sm2-user'',
          ma_hrkCert = [], ma_hskCekCert = [], ma_pekCert = []\<rparr>))))"

definition HRKCert :: "MockAttestationAuthority \<Rightarrow> bytes" where
  "HRKCert a = ma_hrkCert a"

definition HSKCekCert :: "MockAttestationAuthority \<Rightarrow> bytes" where
  "HSKCekCert a = ma_hskCekCert a"

definition mockMeasurement :: "gostring \<Rightarrow> bytes" where
  "mockMeasurement measurementHex =
     (case hexDecode measurementHex of
        None \<Rightarrow> replicate HashSize 0x5A
      | Some m \<Rightarrow> if length m \<noteq> HashSize then replicate HashSize 0x5A else m)"

definition mockReport :: "MockAttestationAuthority \<Rightarrow> bytes \<Rightarrow> gostring \<Rightarrow> bytes" where
  "mockReport a userData measurementHex =
     (let report0 = replicate ReportSize 0;
          anonce = 0;
          report1 = copy_at report0 OffsetANonce (LittleEndian_PutUint32 anonce);
          userBytes = copy_at (replicate UserDataSize 0) 0 userData;
          report2 = copyWindow report1 OffsetUserData (OffsetUserData + UserDataSize) (UnmaskWords userBytes anonce);
          report3 = copyWindow report2 OffsetMNonce (OffsetMNonce + NonceSize)
            (UnmaskWords (stringBytes ''0123456789abcdef'') anonce);
          report4 = copyWindow report3 OffsetMeasure (OffsetMeasure + HashSize)
            (UnmaskWords (mockMeasurement measurementHex) anonce);
          report5 = copyWindow report4 OffsetPEKCert (OffsetPEKCert + CSVCertSize)
            (UnmaskWords (ma_pekCert a) anonce);
          chipID = stringBytes ''TESTCHIP0001'' @ replicate (ChipIDSize - 12) 0
      in copyWindow report5 OffsetChipID (OffsetChipID + ChipIDSize) (UnmaskWords chipID anonce))"

definition Generate ::
    "gmsm \<Rightarrow> bytes \<Rightarrow> MockAttestationAuthority \<Rightarrow> bytes \<Rightarrow> gostring \<Rightarrow> (bytes \<times> bytes \<times> bytes) result" where
  "Generate g rnd a userData measurementHex =
     (let report = mockReport a userData measurementHex
      in bindRes (wrapRes ''sign report''
           (signMockHygonData g (ma_pekKey a) (take SignedSize report) report OffsetReportSig1 (ma_userID a) rnd))
           (\<lambda>signed. Inr (signed, ma_hrkCert a, ma_hskCekCert a)))"

definition GenerateMockAttestationData ::
    "gmsm \<Rightarrow> (nat \<Rightarrow> bytes) \<Rightarrow> bytes \<Rightarrow> gostring \<Rightarrow> (bytes \<times> bytes \<times> bytes) result" where
  "GenerateMockAttestationData g rnd userData measurementHex =
     bindRes (NewMockAttestationAuthority g rnd) (\<lambda>a. Generate g (rnd 8) a userData measurementHex)"

section \<open>Layout lemmas\<close>

lemma padLeft32_ok: "n < 2 ^ 256 \<Longrightarrow> padLeft32 (bigBytes n) = Inr (be_of_nat 32 n)"
proof -
  assume n: "n < 2 ^ 256"
  then have len: "length (bigBytes n) \<le> 32" by (auto intro!: length_bigBytes_le)
  have pad: "replicate (32 - length (bigBytes n)) 0 @ bigBytes n = be_of_nat 32 n"
    using n by (auto intro!: padded_bigBytes)
  have "copy_at (replicate 32 0) (32 - length (bigBytes n)) (bigBytes n) = be_of_nat 32 n"
    using len unfolding pad[symmetric] by (simp add: copy_at_def)
  with len show ?thesis by (simp add: padLeft32_def)
qed

lemma slice_copy_at_other:
  "b \<le> lo \<or> lo + length src \<le> a \<Longrightarrow> lo + length src \<le> length dst \<Longrightarrow>
     slice (copy_at dst lo src) a b = slice dst a b"
  using slice_copy_at_before[of b lo dst src a] slice_copy_at_after[of lo src a dst b] by auto

lemma slice_copy_at_written:
  "lo + length src \<le> length dst \<Longrightarrow> hi = lo + length src \<Longrightarrow> slice (copy_at dst lo src) lo hi = src"
  using slice_copy_at_same by blast

lemma copyWindow_exact: "length src = hi - lo \<Longrightarrow> copyWindow dst lo hi src = copy_at dst lo src"
  by (simp add: copyWindow_def)

lemma slice_drop: "slice (drop k xs) a b = slice xs (k + a) (k + b)"
  by (simp add: slice_def add.commute)

lemma LittleEndian_Uint32_slice: "LittleEndian_Uint32 (drop k xs) = LittleEndian_Uint32 (slice xs k (k + 4))"
  by (simp add: LittleEndian_Uint32_def slice_def)

lemma LittleEndian_Uint16_slice: "LittleEndian_Uint16 (drop k xs) = LittleEndian_Uint16 (slice xs k (k + 2))"
  by (simp add: LittleEndian_Uint16_def slice_def)

text \<open>A public key and a signature in the Hygon layout at an offset of a buffer.\<close>

definition keyAt :: "bytes \<Rightarrow> nat \<Rightarrow> sm2pub \<Rightarrow> bytes \<Rightarrow> bool" where
  "keyAt buf off pub uid \<longleftrightarrow> off + 0x194 \<le> length buf \<and> length uid \<le> 254 \<and>
     pk_X pub < 2 ^ 256 \<and> pk_Y pub < 2 ^ 256 \<and>
     slice buf off (off + 4) = LittleEndian_PutUint32 CurveIDSM2 \<and>
     slice buf (off + 0x4) (off + 0x24) = rev (be_of_nat 32 (pk_X pub)) \<and>
     slice buf (off + 0x4c) (off + 0x6c) = rev (be_of_nat 32 (pk_Y pub)) \<and>
     slice buf (off + 0x94) (off + 0x96) = LittleEndian_PutUint16 (word_of_nat (length uid)) \<and>
     slice buf (off + 0x96) (off + 0x96 + length uid) = uid"

definition sigAt :: "bytes \<Rightarrow> nat \<Rightarrow> nat \<Rightarrow> nat \<Rightarrow> bool" where
  "sigAt buf off r s \<longleftrightarrow> off + 0x68 \<le> length buf \<and> r < 2 ^ 256 \<and> s < 2 ^ 256 \<and>
     slice buf off (off + 32) = rev (be_of_nat 32 r) \<and>
     slice buf (off + 0x48) (off + 0x68) = rev (be_of_nat 32 s)"

text \<open>Two buffers agree outside a window.\<close>

definition sameOutside :: "nat \<Rightarrow> nat \<Rightarrow> bytes \<Rightarrow> bytes \<Rightarrow> bool" where
  "sameOutside lo hi buf buf' \<longleftrightarrow> length buf' = length buf \<and>
     (\<forall>a b. b \<le> lo \<or> hi \<le> a \<longrightarrow> slice buf' a b = slice buf a b)"

lemma sameOutside_length: "sameOutside lo hi buf buf' \<Longrightarrow> length buf' = length buf"
  by (simp add: sameOutside_def)

lemma sameOutside_slice:
  "sameOutside lo hi buf buf' \<Longrightarrow> b \<le> lo \<or> hi \<le> a \<Longrightarrow> slice buf' a b = slice buf a b"
  unfolding sameOutside_def by blast

lemma sameOutside_take: "sameOutside lo hi buf buf' \<Longrightarrow> n \<le> lo \<Longrightarrow> take n buf' = take n buf"
  using sameOutside_slice[of lo hi buf buf' n 0] by (simp add: slice_0_take)

lemma sameOutside_copy:
  "lo \<le> k \<Longrightarrow> k + length src \<le> hi \<Longrightarrow> hi \<le> length buf \<Longrightarrow> sameOutside lo hi buf buf' \<Longrightarrow>
     sameOutside lo hi buf (copy_at buf' k src)"
  by (auto simp: sameOutside_def slice_copy_at_other)

lemma sameOutside_refl [simp]: "sameOutside lo hi buf buf"
  by (simp add: sameOutside_def)

lemma keyAt_frame:
  assumes "keyAt buf off pub uid" "sameOutside lo hi buf buf'" "hi \<le> off \<or> off + 0x194 \<le> lo"
  shows "keyAt buf' off pub uid"
  using assms unfolding keyAt_def by (auto simp: sameOutside_slice[OF assms(2)] sameOutside_length[OF assms(2)])

lemma sigAt_frame:
  assumes "sigAt buf off r s" "sameOutside lo hi buf buf'" "hi \<le> off \<or> off + 0x68 \<le> lo"
  shows "sigAt buf' off r s"
  using assms unfolding sigAt_def by (auto simp: sameOutside_slice[OF assms(2)] sameOutside_length[OF assms(2)])

lemma keyAt_parse:
  assumes "keyAt buf off pub uid"
  shows "\<exists>p. parseHygonPubKey (drop off buf) = Inr p \<and> hp_Key p = pub \<and> hp_UserID p = uid"
proof -
  define d where "d = drop off buf"
  have sl: "slice d a b = slice buf (off + a) (off + b)" for a b by (simp add: d_def slice_drop)
  have len: "0x194 \<le> length d" "length uid \<le> 254" using assms by (auto simp: keyAt_def d_def)
  have k: "slice d 0 4 = LittleEndian_PutUint32 CurveIDSM2"
    "slice d 4 36 = rev (be_of_nat 32 (pk_X pub))" "slice d 76 108 = rev (be_of_nat 32 (pk_Y pub))"
    "slice d 148 150 = LittleEndian_PutUint16 (word_of_nat (length uid))"
    "slice d 150 (150 + length uid) = uid"
    using assms by (simp_all add: keyAt_def sl add.assoc)
  have curve: "LittleEndian_Uint32 d = CurveIDSM2"
    using k(1) LittleEndian_Uint32_slice[of 0 d] LittleEndian_Uint32_Put[of CurveIDSM2 "[]"] by simp
  have x: "nat_of_be (rev (slice d 4 36)) = pk_X pub" and y: "nat_of_be (rev (slice d 76 108)) = pk_Y pub"
    using assms by (simp_all add: k keyAt_def nat_of_be_of_nat)
  have n: "unat (LittleEndian_Uint16 (drop 148 d)) = length uid"
    using k(4) len LittleEndian_Uint16_Put[of "word_of_nat (length uid)" "[]"]
    by (simp add: LittleEndian_Uint16_slice unat_of_nat)
  have u: "slice (drop 148 d) 2 (2 + length uid) = uid"
    using k(5) by (simp add: slice_drop)
  have "\<exists>p. parseHygonPubKey d = Inr p \<and> hp_Key p = pub \<and> hp_UserID p = uid"
    using len curve x y n u unfolding parseHygonPubKey_def Let_def by simp
  then show ?thesis by (simp add: d_def)
qed

lemma sigAt_parse:
  assumes "sigAt buf off r s"
  shows "ParseHygonSignature (drop off buf) = (r, s)"
proof -
  have "104 \<le> length (drop off buf)" using assms by (auto simp: sigAt_def)
  then show ?thesis using assms by (simp add: sigAt_def ParseHygonSignature_def slice_drop nat_of_be_of_nat)
qed

lemma putMockHygonPubKey_ok:
  assumes "off + 0x194 \<le> length buf" "length uid \<le> 254" "pk_X pub < 2 ^ 256" "pk_Y pub < 2 ^ 256"
  obtains buf' where "putMockHygonPubKey buf off pub uid = Inr buf'"
    "keyAt buf' off pub uid" "sameOutside off (off + 0x194) buf buf'"
proof -
  let ?x = "rev (be_of_nat 32 (pk_X pub))" and ?y = "rev (be_of_nat 32 (pk_Y pub))"
  let ?b1 = "copy_at buf off (LittleEndian_PutUint32 CurveIDSM2)"
  let ?b2 = "copy_at ?b1 (off + 4) ?x"
  let ?b3 = "copy_at ?b2 (off + 0x4c) ?y"
  let ?b4 = "copy_at ?b3 (off + 0x94) (LittleEndian_PutUint16 (word_of_nat (length uid)))"
  let ?b5 = "copy_at ?b4 (off + 0x96) uid"
  have put: "putMockHygonPubKey buf off pub uid = Inr ?b5"
    by (simp add: putMockHygonPubKey_def padLeft32_ok[OF assms(3)] padLeft32_ok[OF assms(4)] copyWindow_exact
        add.commute[of off])
  have len: "length ?b1 = length buf" "length ?b2 = length buf" "length ?b3 = length buf"
      "length ?b4 = length buf" "length ?b5 = length buf"
    using assms(1) by simp_all
  have "slice ?b1 off (off + 4) = LittleEndian_PutUint32 CurveIDSM2"
    by (rule slice_copy_at_written) (use assms(1) in simp_all)
  moreover have "slice ?b2 (off + 4) (off + 0x24) = ?x"
    by (rule slice_copy_at_written) (use assms(1) len in simp_all)
  moreover have "slice ?b3 (off + 0x4c) (off + 0x6c) = ?y"
    by (rule slice_copy_at_written) (use assms(1) len in simp_all)
  moreover have "slice ?b4 (off + 0x94) (off + 0x96) = LittleEndian_PutUint16 (word_of_nat (length uid))"
    by (rule slice_copy_at_written) (use assms(1) len in simp_all)
  moreover have "slice ?b5 (off + 0x96) (off + 0x96 + length uid) = uid"
    by (rule slice_copy_at_written) (use assms(1,2) len in simp_all)
  ultimately have "keyAt ?b5 off pub uid"
    using assms len by (simp add: keyAt_def slice_copy_at_other)
  moreover have "sameOutside off (off + 0x194) buf ?b5"
    using assms by (intro sameOutside_copy) simp_all
  ultimately show thesis using put that by blast
qed

lemma signMockHygonData_ok:
  assumes "signMockHygonData g key msg buf off uid rnd = Inr buf'" "off + 0x68 \<le> length buf"
    and range: "\<And>r s. sm2_Sm2Sign g key msg uid rnd = Inr (r, s) \<Longrightarrow> r < 2 ^ 256 \<and> s < 2 ^ 256"
  obtains r s where "sm2_Sm2Sign g key msg uid rnd = Inr (r, s)" "sigAt buf' off r s"
    "sameOutside off (off + 0x68) buf buf'"
proof -
  obtain r s where sg: "sm2_Sm2Sign g key msg uid rnd = Inr (r, s)"
    using assms(1) by (auto simp: signMockHygonData_def bindRes_Inr)
  have rs: "r < 2 ^ 256" "s < 2 ^ 256" using range[OF sg] by auto
  let ?b1 = "copy_at buf off (rev (be_of_nat 32 r))"
  have buf': "buf' = copy_at ?b1 (off + 0x48) (rev (be_of_nat 32 s))"
    using assms(1) by (simp add: signMockHygonData_def sg padLeft32_ok[OF rs(1)] padLeft32_ok[OF rs(2)]
        copyWindow_exact)
  have len: "length ?b1 = length buf" using assms(2) by simp
  have "slice ?b1 off (off + 32) = rev (be_of_nat 32 r)"
    by (rule slice_copy_at_written) (use assms(2) in simp_all)
  moreover have "slice buf' (off + 0x48) (off + 0x68) = rev (be_of_nat 32 s)"
    unfolding buf' by (rule slice_copy_at_written) (use assms(2) len in simp_all)
  ultimately have "sigAt buf' off r s"
    using assms(2) len rs by (simp add: sigAt_def buf' slice_copy_at_other)
  moreover have "sameOutside off (off + 0x68) buf buf'"
    unfolding buf' using assms(2) by (intro sameOutside_copy) simp_all
  ultimately show thesis using sg that by blast
qed

section \<open>The generated chain\<close>

text \<open>
  What the documentation of \<^verbatim>\<open>gmsm/sm2\<close> promises of a generated key: 256-bit coordinates, and signatures with
  256-bit halves that verify under its public key.
\<close>

definition goodKey :: "gmsm \<Rightarrow> sm2priv \<Rightarrow> bool" where
  "goodKey g key \<longleftrightarrow> pk_X (sk_pub key) < 2 ^ 256 \<and> pk_Y (sk_pub key) < 2 ^ 256 \<and>
     (\<forall>msg uid rnd r s. sm2_Sm2Sign g key msg uid rnd = Inr (r, s) \<longrightarrow>
        r < 2 ^ 256 \<and> s < 2 ^ 256 \<and> sm2_Sm2Verify g (sk_pub key) msg uid r s)"

definition sm2Documented :: "gmsm \<Rightarrow> bool" where
  "sm2Documented g \<longleftrightarrow> (\<forall>rnd key. sm2_GenerateKey g rnd = Inr key \<longrightarrow> goodKey g key)"

text \<open>A signature at \<open>off\<close> over the first \<open>n\<close> bytes that any key parsed for the signer verifies.\<close>

definition signedAt :: "gmsm \<Rightarrow> bytes \<Rightarrow> nat \<Rightarrow> nat \<Rightarrow> sm2pub \<Rightarrow> bytes \<Rightarrow> bool" where
  "signedAt g buf n off signer uid \<longleftrightarrow>
     (\<forall>p. hp_Key p = signer \<and> hp_UserID p = uid \<longrightarrow>
        verifyHygonSignature g p (take n buf) (drop off buf))"

lemma signMock_signedAt:
  assumes sg: "signMockHygonData g key (take n buf) buf off uid rnd = Inr buf'"
    and room: "off + 0x68 \<le> length buf" "n \<le> off" and good: "goodKey g key"
  shows "signedAt g buf' n off (sk_pub key) uid \<and> sameOutside off (off + 0x68) buf buf'"
proof -
  have range: "r < 2 ^ 256 \<and> s < 2 ^ 256" if "sm2_Sm2Sign g key (take n buf) uid rnd = Inr (r, s)" for r s
    using good that by (auto simp: goodKey_def)
  obtain r s where rs: "sm2_Sm2Sign g key (take n buf) uid rnd = Inr (r, s)" "sigAt buf' off r s"
    "sameOutside off (off + 0x68) buf buf'"
    using signMockHygonData_ok[OF sg room(1) range] by blast
  have "take n buf' = take n buf" using sameOutside_take[OF rs(3) room(2)] .
  moreover have "sm2_Sm2Verify g (sk_pub key) (take n buf) uid r s" using good rs(1) by (auto simp: goodKey_def)
  ultimately show ?thesis
    using sigAt_parse[OF rs(2)] rs(3) by (simp add: signedAt_def verifyHygonSignature_def)
qed

lemma usageOf_slice: "usageOf cert off = LittleEndian_Uint32 (slice cert off (off + 4))"
  by (simp add: usageOf_def LittleEndian_Uint32_slice)

lemma LittleEndian_Uint32_PutUint32 [simp]: "LittleEndian_Uint32 (LittleEndian_PutUint32 w) = w"
  using LittleEndian_Uint32_Put[of w "[]"] by simp

lemma mockRootCert_ok:
  assumes mk: "mockRootCert g label usage pub signer uid rnd = Inr cert"
    and pub: "pk_X pub < 2 ^ 256" "pk_Y pub < 2 ^ 256" and uid: "length uid \<le> 254" and good: "goodKey g signer"
  shows "length cert = 0x340 \<and> keyAt cert 0x40 pub uid \<and> usageOf cert 0x24 = usage \<and>
    signedAt g cert 0x240 0x240 (sk_pub signer) uid"
proof -
  define c1 where "c1 = copy_at (replicate 0x340 0) 0x24 (LittleEndian_PutUint32 usage)"
  have len: "length c1 = 0x340" by (simp add: c1_def)
  then have room: "0x40 + 0x194 \<le> length c1" by simp
  obtain c2 where put: "putMockHygonPubKey c1 0x40 pub uid = Inr c2" "keyAt c2 0x40 pub uid"
    "sameOutside 0x40 (0x40 + 0x194) c1 c2"
    by (rule putMockHygonPubKey_ok[OF room uid pub])
  have len2: "length c2 = 0x340" using sameOutside_length[OF put(3)] len by simp
  have sg: "signMockHygonData g signer (take 0x240 c2) c2 0x240 uid rnd = Inr cert"
    using mk put(1) by (simp add: mockRootCert_def c1_def)
  have fin: "signedAt g cert 0x240 0x240 (sk_pub signer) uid" "sameOutside 0x240 (0x240 + 0x68) c2 cert"
    using signMock_signedAt[OF sg _ _ good] len2 by simp_all
  have "slice cert 0x24 0x28 = slice c2 0x24 0x28" using sameOutside_slice[OF fin(2)] by simp
  also have "\<dots> = slice c1 0x24 0x28" using sameOutside_slice[OF put(3)] by simp
  also have "\<dots> = LittleEndian_PutUint32 usage" unfolding c1_def by (rule slice_copy_at_written) simp_all
  finally have "usageOf cert 0x24 = usage" by (simp add: usageOf_slice)
  moreover have "keyAt cert 0x40 pub uid" by (rule keyAt_frame[OF put(2) fin(2)]) simp
  ultimately show ?thesis using fin(1) sameOutside_length[OF fin(2)] len2 by simp
qed

lemma mockCSVCert_ok:
  assumes mk: "mockCSVCert g label usage sig1 pub signer uid rnd = Inr cert"
    and pub: "pk_X pub < 2 ^ 256" "pk_Y pub < 2 ^ 256" and uid: "length uid \<le> 254" and good: "goodKey g signer"
  shows "length cert = 0x824 \<and> keyAt cert 0x10 pub uid \<and> usageOf cert 0x08 = usage \<and>
    usageOf cert 0x414 = sig1 \<and> usageOf cert 0x61c = KeyUsageInvalid \<and>
    signedAt g cert 0x414 0x41c (sk_pub signer) uid"
proof -
  define c1 where "c1 = copy_at (replicate 0x824 0) 0x08 (LittleEndian_PutUint32 usage)"
  define c2 where "c2 = copy_at c1 0x414 (LittleEndian_PutUint32 sig1)"
  define c3 where "c3 = copy_at c2 0x61c (LittleEndian_PutUint32 KeyUsageInvalid)"
  have len: "length c1 = 0x824" "length c2 = 0x824" "length c3 = 0x824"
    by (simp_all add: c1_def c2_def c3_def)
  have room: "0x10 + 0x194 \<le> length c3" using len by simp
  obtain c4 where put: "putMockHygonPubKey c3 0x10 pub uid = Inr c4" "keyAt c4 0x10 pub uid"
    "sameOutside 0x10 (0x10 + 0x194) c3 c4"
    by (rule putMockHygonPubKey_ok[OF room uid pub])
  have len4: "length c4 = 0x824" using sameOutside_length[OF put(3)] len by simp
  have sg: "signMockHygonData g signer (take 0x414 c4) c4 0x41c uid rnd = Inr cert"
    using mk put(1) by (simp add: mockCSVCert_def c1_def c2_def c3_def)
  have fin: "signedAt g cert 0x414 0x41c (sk_pub signer) uid" "sameOutside 0x41c (0x41c + 0x68) c4 cert"
    using signMock_signedAt[OF sg _ _ good] len4 by simp_all
  have unch: "slice cert a b = slice c3 a b" if "b \<le> 0x10 \<or> 0x1a4 \<le> a \<and> b \<le> 0x41c \<or> 0x484 \<le> a" for a b
    using that sameOutside_slice[OF fin(2), of b a] sameOutside_slice[OF put(3), of b a] by auto
  have "slice c1 0x08 0x0c = LittleEndian_PutUint32 usage"
    unfolding c1_def by (rule slice_copy_at_written) simp_all
  moreover have "slice c2 0x414 0x418 = LittleEndian_PutUint32 sig1"
    unfolding c2_def by (rule slice_copy_at_written) (simp_all add: len)
  moreover have "slice c3 0x61c 0x620 = LittleEndian_PutUint32 KeyUsageInvalid"
    unfolding c3_def by (rule slice_copy_at_written) (simp_all add: len)
  moreover have "slice c3 0x08 0x0c = slice c1 0x08 0x0c" "slice c3 0x414 0x418 = slice c2 0x414 0x418"
    unfolding c3_def c2_def by (simp_all add: slice_copy_at_other len)
  ultimately have "usageOf cert 0x08 = usage" "usageOf cert 0x414 = sig1" "usageOf cert 0x61c = KeyUsageInvalid"
    by (simp_all add: usageOf_slice unch)
  moreover have "keyAt cert 0x10 pub uid" by (rule keyAt_frame[OF put(2) fin(2)]) simp
  ultimately show ?thesis using fin(1) sameOutside_length[OF fin(2)] len4 by simp
qed

text \<open>The authority's certificates form a trusted chain for its PEK.\<close>

definition authorityOk :: "gmsm \<Rightarrow> MockAttestationAuthority \<Rightarrow> bool" where
  "authorityOk g a \<longleftrightarrow> goodKey g (ma_pekKey a) \<and> length (ma_hrkCert a) = 0x340 \<and>
     length (ma_hskCekCert a) = 0xb64 \<and> length (ma_pekCert a) = 0x824 \<and>
     keyAt (ma_pekCert a) 0x10 (sk_pub (ma_pekKey a)) (ma_userID a) \<and>
     chainTrusted g (ma_hrkCert a) (take 0x340 (ma_hskCekCert a)) (slice (ma_hskCekCert a) 0x340 0xb64) (ma_pekCert a)"

lemma keyAt_signedAt:
  assumes "keyAt cert off pub uid" "signedAt g buf n k pub uid"
  shows "\<exists>p. parseHygonPubKey (drop off cert) = Inr p \<and> verifyHygonSignature g p (take n buf) (drop k buf)"
  using keyAt_parse[OF assms(1)] assms(2) by (auto simp: signedAt_def)

lemma NewMockAttestationAuthority_ok:
  assumes doc: "sm2Documented g" and mk: "NewMockAttestationAuthority g rnd = Inr a"
  shows "authorityOk g a"
proof -
  let ?uid = "stringBytes ''test-sm2-user''"
  have uid: "length ?uid \<le> 254" by (simp add: stringBytes_def)
  obtain kh ks kc kp where keys: "goodKey g kh" "goodKey g ks" "goodKey g kc" "goodKey g kp"
    and gen: "generateCertificates g (\<lambda>i. rnd (i + 4))
         \<lparr>ma_hrkKey = kh, ma_hskKey = ks, ma_cekKey = kc, ma_pekKey = kp, ma_userID = ?uid,
          ma_hrkCert = [], ma_hskCekCert = [], ma_pekCert = []\<rparr> = Inr a"
    using mk doc unfolding NewMockAttestationAuthority_def bindRes_Inr wrapRes_Inr sm2Documented_def by blast
  have coords: "pk_X (sk_pub k) < 2 ^ 256" "pk_Y (sk_pub k) < 2 ^ 256" if "goodKey g k" for k
    using that by (simp_all add: goodKey_def)
  obtain hrk hsk cek pek where certs:
    "mockRootCert g ''sign hrk cert'' KeyUsageHRK (sk_pub kh) kh ?uid (rnd 4) = Inr hrk"
    "mockRootCert g ''sign hsk cert'' KeyUsageHSK (sk_pub ks) kh ?uid (rnd 5) = Inr hsk"
    "mockCSVCert g ''sign cek cert'' KeyUsageCEK KeyUsageHSK (sk_pub kc) ks ?uid (rnd 6) = Inr cek"
    "mockCSVCert g ''sign pek cert'' KeyUsagePEK KeyUsageCEK (sk_pub kp) kc ?uid (rnd 7) = Inr pek"
    and a: "a = \<lparr>ma_hrkKey = kh, ma_hskKey = ks, ma_cekKey = kc, ma_pekKey = kp, ma_userID = ?uid,
      ma_hrkCert = hrk, ma_hskCekCert = hsk @ cek, ma_pekCert = pek\<rparr>"
    using gen by (auto simp: generateCertificates_def bindRes_Inr)
  note oh = mockRootCert_ok[OF certs(1) coords[OF keys(1)] uid keys(1)]
    and os = mockRootCert_ok[OF certs(2) coords[OF keys(2)] uid keys(1)]
    and oc = mockCSVCert_ok[OF certs(3) coords[OF keys(3)] uid keys(2)]
    and op = mockCSVCert_ok[OF certs(4) coords[OF keys(4)] uid keys(3)]
  obtain ph where ph: "parseHygonPubKey (drop 0x40 hrk) = Inr ph" "hp_Key ph = sk_pub kh" "hp_UserID ph = ?uid"
    using oh keyAt_parse by blast
  obtain ps where ps: "parseHygonPubKey (drop 0x40 hsk) = Inr ps" "hp_Key ps = sk_pub ks" "hp_UserID ps = ?uid"
    using os keyAt_parse by blast
  obtain pc where pc: "parseHygonPubKey (drop 0x10 cek) = Inr pc" "hp_Key pc = sk_pub kc" "hp_UserID pc = ?uid"
    using oc keyAt_parse by blast
  obtain pp where pp: "parseHygonPubKey (drop 0x10 pek) = Inr pp" using op keyAt_parse by blast
  have "chainTrusted g hrk hsk cek pek"
    unfolding chainTrusted_def using ph ps pc pp oh os oc op by (auto simp: signedAt_def)
  then show ?thesis
    unfolding authorityOk_def a using keys(4) oh os oc op by (simp add: slice_def)
qed

section \<open>The generated report\<close>

lemma length_mockMeasurement [simp]: "length (mockMeasurement m) = 32"
  by (simp add: mockMeasurement_def split: option.splits)

definition mockChipID :: bytes where
  "mockChipID = stringBytes ''TESTCHIP0001'' @ replicate 52 0"

lemma length_stringBytes [simp, bytes_simps]: "length (stringBytes cs) = length cs"
  by (simp add: stringBytes_def)

lemma mockChipID_ascii: "ChipIDASCII mockChipID = Inr (stringBytes ''TESTCHIP0001'')"
  by code_simp

lemma mockReport_fields:
  fixes ud m
  assumes pek: "length (ma_pekCert a) = 0x824"
  defines "rep \<equiv> mockReport a ud m"
  shows "length rep = 0x9f4" "slice rep 0x40 0x80 = copy_at (replicate 64 0) 0 ud"
    "slice rep 0x90 0xb0 = mockMeasurement m" "slice rep 0xbc 0xc0 = LittleEndian_PutUint32 0"
    "slice rep 0x150 0x974 = ma_pekCert a" "slice rep 0x974 0x9b4 = mockChipID"
proof -
  define r1 where "r1 = copy_at (replicate 0x9f4 0) 0xbc (LittleEndian_PutUint32 0)"
  define r2 where "r2 = copy_at r1 0x40 (copy_at (replicate 64 0) 0 ud)"
  define r3 where "r3 = copy_at r2 0x80 (stringBytes ''0123456789abcdef'')"
  define r4 where "r4 = copy_at r3 0x90 (mockMeasurement m)"
  define r5 where "r5 = copy_at r4 0x150 (ma_pekCert a)"
  define r6 where "r6 = copy_at r5 0x974 mockChipID"
  have chip: "length mockChipID = 64" by (simp add: mockChipID_def)
  have rep: "rep = r6"
    unfolding rep_def mockReport_def Let_def r1_def r2_def r3_def r4_def r5_def r6_def mockChipID_def
    using pek by (simp add: copyWindow_exact)
  have len: "length r1 = 0x9f4" "length r2 = 0x9f4" "length r3 = 0x9f4" "length r4 = 0x9f4"
      "length r5 = 0x9f4" "length r6 = 0x9f4"
    by (simp_all add: r1_def r2_def r3_def r4_def r5_def r6_def)
  have w: "slice r1 0xbc 0xc0 = LittleEndian_PutUint32 0" "slice r2 0x40 0x80 = copy_at (replicate 64 0) 0 ud"
    "slice r4 0x90 0xb0 = mockMeasurement m" "slice r5 0x150 0x974 = ma_pekCert a" "slice r6 0x974 0x9b4 = mockChipID"
    unfolding r1_def r2_def r4_def r5_def r6_def
    by (rule slice_copy_at_written; simp add: len pek chip)+
  have k6: "slice r6 x y = slice r5 x y" if "y \<le> 0x974" for x y
    using that unfolding r6_def by (simp add: slice_copy_at_other len chip)
  have k5: "slice r5 x y = slice r4 x y" if "y \<le> 0x150" for x y
    using that unfolding r5_def by (simp add: slice_copy_at_other len pek)
  have k4: "slice r4 x y = slice r3 x y" if "y \<le> 0x90 \<or> 0xb0 \<le> x" for x y
    using that unfolding r4_def by (simp add: slice_copy_at_other len)
  have k3: "slice r3 x y = slice r2 x y" if "y \<le> 0x80 \<or> 0x90 \<le> x" for x y
    using that unfolding r3_def by (simp add: slice_copy_at_other len)
  have k2: "slice r2 x y = slice r1 x y" if "0x80 \<le> x" for x y
    using that unfolding r2_def by (simp add: slice_copy_at_other len)
  show "length rep = 0x9f4" by (simp add: rep len)
  show "slice rep 0x40 0x80 = copy_at (replicate 64 0) 0 ud" "slice rep 0x90 0xb0 = mockMeasurement m"
    "slice rep 0xbc 0xc0 = LittleEndian_PutUint32 0" "slice rep 0x150 0x974 = ma_pekCert a"
    "slice rep 0x974 0x9b4 = mockChipID"
    by (simp_all add: rep k6 k5 k4 k3 k2 w)
qed

lemma Generate_ok:
  assumes ok: "authorityOk g a" and gen: "Generate g rnd a ud m = Inr (rep, hrk, hskCek)"
  shows "hrk = ma_hrkCert a" "hskCek = ma_hskCekCert a" "length rep = 0x9f4" "anonceOf rep = 0"
    "slice rep 0x40 0x80 = copy_at (replicate 64 0) 0 ud" "slice rep 0x90 0xb0 = mockMeasurement m"
    "pekOf rep = ma_pekCert a" "chipOf rep = Inr (stringBytes ''TESTCHIP0001'')" "pekSigned g rep"
proof -
  let ?r = "mockReport a ud m"
  have a: "goodKey g (ma_pekKey a)" "length (ma_pekCert a) = 0x824"
    "keyAt (ma_pekCert a) 0x10 (sk_pub (ma_pekKey a)) (ma_userID a)"
    using ok by (simp_all add: authorityOk_def)
  note f = mockReport_fields[OF a(2), of ud m]
  have sg: "signMockHygonData g (ma_pekKey a) (take 0xb4 ?r) ?r 0xc0 (ma_userID a) rnd = Inr rep"
    and out: "hrk = ma_hrkCert a" "hskCek = ma_hskCekCert a"
    using gen by (auto simp: Generate_def bindRes_Inr Let_def)
  have s: "signedAt g rep 0xb4 0xc0 (sk_pub (ma_pekKey a)) (ma_userID a)" "sameOutside 0xc0 (0xc0 + 0x68) ?r rep"
    using signMock_signedAt[OF sg _ _ a(1)] f(1) by simp_all
  note same = sameOutside_slice[OF s(2)]
  show "hrk = ma_hrkCert a" "hskCek = ma_hskCekCert a" by fact+
  show len: "length rep = 0x9f4" using sameOutside_length[OF s(2)] f(1) by simp
  show an: "anonceOf rep = 0" by (simp add: anonceOf_def same f)
  show "slice rep 0x40 0x80 = copy_at (replicate 64 0) 0 ud" "slice rep 0x90 0xb0 = mockMeasurement m"
    by (simp_all add: same f)
  show pek: "pekOf rep = ma_pekCert a" by (simp add: pekOf_def an same f)
  show "chipOf rep = Inr (stringBytes ''TESTCHIP0001'')"
    by (simp add: chipOf_def an same f mockChipID_ascii)
  have "ParseHygonSignature (slice rep 0xc0 0x150) = ParseHygonSignature (drop 0xc0 rep)"
    using len by (simp add: ParseHygonSignature_def slice_def min_def drop_take)
  then show "pekSigned g rep"
    using keyAt_signedAt[OF a(3) s(1)] by (auto simp: pekSigned_def pek verifyHygonSignature_def)
qed

definition trustedChainOptions :: "bytes \<Rightarrow> bytes \<Rightarrow> VerifyOptions" where
  "trustedChainOptions hrk hskCek =
     \<lparr>vo_VerifyChain = True, vo_TrustedHRKCertBytes = hrk, vo_TrustedHRKCertPath = [],
      vo_HSKCekCertBytes = hskCek, vo_HSKCekCertPath = [], vo_CertDir = [],
      vo_HRKCertBytes = [], vo_HRKCertPath = []\<rparr>"

lemma authority_chainVerified:
  assumes "authorityOk g a" "ci_HRK certs = ma_hrkCert a" "ci_HSKCEK certs = ma_hskCekCert a"
  shows "chainVerified g certs (ma_pekCert a)"
  using assms by (simp add: chainVerified_def authorityOk_def)

lemma Generate_accepted:
  assumes ok: "authorityOk g a" and gen: "Generate g rnd a ud m = Inr (rep, hrk, hskCek)"
    and load: "loadChainFromOptions fs opts (stringBytes ''TESTCHIP0001'') = Inr certs"
    and certs: "ci_HRK certs = ma_hrkCert a" "ci_HSKCEK certs = ma_hskCekCert a"
  shows "reportAccepted g fs opts rep"
  using Generate_ok[OF ok gen] load authority_chainVerified[OF ok certs]
  by (auto simp: reportAccepted_def Let_def)

text \<open>
  If SM2 keys and signatures do what their package documents, the mock report and chain of
  \<^verbatim>\<open>GenerateMockAttestationData\<close> verify in full, chain included, and the verification result carries the
  requested user data, zero-padded, and the requested measurement (or the default one when the text
  is not 32 hexadecimal bytes).
\<close>

theorem mock_report_verifies:
  assumes "sm2Documented g" and gen: "GenerateMockAttestationData g rnd ud m = Inr (rep, hrk, hskCek)"
  shows "\<exists>res. VerifyReportWithOptions g fs rep (trustedChainOptions hrk hskCek) = (Some res, None) \<and>
    vr_ChainVerified res \<and> vr_UserData res = copy_at (replicate UserDataSize 0) 0 ud \<and>
    vr_Digest res = mockMeasurement m"
proof -
  obtain a where a: "NewMockAttestationAuthority g rnd = Inr a" and gn: "Generate g (rnd 8) a ud m = Inr (rep, hrk, hskCek)"
    using gen by (auto simp: GenerateMockAttestationData_def bindRes_Inr)
  have ok: "authorityOk g a" by (rule NewMockAttestationAuthority_ok[OF assms(1) a])
  note f = Generate_ok[OF ok gn]
  have "hrk \<noteq> []" "hskCek \<noteq> []" using f(1,2) ok by (auto simp: authorityOk_def)
  then have load: "loadChainFromOptions fs (trustedChainOptions hrk hskCek) (stringBytes ''TESTCHIP0001'') =
      Inr \<lparr>ci_HRK = hrk, ci_HSKCEK = hskCek, ci_Source = stringBytes ''in-memory trusted HRK and HSK/CEK bytes''\<rparr>"
    by (simp add: loadChainFromOptions_def trustedChainOptions_def)
  have "reportAccepted g fs (trustedChainOptions hrk hskCek) rep"
    by (rule Generate_accepted[OF ok gn load]) (simp_all add: f)
  from VerifyReportWithOptions_accepts[OF this] f show ?thesis
    by (auto simp: resultOf_def Let_def trustedChainOptions_def)
qed

section \<open>Generation succeeds\<close>

definition signsAll :: "gmsm \<Rightarrow> sm2priv \<Rightarrow> bool" where
  "signsAll g key \<longleftrightarrow> (\<forall>msg uid rnd. \<exists>r s. sm2_Sm2Sign g key msg uid rnd = Inr (r, s))"

lemma signMockHygonData_total:
  assumes "goodKey g key" "signsAll g key"
  shows "\<exists>buf'. signMockHygonData g key msg buf off uid rnd = Inr buf'"
proof -
  obtain r s where rs: "sm2_Sm2Sign g key msg uid rnd = Inr (r, s)" using assms(2) unfolding signsAll_def by blast
  have "r < 2 ^ 256" "s < 2 ^ 256" using assms(1) rs unfolding goodKey_def by blast+
  then show ?thesis by (simp add: signMockHygonData_def rs padLeft32_ok[of r] padLeft32_ok[of s])
qed

lemma putMockHygonPubKey_total:
  "pk_X pub < 2 ^ 256 \<Longrightarrow> pk_Y pub < 2 ^ 256 \<Longrightarrow> \<exists>buf'. putMockHygonPubKey buf off pub uid = Inr buf'"
  by (simp add: putMockHygonPubKey_def padLeft32_ok[of "pk_X pub"] padLeft32_ok[of "pk_Y pub"])

lemma mockCerts_total:
  assumes "goodKey g owner" "goodKey g signer" "signsAll g signer"
  shows "\<exists>c. mockRootCert g label usage (sk_pub owner) signer uid rnd = Inr c"
    and "\<exists>c. mockCSVCert g label usage sig1 (sk_pub owner) signer uid rnd = Inr c"
proof -
  have xy: "pk_X (sk_pub owner) < 2 ^ 256" "pk_Y (sk_pub owner) < 2 ^ 256"
    using assms(1) by (simp_all add: goodKey_def)
  show "\<exists>c. mockRootCert g label usage (sk_pub owner) signer uid rnd = Inr c"
    using putMockHygonPubKey_total[OF xy] signMockHygonData_total[OF assms(2,3)]
    unfolding mockRootCert_def Let_def bindRes_Inr wrapRes_Inr by blast
  show "\<exists>c. mockCSVCert g label usage sig1 (sk_pub owner) signer uid rnd = Inr c"
    using putMockHygonPubKey_total[OF xy] signMockHygonData_total[OF assms(2,3)]
    unfolding mockCSVCert_def Let_def bindRes_Inr wrapRes_Inr by blast
qed

lemma GenerateMockAttestationData_total:
  assumes gen: "\<And>rnd. \<exists>key. sm2_GenerateKey g rnd = Inr key \<and> signsAll g key" and doc: "sm2Documented g"
  shows "\<exists>rep hrk hskCek. GenerateMockAttestationData g rnd ud m = Inr (rep, hrk, hskCek)"
proof -
  have keys: "\<exists>key. sm2_GenerateKey g r = Inr key \<and> signsAll g key \<and> goodKey g key" for r
    using gen[of r] doc by (auto simp: sm2Documented_def)
  obtain kh ks kc kp where k: "sm2_GenerateKey g (rnd 0) = Inr kh" "sm2_GenerateKey g (rnd 1) = Inr ks"
    "sm2_GenerateKey g (rnd 2) = Inr kc" "sm2_GenerateKey g (rnd 3) = Inr kp"
    "goodKey g kh" "goodKey g ks" "goodKey g kc" "goodKey g kp" "signsAll g kh" "signsAll g ks" "signsAll g kc" "signsAll g kp"
    using keys[of "rnd 0"] keys[of "rnd 1"] keys[of "rnd 2"] keys[of "rnd 3"] by blast
  let ?a = "\<lparr>ma_hrkKey = kh, ma_hskKey = ks, ma_cekKey = kc, ma_pekKey = kp, ma_userID = stringBytes ''test-sm2-user'',
     ma_hrkCert = [], ma_hskCekCert = [], ma_pekCert = []\<rparr>"
  let ?uid = "stringBytes ''test-sm2-user''"
  obtain hrk where c1: "mockRootCert g ''sign hrk cert'' KeyUsageHRK (sk_pub kh) kh ?uid (rnd 4) = Inr hrk"
    using mockCerts_total(1)[OF k(5,5,9)] by blast
  obtain hsk where c2: "mockRootCert g ''sign hsk cert'' KeyUsageHSK (sk_pub ks) kh ?uid (rnd 5) = Inr hsk"
    using mockCerts_total(1)[OF k(6,5,9)] by blast
  obtain cek where c3: "mockCSVCert g ''sign cek cert'' KeyUsageCEK KeyUsageHSK (sk_pub kc) ks ?uid (rnd 6) = Inr cek"
    using mockCerts_total(2)[OF k(7,6,10)] by blast
  obtain pek where c4: "mockCSVCert g ''sign pek cert'' KeyUsagePEK KeyUsageCEK (sk_pub kp) kc ?uid (rnd 7) = Inr pek"
    using mockCerts_total(2)[OF k(8,7,11)] by blast
  define a where "a = ?a\<lparr>ma_hrkCert := hrk, ma_pekCert := pek, ma_hskCekCert := hsk @ cek\<rparr>"
  have a: "generateCertificates g (\<lambda>i. rnd (i + 4)) ?a = Inr a" "ma_pekKey a = kp"
    using c1 c2 c3 c4 by (simp_all add: generateCertificates_def a_def)
  have new: "NewMockAttestationAuthority g rnd = Inr a"
    using k a(1) by (simp add: NewMockAttestationAuthority_def)
  obtain rep where "signMockHygonData g (ma_pekKey a) (take SignedSize (mockReport a ud m)) (mockReport a ud m)
      OffsetReportSig1 (ma_userID a) (rnd 8) = Inr rep"
    using signMockHygonData_total[OF k(8,12)] a(2) by blast
  then show ?thesis by (simp add: GenerateMockAttestationData_def new Generate_def Let_def)
qed

section \<open>A concrete instance of the cryptographic parameters\<close>

text \<open>
  Toy functions for witnesses: a signature is the private key, which is also the public key. They
  satisfy what the theorems ask of the packages, which is all they are for.
\<close>

definition demoKey :: "nat \<Rightarrow> sm2priv" where
  "demoKey d = \<lparr>sk_D = d, sk_pub = \<lparr>pk_X = d, pk_Y = d\<rparr>\<rparr>"

definition demoGmsm :: gmsm where
  "demoGmsm = \<lparr>sm3_Sum = (\<lambda>bs. take 32 (bs @ replicate 32 0)), sm3_BlockSize = 64,
     sm4_NewCipher = (\<lambda>k. Inr (\<lambda>w. w)), hkdf_Stream = (\<lambda>s salt info. replicate 8160 1),
     sm2_IsOnCurve = (\<lambda>x y. True), sm2_ScalarMult = (\<lambda>x y d. Some (x * nat_of_be d mod 2 ^ 256)),
     sm2_GenerateKey = (\<lambda>rnd. Inr (demoKey (nat_of_be (take 8 rnd)))),
     sm2_Sign = (\<lambda>k msg rnd. Inr (bigBytes (sk_D k))), sm2_Verify = (\<lambda>p msg sig. sig = bigBytes (pk_X p)),
     sm2_Sm2Sign = (\<lambda>k msg uid rnd. Inr (if sk_D k < 2 ^ 256 then sk_D k else 0, 1)),
     sm2_Sm2Verify = (\<lambda>p msg uid r s. r = pk_X p \<and> s = 1),
     gx509_ReadCertificateFromPem = (\<lambda>pem. Inl (ErrNew ''no certificate'')),
     gx509_ReadPrivateKeyFromPem = (\<lambda>pem. Inl (ErrNew ''no key'')),
     gx509_WritePrivateKeyToPem = (\<lambda>k. Inr (bigBytes (sk_D k))),
     gx509_MarshalPKIXPublicKey = (\<lambda>p. Inr (bigBytes (pk_X p))),
     gx509_CreateCertificateToPem = (\<lambda>tpl p k rnd. Inr (bigBytes (pk_X p)))\<rparr>"

lemma demoGmsm_documented: "sm2Documented demoGmsm"
proof -
  have "nat_of_be (take 8 rnd) < 2 ^ 256" for rnd
  proof -
    have "nat_of_be (take 8 rnd) < 256 ^ length (take 8 rnd)" by (rule nat_of_be_bound)
    also have "\<dots> \<le> 256 ^ 8" by (rule power_increasing) auto
    also have "\<dots> < 2 ^ 256" by simp
    finally show ?thesis .
  qed
  then have "goodKey demoGmsm (demoKey (nat_of_be (take 8 rnd)))" for rnd
    unfolding goodKey_def demoGmsm_def demoKey_def by auto
  then show ?thesis by (auto simp: sm2Documented_def demoGmsm_def)
qed

lemma demoGmsm_total: "\<exists>key. sm2_GenerateKey demoGmsm rnd = Inr key \<and> signsAll demoGmsm key"
  by (auto simp: demoGmsm_def signsAll_def)

theorem mock_report_verifies_witness:
  "\<exists>rep hrk hskCek res. GenerateMockAttestationData demoGmsm (\<lambda>i. [7]) [1, 2] [] = Inr (rep, hrk, hskCek) \<and>
     VerifyReportWithOptions demoGmsm (\<lambda>p. Inl IoEOF) rep (trustedChainOptions hrk hskCek) = (Some res, None) \<and>
     vr_ChainVerified res \<and> vr_UserData res = [1, 2] @ replicate 62 0"
proof -
  obtain rep hrk hskCek where gen: "GenerateMockAttestationData demoGmsm (\<lambda>i. [7]) [1, 2] [] = Inr (rep, hrk, hskCek)"
    using GenerateMockAttestationData_total[OF demoGmsm_total demoGmsm_documented] by blast
  have "copy_at (replicate 64 0) 0 [1, 2] = [1, 2] @ replicate 62 (0 :: byte)" by (simp add: copy_at_def)
  with mock_report_verifies[OF demoGmsm_documented gen, of "\<lambda>p. Inl IoEOF"] gen show ?thesis
    by (metis UserDataSize_def)
qed

end
