(* ===== verification/Csv_Client.thy ===== *)
theory Csv_Client
  imports Csv_Mock
begin

text \<open>
  Report retrieval from the guest device (\<^verbatim>\<open>pkg/csvattest\<close>: \<^verbatim>\<open>client.go\<close>, \<^verbatim>\<open>platform.go\<close>, \<^verbatim>\<open>ioctl_linux.go\<close>,
  \<^verbatim>\<open>ioctl_unsupported.go\<close>, \<^verbatim>\<open>vmmcall_unsupported.go\<close>). The platform operations are a record of the outcomes
  the operating system gives, and the calls made are logged, so that what is requested of the device
  and which resources are released can be stated. An anonymous mapping is a zeroed page, and the
  driver answers by overwriting it.
\<close>

section \<open>Platform\<close>

definition defaultCSVGuestDevice :: gostring where
  "defaultCSVGuestDevice = stringBytes ''/dev/csv-guest''"
definition defaultUserDataText :: gostring where
  "defaultUserDataText = stringBytes ''user data''"
definition csvGuestMemSize :: nat where [simp]: "csvGuestMemSize = 16"
definition getAttestationReportIOCT :: nat where
  "getAttestationReportIOCT =
     push_bit 30 3 OR push_bit 16 csvGuestMemSize OR push_bit 8 (of_char CHR ''D'') OR 1"

record csvGuestMem =
  gm_Page :: bytes
  gm_Size :: nat

record platformOps =
  po_mmap :: "nat \<Rightarrow> goerr option"
  po_openDevice :: "gostring \<Rightarrow> nat result"
  po_ioctl :: "nat \<Rightarrow> nat \<Rightarrow> csvGuestMem \<Rightarrow> goerr option \<times> bytes"

datatype platformCall =
    CallMmap nat
  | CallMunmap
  | CallOpen gostring
  | CallIoctl nat nat csvGuestMem
  | CallClose nat

text \<open>The operations of platforms other than Linux fail closed.\<close>

definition unsupportedPlatformOps :: platformOps where
  "unsupportedPlatformOps =
     \<lparr>po_mmap = (\<lambda>n. Some (ErrWrap ''attestation requires linux'' ErrUnsupported)),
      po_openDevice = (\<lambda>p. Inl (ErrWrap ''attestation requires linux'' ErrUnsupported)),
      po_ioctl = (\<lambda>fd req mem. (Some (ErrWrap ''attestation requires linux'' ErrUnsupported), []))\<rparr>"

text \<open>
  The operations of Linux: the system calls the kernel answers are the parameter, with their flags and the error number; an
  anonymous mapping needs no file. What \<^verbatim>\<open>munmap\<close> returns is dropped by its only caller.
\<close>

record linuxCalls =
  lc_Mmap :: "int \<Rightarrow> int \<Rightarrow> nat \<Rightarrow> nat \<Rightarrow> nat \<Rightarrow> goerr option"
  lc_OpenFile :: "gostring \<Rightarrow> nat \<Rightarrow> nat \<Rightarrow> nat result"
  lc_Ioctl :: "nat \<Rightarrow> nat \<Rightarrow> csvGuestMem \<Rightarrow> nat \<times> bytes"

definition linuxPlatformOps :: "linuxCalls \<Rightarrow> platformOps" where
  "linuxPlatformOps sys =
     (let PROT_READ = 1; PROT_WRITE = 2; MAP_PRIVATE = 2; MAP_ANON = 0x20; O_RDWR = 2
      in \<lparr>po_mmap = (\<lambda>len. lc_Mmap sys (- 1) 0 len (PROT_READ OR PROT_WRITE) (MAP_PRIVATE OR MAP_ANON)),
          po_openDevice = (\<lambda>path. lc_OpenFile sys path O_RDWR 0),
          po_ioctl = (\<lambda>fd req mem. case lc_Ioctl sys fd req mem of
             (errno, page) \<Rightarrow> (if errno \<noteq> 0 then Some (OsErr ''errno'') else None, page))\<rparr>)"

type_synonym 'a platformIO = "(platformCall list, 'a) io"

definition logCall :: "platformCall \<Rightarrow> 'a result \<Rightarrow> 'a platformIO" where
  "logCall c r log = (r, log @ [c])"

text \<open>\<^verbatim>\<open>defer\<close>: the call is made when the rest of the function has returned, whatever it returned.\<close>

definition deferCall :: "platformCall \<Rightarrow> 'a platformIO \<Rightarrow> 'a platformIO" where
  "deferCall c act log = (case act log of (r, log') \<Rightarrow> (r, log' @ [c]))"

section \<open>Client\<close>

text \<open>
  \<open>cl_Rand\<close> and \<open>cl_ops\<close> may be nil. A random source maps the number of bytes asked for to what
  \<^verbatim>\<open>io.ReadFull\<close> gets from it.
\<close>

type_synonym randReader = "nat \<Rightarrow> bytes result"

record Client =
  cl_DevicePath :: gostring
  cl_UserData :: bytes
  cl_Rand :: "randReader option"
  cl_ops :: "platformOps option"

text \<open>What the process provides: \<^verbatim>\<open>rand.Reader\<close>, \<^verbatim>\<open>os.Getenv\<close> and the default platform operations.\<close>

record hostEnv =
  he_rand :: randReader
  he_getenv :: "gostring \<Rightarrow> gostring"
  he_ops :: platformOps

type_synonym Option = "Client \<Rightarrow> Client"

definition WithDevicePath :: "gostring \<Rightarrow> Option" where
  "WithDevicePath path c = c\<lparr>cl_DevicePath := TrimSpace path\<rparr>"

definition WithUserData :: "bytes \<Rightarrow> Option" where
  "WithUserData userData c = c\<lparr>cl_UserData := userData\<rparr>"

definition WithRand :: "randReader option \<Rightarrow> Option" where
  "WithRand r c = c\<lparr>cl_Rand := r\<rparr>"

definition NewClient :: "hostEnv \<Rightarrow> Option option list \<Rightarrow> Client" where
  "NewClient env opts =
     (let c0 = \<lparr>cl_DevicePath = defaultCSVGuestDevice, cl_UserData = [], cl_Rand = Some (he_rand env),
                cl_ops = Some (he_ops env)\<rparr>;
          c1 = fold (\<lambda>opt c. case opt of None \<Rightarrow> c | Some f \<Rightarrow> f c) opts c0;
          c2 = (if cl_Rand c1 = None then c1\<lparr>cl_Rand := Some (he_rand env)\<rparr> else c1);
          c3 = (if cl_DevicePath c2 = [] then c2\<lparr>cl_DevicePath := defaultCSVGuestDevice\<rparr> else c2)
      in if cl_ops c3 = None then c3\<lparr>cl_ops := Some (he_ops env)\<rparr> else c3)"

definition userData :: "hostEnv \<Rightarrow> Client \<Rightarrow> bytes result" where
  "userData env c =
     (if length (cl_UserData c) > 0 then
        if length (cl_UserData c) \<noteq> UserDataSize
        then Inl (ErrWrap ''user data has the wrong length'' ErrInvalidUserData)
        else Inr (cl_UserData c)
      else
        let val = TrimSpace (he_getenv env (stringBytes ''ATTESTATION_USERDATA''))
        in if val \<noteq> [] then
             if length val \<noteq> UserDataSize * 2
             then Inl (ErrWrap ''ATTESTATION_USERDATA has the wrong length'' ErrInvalidUserData)
             else case hexDecode val of
                    None \<Rightarrow> Inl (ErrWrap ''decode ATTESTATION_USERDATA'' ErrInvalidUserData)
                  | Some decoded \<Rightarrow> Inr decoded
           else Inr (copy_at (replicate UserDataSize 0) 0 defaultUserDataText))"

definition validateReportBuffer :: "bytes \<Rightarrow> unit result" where
  "validateReportBuffer reportBuf =
     guardRes (length reportBuf \<ge> ReportSize) (ErrWrap ''report buffer has too few bytes'' ErrShortBuffer)"

section \<open>Retrieval on Linux\<close>

text \<open>A nil pointer for the operations panics on the first call.\<close>

definition requestPage :: "gmsm \<Rightarrow> bytes \<Rightarrow> bytes \<Rightarrow> bytes" where
  "requestPage g ud nonce =
     (let page0 = replicate PageSize 0;
          page1 = copy_at page0 0 (take UserDataSize ud);
          page2 = copy_at page1 UserDataSize (take NonceSize nonce);
          hashInputEnd = UserDataSize + NonceSize;
          hash = sm3_Sum g (take hashInputEnd page2)
      in copy_at page2 hashInputEnd (take HashSize hash))"

definition fetchReportIOCTL :: "gmsm \<Rightarrow> hostEnv \<Rightarrow> Client \<Rightarrow> bytes \<Rightarrow> bytes platformIO" where
  "fetchReportIOCTL g env c nonce =
     bindIO (liftRes (validateNonce nonce)) (\<lambda>_.
     bindIO (liftRes (userData env c)) (\<lambda>ud.
       case cl_ops c of
         None \<Rightarrow> fail (Panic ''nil pointer dereference'')
       | Some ops \<Rightarrow>
           bindIO (logCall (CallMmap PageSize) (wrapRes ''allocate attestation page''
             (case po_mmap ops PageSize of None \<Rightarrow> Inr () | Some e \<Rightarrow> Inl e))) (\<lambda>_.
           deferCall CallMunmap (
             let page = requestPage g ud nonce
             in bindIO (logCall (CallOpen (cl_DevicePath c))
                  (wrapRes ''open device'' (po_openDevice ops (cl_DevicePath c)))) (\<lambda>fd.
                deferCall (CallClose fd) (
                  let mem = \<lparr>gm_Page = page, gm_Size = PageSize\<rparr>;
                      res = po_ioctl ops fd getAttestationReportIOCT mem
                  in bindIO (logCall (CallIoctl fd getAttestationReportIOCT mem)
                       (wrapRes ''ioctl get attestation report''
                         (case fst res of None \<Rightarrow> Inr () | Some e \<Rightarrow> Inl e))) (\<lambda>_.
                     let page' = copy_at page 0 (snd res);
                         report = copy_at (replicate ReportSize 0) 0 (take ReportSize page')
                     in bindIO (liftRes (VerifySessionMAC g report nonce)) (\<lambda>_.
                        bindIO (liftRes (VerifyMNonce report nonce)) (\<lambda>_.
                          ret report)))))))))"

text \<open>The caller's buffer is an argument, and its new content the result.\<close>

definition GetAttestationReportIOCTL ::
    "gmsm \<Rightarrow> hostEnv \<Rightarrow> Client option \<Rightarrow> bytes \<Rightarrow> bytes \<Rightarrow> bytes platformIO" where
  "GetAttestationReportIOCTL g env cp reportBuf nonce =
     (let c = (case cp of None \<Rightarrow> NewClient env [] | Some c \<Rightarrow> c)
      in bindIO (liftRes (validateReportBuffer reportBuf)) (\<lambda>_.
         bindIO (fetchReportIOCTL g env c nonce) (\<lambda>report.
         bindIO (liftRes (zeroReserved2 report)) (\<lambda>zeroed.
           ret (copy_at reportBuf 0 zeroed)))))"

definition GetSealingKeyIOCTL :: "gmsm \<Rightarrow> hostEnv \<Rightarrow> Client option \<Rightarrow> bytes \<Rightarrow> bytes platformIO" where
  "GetSealingKeyIOCTL g env cp keyBuf =
     (let c = (case cp of None \<Rightarrow> NewClient env [] | Some c \<Rightarrow> c)
      in if length keyBuf < SealingKeySize
         then fail (ErrWrap ''sealing key buffer has too few bytes'' ErrShortBuffer)
         else case cl_Rand c of
                None \<Rightarrow> fail (Panic ''nil pointer dereference'')
              | Some rand \<Rightarrow>
                  bindIO (liftRes (wrapRes ''generate nonce'' (rand NonceSize))) (\<lambda>nonce.
                  bindIO (fetchReportIOCTL g env c nonce) (\<lambda>report.
                  bindIO (liftRes (ExtractSealingKey report)) (\<lambda>key.
                    ret (copy_at keyBuf 0 key)))))"

section \<open>Retrieval elsewhere\<close>

definition GetAttestationReportIOCTL_unsupported :: "bytes \<Rightarrow> bytes \<Rightarrow> unit result" where
  "GetAttestationReportIOCTL_unsupported reportBuf nonce =
     bindRes (validateReportBuffer reportBuf) (\<lambda>_.
     bindRes (validateNonce nonce) (\<lambda>_.
       Inl (ErrWrap ''ioctl attestation requires linux'' ErrUnsupported)))"

definition GetSealingKeyIOCTL_unsupported :: "bytes \<Rightarrow> unit result" where
  "GetSealingKeyIOCTL_unsupported keyBuf =
     (if length keyBuf < SealingKeySize
      then Inl (ErrWrap ''sealing key buffer has too few bytes'' ErrShortBuffer)
      else Inl (ErrWrap ''ioctl attestation requires linux'' ErrUnsupported))"

definition GetAttestationReportVMMCall :: "bytes \<Rightarrow> unit result" where
  "GetAttestationReportVMMCall reportBuf =
     bindRes (validateReportBuffer reportBuf) (\<lambda>_.
       Inl (ErrWrap ''vmmcall requires pagemap access and Go assembly or cgo'' ErrUnsupported))"

definition GetSealingKeyVMMCall :: "bytes \<Rightarrow> unit result" where
  "GetSealingKeyVMMCall keyBuf =
     (if length keyBuf < SealingKeySize
      then Inl (ErrWrap ''sealing key buffer has too few bytes'' ErrShortBuffer)
      else Inl (ErrWrap ''vmmcall requires pagemap access and Go assembly or cgo'' ErrUnsupported))"

section \<open>Package functions\<close>

text \<open>The functions of the package run the methods of a client with the default options.\<close>

definition pkg_GetAttestationReportIOCTL :: "gmsm \<Rightarrow> hostEnv \<Rightarrow> bytes \<Rightarrow> bytes \<Rightarrow> bytes platformIO" where
  "pkg_GetAttestationReportIOCTL g env reportBuf nonce =
     GetAttestationReportIOCTL g env (Some (NewClient env [])) reportBuf nonce"

definition pkg_GetAttestationReportVMMCall :: "bytes \<Rightarrow> unit result" where
  "pkg_GetAttestationReportVMMCall reportBuf = GetAttestationReportVMMCall reportBuf"

definition pkg_VerifyAttestationReport :: "gmsm \<Rightarrow> filesystem \<Rightarrow> bytes \<Rightarrow> bool \<Rightarrow> goerr option" where
  "pkg_VerifyAttestationReport g fs reportBuf verifyChain = VerifyAttestationReport g fs reportBuf verifyChain"

definition pkg_GetSealingKeyIOCTL :: "gmsm \<Rightarrow> hostEnv \<Rightarrow> bytes \<Rightarrow> bytes platformIO" where
  "pkg_GetSealingKeyIOCTL g env keyBuf = GetSealingKeyIOCTL g env (Some (NewClient env [])) keyBuf"

definition pkg_GetSealingKeyVMMCall :: "bytes \<Rightarrow> unit result" where
  "pkg_GetSealingKeyVMMCall keyBuf = GetSealingKeyVMMCall keyBuf"

section \<open>Lemmas\<close>

lemma logCall_Inr [io_success]: "logCall c r log = (Inr x, log') \<longleftrightarrow> r = Inr x \<and> log' = log @ [c]"
  by (auto simp: logCall_def)

lemma deferCall_Inr [io_success]:
  "deferCall c act log = (Inr x, log') \<longleftrightarrow> (\<exists>log1. act log = (Inr x, log1) \<and> log' = log1 @ [c])"
  by (auto simp: deferCall_def split: prod.splits)

lemma validateReportBuffer_Inr [io_success, simp]:
  "validateReportBuffer buf = Inr u \<longleftrightarrow> 0x9f4 \<le> length buf"
  by (simp add: validateReportBuffer_def)

lemma case_option_Inr [simp]: "(case e of None \<Rightarrow> Inr () | Some x \<Rightarrow> Inl x) = Inr u \<longleftrightarrow> e = None"
  by (cases e) auto

lemma length_requestPage [simp, bytes_simps]: "length (requestPage g ud nonce) = 4096"
  by (simp add: requestPage_def Let_def)

lemma length_userData: "userData env c = Inr ud \<Longrightarrow> length ud = 64"
proof -
  have "length bs * 2 = length v" if "hexDecode v = Some bs" for v bs
    using that by (induction v arbitrary: bs rule: hexDecode.induct) (auto split: option.splits)
  then show "userData env c = Inr ud \<Longrightarrow> length ud = 64"
    by (fastforce simp: userData_def Let_def split: if_splits option.splits)
qed

text \<open>What the device is asked: user data, nonce, their SM3 hash, and zeros.\<close>

lemma requestPage_eq:
  assumes "length ud = 64" "length nonce = 16" "length (sm3_Sum g (ud @ nonce)) = 32"
  shows "requestPage g ud nonce = ud @ nonce @ sm3_Sum g (ud @ nonce) @ replicate 3984 0"
proof -
  have p1: "copy_at (replicate 4096 0) 0 ud = ud @ replicate 4032 0"
    using assms(1) by (simp add: copy_at_def)
  have p2: "copy_at (ud @ replicate 4032 0) 64 nonce = ud @ nonce @ replicate 4016 0"
    using assms(1,2) by (simp add: copy_at_def)
  have t: "take 80 (ud @ nonce @ replicate 4016 0) = ud @ nonce" using assms(1,2) by simp
  have p3: "copy_at (ud @ nonce @ replicate 4016 0) 80 (sm3_Sum g (ud @ nonce)) =
      ud @ nonce @ sm3_Sum g (ud @ nonce) @ replicate 3984 0"
    using assms by (simp add: copy_at_def)
  show ?thesis using assms by (simp add: requestPage_def Let_def p1 p2 t p3)
qed

lemma fetchReportIOCTL_Inr:
  assumes "fetchReportIOCTL g env c nonce log = (Inr rep, log')"
  obtains ops ud fd answer where "cl_ops c = Some ops" "userData env c = Inr ud" "length nonce = 16"
    "po_openDevice ops (cl_DevicePath c) = Inr fd"
    "po_ioctl ops fd getAttestationReportIOCT \<lparr>gm_Page = requestPage g ud nonce, gm_Size = 4096\<rparr> = (None, answer)"
    "rep = take 0x9f4 (copy_at (requestPage g ud nonce) 0 answer)"
    "VerifySessionMAC g rep nonce = Inr ()" "VerifyMNonce rep nonce = Inr ()"
proof -
  obtain ops where ops: "cl_ops c = Some ops"
    using assms by (auto simp: fetchReportIOCTL_def io_success split: option.splits)
  let ?io = "\<lambda>fd ud. po_ioctl ops fd getAttestationReportIOCT \<lparr>gm_Page = requestPage g ud nonce, gm_Size = 4096\<rparr>"
  obtain ud fd where u: "userData env c = Inr ud" "length nonce = 16"
    "po_openDevice ops (cl_DevicePath c) = Inr fd" "fst (?io fd ud) = None"
    "rep = copy_at (replicate 0x9f4 0) 0 (take 0x9f4 (copy_at (requestPage g ud nonce) 0 (snd (?io fd ud))))"
    "VerifySessionMAC g rep nonce = Inr ()" "VerifyMNonce rep nonce = Inr ()"
    using assms
    by (auto simp: fetchReportIOCTL_def ops Let_def bindIO_Inr liftRes_Inr logCall_Inr deferCall_Inr ret_Inr)
  have "rep = take 0x9f4 (copy_at (requestPage g ud nonce) 0 (snd (?io fd ud)))"
    using u(5) by (simp add: copy_at_def[of "replicate 0x9f4 0"])
  moreover have "?io fd ud = (None, snd (?io fd ud))" using u(4) by (simp add: prod_eq_iff)
  ultimately show thesis using ops u(1-3,6,7) by (intro that)
qed

text \<open>On Linux a report comes from a device opened for reading and writing and a request the kernel has answered without an error.\<close>

lemma linux_report:
  assumes "fetchReportIOCTL g env c nonce log = (Inr rep, log')" "cl_ops c = Some (linuxPlatformOps sys)"
  shows "\<exists>ud fd answer. userData env c = Inr ud \<and> lc_OpenFile sys (cl_DevicePath c) 2 0 = Inr fd \<and>
    lc_Ioctl sys fd getAttestationReportIOCT \<lparr>gm_Page = requestPage g ud nonce, gm_Size = PageSize\<rparr> = (0, answer) \<and>
    rep = take ReportSize (copy_at (requestPage g ud nonce) 0 answer)"
proof -
  obtain ops ud fd answer where r: "cl_ops c = Some ops" "userData env c = Inr ud" "po_openDevice ops (cl_DevicePath c) = Inr fd"
    "po_ioctl ops fd getAttestationReportIOCT \<lparr>gm_Page = requestPage g ud nonce, gm_Size = 4096\<rparr> = (None, answer)"
    "rep = take 0x9f4 (copy_at (requestPage g ud nonce) 0 answer)" by (rule fetchReportIOCTL_Inr[OF assms(1)])
  then show ?thesis using assms(2) by (auto simp: linuxPlatformOps_def Let_def split: prod.splits if_splits)
qed

section \<open>Properties of report retrieval\<close>

text \<open>
  C34: a report handed out by \<^verbatim>\<open>GetAttestationReportIOCTL\<close> is the device's answer to a request for exactly the
  client's user data and the caller's nonce; its session MAC verifies under that nonce and it
  echoes the nonce; the sealing key field is zero in what the caller gets, the other report bytes are the
  device's, and the caller's buffer beyond the report is untouched.
\<close>

theorem report_fresh_and_stripped:
  assumes "GetAttestationReportIOCTL g env (Some c) buf nonce log = (Inr buf', log')"
  shows "\<exists>ops ud fd answer rep. cl_ops c = Some ops \<and> userData env c = Inr ud \<and>
    po_ioctl ops fd getAttestationReportIOCT \<lparr>gm_Page = requestPage g ud nonce, gm_Size = PageSize\<rparr> = (None, answer) \<and>
    rep = take ReportSize (copy_at (requestPage g ud nonce) 0 answer) \<and>
    VerifySessionMAC g rep nonce = Inr () \<and> VerifyMNonce rep nonce = Inr () \<and>
    slice buf' OffsetReserved2 OffsetMAC = replicate SealingKeySize 0 \<and>
    take OffsetReserved2 buf' = take OffsetReserved2 rep \<and>
    slice buf' OffsetMAC ReportSize = slice rep OffsetMAC ReportSize \<and>
    drop ReportSize buf' = drop ReportSize buf \<and> length buf' = length buf"
proof -
  obtain rep where f: "fetchReportIOCTL g env c nonce log = (Inr rep, log')" "0x9f4 \<le> length buf"
    and buf': "buf' = copy_at buf 0 (copy_at rep 0x9b4 (replicate 32 0))"
    using assms by (auto simp: GetAttestationReportIOCTL_def io_success Let_def)
  obtain ops ud fd answer where d: "cl_ops c = Some ops" "userData env c = Inr ud"
    "po_ioctl ops fd getAttestationReportIOCT \<lparr>gm_Page = requestPage g ud nonce, gm_Size = 4096\<rparr> = (None, answer)"
    "rep = take 0x9f4 (copy_at (requestPage g ud nonce) 0 answer)"
    "VerifySessionMAC g rep nonce = Inr ()" "VerifyMNonce rep nonce = Inr ()"
    by (rule fetchReportIOCTL_Inr[OF f(1)])
  have len: "length rep = 0x9f4" using d(4) by simp
  let ?z = "copy_at rep 0x9b4 (replicate 32 0)"
  have z: "?z = take 0x9b4 rep @ replicate 32 0 @ drop 0x9d4 rep" using len by (simp add: copy_at_def)
  have b: "buf' = ?z @ drop 0x9f4 buf" using f(2) len by (simp add: buf' copy_at_def[of buf])
  have "slice buf' 0x9b4 0x9d4 = replicate 32 0" "take 0x9b4 buf' = take 0x9b4 rep"
    "slice buf' 0x9d4 0x9f4 = slice rep 0x9d4 0x9f4" "drop 0x9f4 buf' = drop 0x9f4 buf" "length buf' = length buf"
    using len f(2) by (simp_all add: b z slice_def)
  with d show ?thesis by auto
qed

text \<open>A device that answers every request, for the witness.\<close>

definition demoAnswer :: "bytes \<Rightarrow> bytes" where
  "demoAnswer nonce = copy_at (copy_at (replicate 0x9f4 0) 0x80 nonce) 0x9d4
     (hmacSM3 demoGmsm nonce (replicate 0x884 0))"

definition demoDevice :: platformOps where
  "demoDevice = \<lparr>po_mmap = (\<lambda>n. None), po_openDevice = (\<lambda>p. Inr 3),
     po_ioctl = (\<lambda>fd req mem. (None, demoAnswer (slice (gm_Page mem) 64 80)))\<rparr>"

definition demoEnv :: hostEnv where
  "demoEnv = \<lparr>he_rand = (\<lambda>n. Inr (replicate n 9)), he_getenv = (\<lambda>v. []), he_ops = demoDevice\<rparr>"

definition demoClient :: Client where
  "demoClient = \<lparr>cl_DevicePath = defaultCSVGuestDevice, cl_UserData = replicate 64 5,
     cl_Rand = None, cl_ops = Some demoDevice\<rparr>"

lemma demoAnswer_verifies:
  assumes "length nonce = 16"
  shows "length (demoAnswer nonce) = 0x9f4" "VerifySessionMAC demoGmsm (demoAnswer nonce) nonce = Inr ()"
    "VerifyMNonce (demoAnswer nonce) nonce = Inr ()"
proof -
  define r1 where "r1 = copy_at (replicate 0x9f4 0) 0x80 nonce"
  let ?mac = "hmacSM3 demoGmsm nonce (replicate 0x884 0)"
  have ans: "demoAnswer nonce = copy_at r1 0x9d4 ?mac" by (simp add: demoAnswer_def r1_def)
  have len: "length r1 = 0x9f4" using assms by (simp add: r1_def)
  show l: "length (demoAnswer nonce) = 0x9f4" by (simp add: ans len)
  have keep: "slice (demoAnswer nonce) a b = slice r1 a b" if "b \<le> 0x9d4" for a b
    using that len by (simp add: ans slice_copy_at_other)
  have zero: "slice r1 a b = slice (replicate 0x9f4 0) a b" if "0x90 \<le> a" for a b
    using that assms by (simp add: r1_def slice_copy_at_other)
  have "slice (demoAnswer nonce) 0x9d4 0x9f4 = ?mac"
    unfolding ans by (rule slice_copy_at_written) (simp_all add: len)
  moreover have "slice (demoAnswer nonce) 0x150 0x9d4 = replicate 0x884 0"
    by (simp add: keep zero) (simp add: slice_def)
  ultimately show "VerifySessionMAC demoGmsm (demoAnswer nonce) nonce = Inr ()"
    using assms l by (simp add: VerifySessionMAC_Inr)
  have "slice (demoAnswer nonce) 0xbc 0xc0 = replicate 4 0" by (simp add: keep zero) (simp add: slice_def)
  moreover have "LittleEndian_Uint32 (replicate 4 0) = 0" by code_simp
  moreover have "slice r1 0x80 0x90 = nonce"
    unfolding r1_def by (rule slice_copy_at_written) (simp_all add: assms)
  ultimately show "VerifyMNonce (demoAnswer nonce) nonce = Inr ()"
    using assms l by (simp add: VerifyMNonce_Inr keep)
qed

lemma demo_report:
  assumes "length nonce = 16" "length buf = 0x9f4" "cl_ops c = Some demoDevice" "length (cl_UserData c) = 64"
  shows "\<exists>buf' log'. GetAttestationReportIOCTL demoGmsm demoEnv (Some c) buf nonce [] = (Inr buf', log')"
proof -
  let ?ud = "cl_UserData c"
  have page: "requestPage demoGmsm ?ud nonce = ?ud @ nonce @ sm3_Sum demoGmsm (?ud @ nonce) @ replicate 3984 0"
    by (rule requestPage_eq) (simp_all add: assms demoGmsm_def)
  have n: "slice (requestPage demoGmsm ?ud nonce) 64 80 = nonce"
    unfolding page using assms by (simp add: slice_def)
  have rep: "copy_at (replicate 0x9f4 0) 0 (take 0x9f4 (copy_at (requestPage demoGmsm ?ud nonce) 0 (demoAnswer nonce))) = demoAnswer nonce"
    using demoAnswer_verifies(1)[OF assms(1)] by (simp add: copy_at_def)
  have "\<exists>log'. fetchReportIOCTL demoGmsm demoEnv c nonce [] = (Inr (demoAnswer nonce), log')"
    using assms demoAnswer_verifies[OF assms(1)] rep n
    by (simp add: fetchReportIOCTL_def demoDevice_def userData_def bindIO_def logCall_def deferCall_def
        Let_def validateNonce_def)
  then obtain log' where "fetchReportIOCTL demoGmsm demoEnv c nonce [] = (Inr (demoAnswer nonce), log')" ..
  then show ?thesis
    using assms demoAnswer_verifies(1)[OF assms(1)]
    by (simp add: GetAttestationReportIOCTL_def bindIO_def zeroReserved2_def validateReportBytes_def
        validateReportBuffer_def Let_def)
qed

theorem report_fresh_and_stripped_witness:
  "\<exists>buf' log'. GetAttestationReportIOCTL demoGmsm demoEnv (Some demoClient) (replicate 0x9f4 1) (replicate 16 8) [] = (Inr buf', log') \<and>
     slice buf' OffsetReserved2 OffsetMAC = replicate SealingKeySize 0 \<and> length buf' = 0x9f4"
proof -
  obtain buf' log' where g: "GetAttestationReportIOCTL demoGmsm demoEnv (Some demoClient) (replicate 0x9f4 1) (replicate 16 8) [] = (Inr buf', log')"
    using demo_report[of "replicate 16 8" "replicate 0x9f4 1" demoClient] by (auto simp: demoClient_def)
  from report_fresh_and_stripped[OF g] g show ?thesis by (metis length_replicate)
qed

text \<open>
  \<^verbatim>\<open>fetchReportIOCTL\<close> releases what it acquires on every path: whatever the platform answers and whatever
  the outcome, the calls it makes are none, a failed mapping, a mapping and a failed open followed by
  the unmapping, or a full request followed by closing the device and unmapping the page, in that order.
\<close>

theorem fetch_releases_resources:
  "\<exists>r calls. fetchReportIOCTL g env c nonce log = (r, log @ calls) \<and>
     (calls = [] \<or>
      (\<exists>ops. cl_ops c = Some ops \<and>
        (calls = [CallMmap PageSize] \<and> po_mmap ops PageSize \<noteq> None \<or>
         calls = [CallMmap PageSize, CallOpen (cl_DevicePath c), CallMunmap] \<and>
           (\<forall>fd. po_openDevice ops (cl_DevicePath c) \<noteq> Inr fd) \<or>
         (\<exists>fd mem. po_openDevice ops (cl_DevicePath c) = Inr fd \<and>
           calls = [CallMmap PageSize, CallOpen (cl_DevicePath c), CallIoctl fd getAttestationReportIOCT mem,
             CallClose fd, CallMunmap]))))"
proof -
  consider (early) "\<exists>e. fetchReportIOCTL g env c nonce log = (Inl e, log)"
    | (go) ud ops where "length nonce = 16" "userData env c = Inr ud" "cl_ops c = Some ops"
    by (cases "length nonce = 16"; cases "userData env c"; cases "cl_ops c")
      (auto simp: fetchReportIOCTL_def bindIO_def validateNonce_def)
  then show ?thesis
  proof cases
    case early
    then show ?thesis by fastforce
  next
    case go
    show ?thesis
    proof (cases "po_mmap ops PageSize")
      case (Some e)
      then show ?thesis using go by (simp add: fetchReportIOCTL_def validateNonce_def bindIO_def logCall_def)
    next
      case None
      show ?thesis
      proof (cases "po_openDevice ops (cl_DevicePath c)")
        case (Inl e)
        then show ?thesis using go None by (simp add: fetchReportIOCTL_def validateNonce_def bindIO_def logCall_def deferCall_def)
      next
        case (Inr fd)
        obtain err answer where io: "po_ioctl ops fd getAttestationReportIOCT
            \<lparr>gm_Page = requestPage g ud nonce, gm_Size = PageSize\<rparr> = (err, answer)" by fastforce
        show ?thesis using go None Inr io
          by (cases err) (simp_all add: fetchReportIOCTL_def validateNonce_def bindIO_def logCall_def deferCall_def Let_def
              split: sum.splits)
      qed
    qed
  qed
qed

end
