(* ===== verification/Provider.thy ===== *)
theory Provider
  imports Verifier Csv_Client
begin

text \<open>
  The evidence providers (\<^verbatim>\<open>provider.go\<close>): the mock provider with its lazily created authority, and the
  provider backed by the guest device. Each is a record with its methods as functions, and its method
  table is the interface value the configuration holds. The locale \<open>evidence_source\<close> is the contract
  the certificate code relies on, interpreted on both providers.
\<close>

section \<open>The mock provider\<close>

definition DefaultMockMeasurementHex :: gostring where
  "DefaultMockMeasurementHex = stringBytes ''11223344556677889900aabbccddeeff11223344556677889900aabbccddeeff''"

record MockEvidenceProvider =
  mp_MeasurementHex :: gostring
  mp_HRKCert :: bytes
  mp_HSKCekCert :: bytes
  mp_authority :: "MockAttestationAuthority option"
  mp_initErr :: "goerr option"

definition NewMockEvidenceProvider :: "gmsm \<Rightarrow> (nat \<Rightarrow> bytes) \<Rightarrow> MockEvidenceProvider" where
  "NewMockEvidenceProvider g rnd =
     (case NewMockAttestationAuthority g rnd of
        Inl e \<Rightarrow> \<lparr>mp_MeasurementHex = DefaultMockMeasurementHex, mp_HRKCert = [], mp_HSKCekCert = [],
                  mp_authority = None, mp_initErr = Some e\<rparr>
      | Inr a \<Rightarrow> \<lparr>mp_MeasurementHex = DefaultMockMeasurementHex, mp_HRKCert = HRKCert a, mp_HSKCekCert = HSKCekCert a,
                  mp_authority = Some a, mp_initErr = None\<rparr>)"

definition attestationAuthority ::
    "gmsm \<Rightarrow> (nat \<Rightarrow> bytes) \<Rightarrow> (MockEvidenceProvider, MockAttestationAuthority) io" where
  "attestationAuthority g rnd m =
     (case mp_initErr m of
        Some e \<Rightarrow> (Inl (ErrWrap ''initialize mock attestation authority'' e), m)
      | None \<Rightarrow>
          (case mp_authority m of
             Some a \<Rightarrow> (Inr a, m)
           | None \<Rightarrow>
               (case NewMockAttestationAuthority g rnd of
                  Inl e \<Rightarrow> (Inl (ErrWrap ''initialize mock attestation authority'' e), m)
                | Inr a \<Rightarrow> (Inr a, m\<lparr>mp_authority := Some a, mp_HRKCert := HRKCert a, mp_HSKCekCert := HSKCekCert a\<rparr>))))"

text \<open>The first eight draws are for a new authority, the ninth is for the report signature.\<close>

definition Mock_GetEvidence ::
    "gmsm \<Rightarrow> (nat \<Rightarrow> bytes) \<Rightarrow> bytes \<Rightarrow> (MockEvidenceProvider, CSVEvidenceExtension option) io" where
  "Mock_GetEvidence g rnd pubKeyDigest =
     bindIO (attestationAuthority g rnd) (\<lambda>authority m.
       case wrapRes ''generate mock attestation data'' (Generate g (rnd 8) authority pubKeyDigest (mp_MeasurementHex m)) of
         Inl e \<Rightarrow> (Inl e, m)
       | Inr (report, hrkCert, hskCekCert) \<Rightarrow>
           (Inr (Some \<lparr>ev_Version = 1, ev_Report = report, ev_HRKCert = hrkCert, ev_HSKCekCert = hskCekCert\<rparr>), m))"

definition Mock_GetEvidenceContext ::
    "gmsm \<Rightarrow> (nat \<Rightarrow> bytes) \<Rightarrow> gocontext \<Rightarrow> bytes \<Rightarrow> (MockEvidenceProvider, CSVEvidenceExtension option) io" where
  "Mock_GetEvidenceContext g rnd ctx pubKeyDigest =
     (case cx_err ctx of Some e \<Rightarrow> fail e | None \<Rightarrow> Mock_GetEvidence g rnd pubKeyDigest)"

definition Mock_TrustedHRKCert :: "MockEvidenceProvider \<Rightarrow> bytes" where
  "Mock_TrustedHRKCert m = mp_HRKCert m"

definition Mock_GetMeasurementHex :: "MockEvidenceProvider \<Rightarrow> gostring" where
  "Mock_GetMeasurementHex m = mp_MeasurementHex m"

text \<open>
  The interface value of a mock provider in a given state. Once the authority exists or its creation has
  failed, no method changes the state (\<open>mock_settled\<close>), so the value then describes every later call.
\<close>

definition mockProvider :: "gmsm \<Rightarrow> (nat \<Rightarrow> bytes) \<Rightarrow> MockEvidenceProvider \<Rightarrow> EvidenceProvider" where
  "mockProvider g rnd m =
     \<lparr>ep_GetEvidence = (\<lambda>d. fst (Mock_GetEvidence g rnd d m)),
      ep_GetMeasurementHex = Mock_GetMeasurementHex m,
      ep_GetEvidenceContext = Some (\<lambda>ctx d. fst (Mock_GetEvidenceContext g rnd ctx d m)),
      ep_TrustedHRKCert = Some (Mock_TrustedHRKCert m)\<rparr>"

section \<open>The hardware provider\<close>

record HygonHardwareProvider =
  hw_DevicePath :: gostring
  hw_HRKCertPath :: gostring
  hw_HSKCekCertPath :: gostring

definition NewHygonHardwareProvider :: "gostring \<Rightarrow> gostring \<Rightarrow> gostring \<Rightarrow> HygonHardwareProvider" where
  "NewHygonHardwareProvider devicePath hrkPath hskCekPath =
     \<lparr>hw_DevicePath = (if devicePath = [] then stringBytes ''/dev/csv-guest'' else devicePath),
      hw_HRKCertPath = hrkPath, hw_HSKCekCertPath = hskCekPath\<rparr>"

definition readCertFile :: "filesystem \<Rightarrow> gostring \<Rightarrow> nat \<Rightarrow> bytes result" where
  "readCertFile fs path n =
     bindRes (fs path) (\<lambda>data.
       if length data < n then Inl (ErrNew ''certificate file is too short'') else Inr (take n data))"

definition Hygon_TrustedHRKCert :: "filesystem \<Rightarrow> HygonHardwareProvider \<Rightarrow> bytes" where
  "Hygon_TrustedHRKCert fs h =
     (if hw_HRKCertPath h = [] then []
      else case readCertFile fs (hw_HRKCertPath h) HrkCertSize of Inl e \<Rightarrow> [] | Inr data \<Rightarrow> data)"

definition Hygon_GetEvidence ::
    "gmsm \<Rightarrow> hostEnv \<Rightarrow> filesystem \<Rightarrow> HygonHardwareProvider \<Rightarrow> bytes \<Rightarrow> CSVEvidenceExtension option platformIO" where
  "Hygon_GetEvidence g env fs h pubKeyDigest =
     (let userData = copy_at (replicate UserDataSize 0) 0 (take 32 pubKeyDigest);
          client = NewClient env [Some (WithDevicePath (hw_DevicePath h)), Some (WithUserData userData)];
          reportBuf = replicate ReportSize 0
      in bindIO (liftRes (wrapRes ''generate hardware attestation nonce'' (he_rand env NonceSize))) (\<lambda>nonce.
         bindIO (wrapIO ''fetch attestation report from hardware''
           (GetAttestationReportIOCTL g env (Some client) reportBuf nonce)) (\<lambda>report.
         bindIO (liftRes (if hw_HRKCertPath h = [] then Inr []
           else wrapRes ''read hrk cert'' (readCertFile fs (hw_HRKCertPath h) HrkCertSize))) (\<lambda>hrkCert.
         bindIO (liftRes (if hw_HSKCekCertPath h = [] then Inr []
           else wrapRes ''read hsk_cek cert'' (readCertFile fs (hw_HSKCekCertPath h) HskCekSize))) (\<lambda>hskCekCert.
           ret (Some \<lparr>ev_Version = 1, ev_Report = report, ev_HRKCert = hrkCert, ev_HSKCekCert = hskCekCert\<rparr>))))))"

definition Hygon_GetEvidenceContext ::
    "gmsm \<Rightarrow> hostEnv \<Rightarrow> filesystem \<Rightarrow> HygonHardwareProvider \<Rightarrow> gocontext \<Rightarrow> bytes \<Rightarrow>
       CSVEvidenceExtension option platformIO" where
  "Hygon_GetEvidenceContext g env fs h ctx pubKeyDigest =
     (case cx_err ctx of Some e \<Rightarrow> fail e | None \<Rightarrow> Hygon_GetEvidence g env fs h pubKeyDigest)"

definition Hygon_GetMeasurementHex ::
    "gmsm \<Rightarrow> hostEnv \<Rightarrow> filesystem \<Rightarrow> HygonHardwareProvider \<Rightarrow> platformCall list \<Rightarrow> gostring \<times> platformCall list" where
  "Hygon_GetMeasurementHex g env fs h log =
     (case Hygon_GetEvidence g env fs h (replicate 32 0) log of
        (Inl e, log') \<Rightarrow> ([], log')
      | (Inr None, log') \<Rightarrow> ([], log')
      | (Inr (Some ev), log') \<Rightarrow>
          if length (ev_Report ev) < ReportSize then ([], log')
          else case ParseReport (ev_Report ev) of
                 (Some res, None) \<Rightarrow> (hexEncode (vr_Digest res), log')
               | _ \<Rightarrow> ([], log'))"

definition hygonProvider :: "gmsm \<Rightarrow> hostEnv \<Rightarrow> filesystem \<Rightarrow> HygonHardwareProvider \<Rightarrow> EvidenceProvider" where
  "hygonProvider g env fs h =
     \<lparr>ep_GetEvidence = (\<lambda>d. fst (Hygon_GetEvidence g env fs h d [])),
      ep_GetMeasurementHex = fst (Hygon_GetMeasurementHex g env fs h []),
      ep_GetEvidenceContext = Some (\<lambda>ctx d. fst (Hygon_GetEvidenceContext g env fs h ctx d [])),
      ep_TrustedHRKCert = Some (Hygon_TrustedHRKCert fs h)\<rparr>"

section \<open>The contract of a provider\<close>

text \<open>
  A source of evidence for certificates: what it returns can be encoded, a done context gives the context's
  error, and an open one the same evidence as the plain call.
\<close>

locale evidence_source =
  fixes p :: EvidenceProvider
  assumes evidence_valid: "ep_GetEvidence p d = Inr evo \<Longrightarrow> \<exists>ev. evo = Some ev \<and> validEvidence ev"
    and context_done: "ep_GetEvidenceContext p = Some f \<Longrightarrow> cx_err ctx = Some e \<Longrightarrow> f ctx d = Inl e"
    and context_open: "ep_GetEvidenceContext p = Some f \<Longrightarrow> cx_err ctx = None \<Longrightarrow> f ctx d = ep_GetEvidence p d"
begin

lemma getEvidence_eq:
  "getEvidenceWithContext ctx p d = (case cx_err ctx of Some e \<Rightarrow> Inl e | None \<Rightarrow> ep_GetEvidence p d)"
  using context_done context_open
  by (cases "cx_err ctx"; cases "ep_GetEvidenceContext p") (auto simp: getEvidenceWithContext_def)

lemma evidence_encodable:
  assumes "getEvidenceWithContext ctx p d = Inr evo"
  shows "\<exists>ev ext. evo = Some ev \<and> ep_GetEvidence p d = Inr (Some ev) \<and> EncodeCSVEvidence evo = Inr ext \<and>
    ext_Id ext = OIDCSVEvidence \<and> DecodeCSVEvidence (ext_Value ext) = Inr ev"
proof -
  have get: "ep_GetEvidence p d = Inr evo" using assms by (simp add: getEvidence_eq split: option.splits)
  then obtain ev where ev: "evo = Some ev" "validEvidence ev" using evidence_valid by blast
  then have "EncodeCSVEvidence evo = Inr \<lparr>ext_Id = OIDCSVEvidence, ext_Critical = False, ext_Value = marshalEvidence ev\<rparr>"
    using validateEvidenceExtension_Inr[of ev "()"] by (auto simp: EncodeCSVEvidence_def validEvidence_def Let_def)
  moreover have "DecodeCSVEvidence (marshalEvidence ev) = Inr ev"
    using ev(2) unmarshal_marshal[of ev] by (simp add: DecodeCSVEvidence_def validateEvidenceExtension_Inr bindRes_Inr)
  ultimately show ?thesis using ev get by simp
qed

text \<open>What a generated certificate was created from.\<close>

lemma generated_certificate:
  assumes "GenerateSM2CertificateWithEvidenceContext g rnd now (Some ctx) (Some p) = Inr (certPEM, keyPEM)"
  shows "\<exists>priv pubDER ev ext serial. sm2_GenerateKey g (ce_key rnd) = Inr priv \<and>
    gx509_MarshalPKIXPublicKey g (sk_pub priv) = Inr pubDER \<and> cx_err ctx = None \<and>
    ep_GetEvidence p (ComputePublicKeySM3 g pubDER) = Inr (Some ev) \<and>
    ext_Id ext = OIDCSVEvidence \<and> DecodeCSVEvidence (ext_Value ext) = Inr ev \<and> ce_serial rnd = Inr serial \<and>
    gx509_CreateCertificateToPem g (certTemplateFor serial now ext) (sk_pub priv) priv (ce_sign rnd) = Inr certPEM \<and>
    gx509_WritePrivateKeyToPem g priv = Inr keyPEM"
proof -
  obtain priv pubDER evo ext serial where c: "sm2_GenerateKey g (ce_key rnd) = Inr priv"
    "gx509_MarshalPKIXPublicKey g (sk_pub priv) = Inr pubDER"
    "getEvidenceWithContext ctx p (ComputePublicKeySM3 g pubDER) = Inr evo"
    "EncodeCSVEvidence evo = Inr ext" "ce_serial rnd = Inr serial"
    "gx509_CreateCertificateToPem g (certTemplateFor serial now ext) (sk_pub priv) priv (ce_sign rnd) = Inr certPEM"
    "gx509_WritePrivateKeyToPem g priv = Inr keyPEM"
    using assms by (auto simp: GenerateSM2CertificateWithEvidenceContext_def bindRes_Inr)
  moreover have "cx_err ctx = None" using c(3) by (simp add: getEvidence_eq split: option.splits)
  ultimately show ?thesis using evidence_encodable[OF c(3)] by auto
qed

end

lemma mock_settled:
  assumes "mp_initErr m \<noteq> None \<or> mp_authority m \<noteq> None"
  shows "snd (Mock_GetEvidence g rnd d m) = m" "snd (Mock_GetEvidenceContext g rnd ctx d m) = m"
proof -
  show s: "snd (Mock_GetEvidence g rnd d m) = m"
    using assms by (auto simp: Mock_GetEvidence_def attestationAuthority_def bindIO_def split: option.splits sum.splits prod.splits)
  show "snd (Mock_GetEvidenceContext g rnd ctx d m) = m"
    using s by (simp add: Mock_GetEvidenceContext_def split: option.splits)
qed

lemma NewMockEvidenceProvider_settled:
  "mp_initErr (NewMockEvidenceProvider g rnd) \<noteq> None \<or> mp_authority (NewMockEvidenceProvider g rnd) \<noteq> None"
  by (simp add: NewMockEvidenceProvider_def split: sum.splits)

text \<open>An authority's evidence has the sizes the extension asks for, however its keys sign.\<close>

lemma signMockHygonData_length:
  "signMockHygonData g key msg buf off uid rnd = Inr buf' \<Longrightarrow> off + 0x68 \<le> length buf \<Longrightarrow> length buf' = length buf"
  by (auto simp: signMockHygonData_def bindRes_Inr copyWindow_def Let_def)

lemma mockReport_length: "length (mockReport a ud m) = 0x9f4"
  by (simp add: mockReport_def copyWindow_def Let_def)

lemma putMockHygonPubKey_length:
  "putMockHygonPubKey buf off pub uid = Inr buf' \<Longrightarrow> off + 0x194 \<le> length buf \<Longrightarrow> length buf' = length buf"
  by (auto simp: putMockHygonPubKey_def bindRes_Inr copyWindow_def Let_def)

lemma mockCert_length:
  "mockRootCert g l u pub key uid rnd = Inr c \<Longrightarrow> length c = 0x340"
  "mockCSVCert g l u s pub key uid rnd = Inr c \<Longrightarrow> length c = 0x824"
  by (auto simp: mockRootCert_def mockCSVCert_def bindRes_Inr Let_def
      dest!: signMockHygonData_length putMockHygonPubKey_length)

lemma authority_sizes:
  assumes "NewMockAttestationAuthority g rnd = Inr a"
  shows "length (ma_hrkCert a) = 0x340" "length (ma_hskCekCert a) = 0xb64"
  using assms by (auto simp: NewMockAttestationAuthority_def generateCertificates_def bindRes_Inr dest!: mockCert_length)

lemma mock_evidence:
  assumes "NewMockAttestationAuthority g rnd = Inr a" "m = (NewMockEvidenceProvider g rnd)\<lparr>mp_MeasurementHex := mh\<rparr>"
    and "Mock_GetEvidence g rnd' d m = (Inr evo, m')"
  shows "\<exists>rep. Generate g (rnd' 8) a d mh = Inr (rep, ma_hrkCert a, ma_hskCekCert a) \<and>
    evo = Some \<lparr>ev_Version = 1, ev_Report = rep, ev_HRKCert = ma_hrkCert a, ev_HSKCekCert = ma_hskCekCert a\<rparr>"
  using assms
  by (auto simp: NewMockEvidenceProvider_def Mock_GetEvidence_def attestationAuthority_def bindIO_def Generate_def
      Let_def bindRes_Inr split: sum.splits prod.splits)

lemma mock_evidence_valid:
  assumes "Mock_GetEvidence g rnd' d ((NewMockEvidenceProvider g rnd)\<lparr>mp_MeasurementHex := mh\<rparr>) = (Inr evo, m')"
  shows "\<exists>ev. evo = Some ev \<and> validEvidence ev"
proof -
  obtain a where a: "NewMockAttestationAuthority g rnd = Inr a"
    using assms by (cases "NewMockAttestationAuthority g rnd")
      (auto simp: NewMockEvidenceProvider_def Mock_GetEvidence_def attestationAuthority_def bindIO_def)
  obtain rep where rep: "Generate g (rnd' 8) a d mh = Inr (rep, ma_hrkCert a, ma_hskCekCert a)"
    "evo = Some \<lparr>ev_Version = 1, ev_Report = rep, ev_HRKCert = ma_hrkCert a, ev_HSKCekCert = ma_hskCekCert a\<rparr>"
    using mock_evidence[OF a refl assms] by blast
  have "length rep = 0x9f4"
    using rep(1) by (auto simp: Generate_def bindRes_Inr Let_def mockReport_length dest!: signMockHygonData_length)
  then show ?thesis using rep(2) authority_sizes[OF a] by (simp add: validEvidence_def)
qed

interpretation mock: evidence_source "mockProvider g rnd' ((NewMockEvidenceProvider g rnd)\<lparr>mp_MeasurementHex := mh\<rparr>)"
  for g rnd' rnd mh
proof unfold_locales
  let ?m = "(NewMockEvidenceProvider g rnd)\<lparr>mp_MeasurementHex := mh\<rparr>"
  fix d evo
  assume "ep_GetEvidence (mockProvider g rnd' ?m) d = Inr evo"
  then have "Mock_GetEvidence g rnd' d ?m = (Inr evo, snd (Mock_GetEvidence g rnd' d ?m))"
    by (simp add: mockProvider_def prod_eq_iff)
  then show "\<exists>ev. evo = Some ev \<and> validEvidence ev" by (rule mock_evidence_valid)
qed (auto simp: mockProvider_def Mock_GetEvidenceContext_def)

lemma readCertFile_Inr: "readCertFile fs path n = Inr c \<longleftrightarrow> (\<exists>data. fs path = Inr data \<and> n \<le> length data \<and> c = take n data)"
  by (cases "fs path") (auto simp: readCertFile_def)

lemma hygon_evidence:
  assumes "Hygon_GetEvidence g env fs h d log = (Inr evo, log')"
  shows "\<exists>nonce ev. he_rand env NonceSize = Inr nonce \<and> evo = Some ev \<and>
    GetAttestationReportIOCTL g env (Some (NewClient env [Some (WithDevicePath (hw_DevicePath h)),
      Some (WithUserData (copy_at (replicate 64 0) 0 (take 32 d)))])) (replicate 0x9f4 0) nonce log = (Inr (ev_Report ev), log') \<and>
    ev_Version ev = 1 \<and>
    (if hw_HRKCertPath h = [] then ev_HRKCert ev = [] else readCertFile fs (hw_HRKCertPath h) HrkCertSize = Inr (ev_HRKCert ev)) \<and>
    (if hw_HSKCekCertPath h = [] then ev_HSKCekCert ev = []
     else readCertFile fs (hw_HSKCekCertPath h) HskCekSize = Inr (ev_HSKCekCert ev))"
  using assms by (auto simp: Hygon_GetEvidence_def Let_def io_success split: if_splits)

lemma ioctl_report_length:
  "GetAttestationReportIOCTL g env cp buf nonce log = (Inr buf', log') \<Longrightarrow> length buf' = length buf"
  by (auto simp: GetAttestationReportIOCTL_def io_success Let_def)

lemma hygon_evidence_valid:
  assumes "Hygon_GetEvidence g env fs h d log = (Inr evo, log')"
  shows "\<exists>ev. evo = Some ev \<and> validEvidence ev"
proof -
  obtain nonce ev where e: "evo = Some ev" "ev_Version ev = 1" "length (ev_Report ev) = 0x9f4"
    "if hw_HRKCertPath h = [] then ev_HRKCert ev = [] else readCertFile fs (hw_HRKCertPath h) HrkCertSize = Inr (ev_HRKCert ev)"
    "if hw_HSKCekCertPath h = [] then ev_HSKCekCert ev = []
     else readCertFile fs (hw_HSKCekCertPath h) HskCekSize = Inr (ev_HSKCekCert ev)"
    using hygon_evidence[OF assms] by (auto dest!: ioctl_report_length)
  then show ?thesis by (auto simp: validEvidence_def readCertFile_Inr split: if_splits)
qed

interpretation hygon: evidence_source "hygonProvider g env fs h" for g env fs h
proof unfold_locales
  fix d evo
  assume "ep_GetEvidence (hygonProvider g env fs h) d = Inr evo"
  then have "Hygon_GetEvidence g env fs h d [] = (Inr evo, snd (Hygon_GetEvidence g env fs h d []))"
    by (simp add: hygonProvider_def prod_eq_iff)
  then show "\<exists>ev. evo = Some ev \<and> validEvidence ev" by (rule hygon_evidence_valid)
qed (auto simp: hygonProvider_def Hygon_GetEvidenceContext_def)

section \<open>Properties of the hardware provider\<close>

lemma ParseReport_digest:
  assumes "ParseReport data = (Some res, None)"
  shows "vr_Digest res = UnmaskWords (slice (take 0x9f4 data) 0x90 0xb0) (anonceOf (take 0x9f4 data))" "0x9f4 \<le> length data"
  using assms by (auto simp: ParseReport_def Let_def reportFields_simps split: if_splits sum.splits)

text \<open>
  The measurement that \<^verbatim>\<open>HygonHardwareProvider.GetMeasurementHex\<close> reports is either a whitelist entry the
  configuration accepts or the empty text that every failure gives, and the empty text is never accepted, so that a
  failing device cannot end up as a whitelist that silently never matches.
\<close>

theorem hardware_measurement_configurable:
  "(case Hygon_GetMeasurementHex g env fs h log of (mh, log') \<Rightarrow>
      mh = [] \<or> validateExpectedMeasurements [mh] = Inr ()) \<and>
   (\<exists>e. validateExpectedMeasurements [[]] = Inl e)"
proof -
  obtain mh log' where r: "Hygon_GetMeasurementHex g env fs h log = (mh, log')" by fastforce
  have "mh = [] \<or> (\<exists>d. length d = 32 \<and> mh = hexEncode d)"
  proof (cases "mh = []")
    case False
    then obtain rep res where "ParseReport rep = (Some res, None)" "mh = hexEncode (vr_Digest res)"
      using r by (auto simp: Hygon_GetMeasurementHex_def split: sum.splits option.splits prod.splits if_splits)
    moreover from this have "length (vr_Digest res) = 32" using ParseReport_digest[of rep res] by simp
    ultimately show ?thesis by blast
  qed simp
  moreover have "EqualFold (hexEncode d) (hexEncode d)" for d by (simp add: EqualFold_def)
  ultimately show ?thesis using r
    by (auto simp: validateExpectedMeasurements_Inr checkMeasurement_def simp del: validateExpectedMeasurements.simps)
      (auto simp: checkMeasurement_def)
qed

text \<open>
  C35: evidence from \<^verbatim>\<open>HygonHardwareProvider.GetEvidence\<close> is asked of the device for exactly the key at hand: the page given
  to the driver holds the digest of the public key padded with zeros, a nonce drawn for this call and the SM3 hash of
  both; the report returned comes from the driver's answer, echoes that nonce and carries a session MAC under it.
\<close>

theorem hardware_request_binds_key:
  assumes "Hygon_GetEvidence g env fs h d log = (Inr (Some ev), log')"
    and "length d = 32" "\<And>bs. length (sm3_Sum g bs) = 32"
  shows "\<exists>nonce fd answer rep. he_rand env NonceSize = Inr nonce \<and>
    po_ioctl (he_ops env) fd getAttestationReportIOCT
      \<lparr>gm_Page = d @ replicate 32 0 @ nonce @ sm3_Sum g (d @ replicate 32 0 @ nonce) @ replicate 3984 0, gm_Size = PageSize\<rparr> = (None, answer) \<and>
    rep = take ReportSize (answer @ drop (length answer)
      (d @ replicate 32 0 @ nonce @ sm3_Sum g (d @ replicate 32 0 @ nonce) @ replicate 3984 0)) \<and>
    VerifySessionMAC g rep nonce = Inr () \<and> VerifyMNonce rep nonce = Inr () \<and>
    take OffsetReserved2 (ev_Report ev) = take OffsetReserved2 rep"
proof -
  let ?ud = "d @ replicate 32 0"
  let ?c = "NewClient env [Some (WithDevicePath (hw_DevicePath h)), Some (WithUserData ?ud)]"
  have ud: "copy_at (replicate 64 0) 0 (take 32 d) = ?ud" using assms(2) by (simp add: copy_at_def)
  obtain nonce where n: "he_rand env NonceSize = Inr nonce"
    and get: "GetAttestationReportIOCTL g env (Some ?c) (replicate 0x9f4 0) nonce log = (Inr (ev_Report ev), log')"
    using hygon_evidence[OF assms(1)] unfolding ud by auto
  obtain rep where f: "fetchReportIOCTL g env ?c nonce log = (Inr rep, log')"
    and buf: "ev_Report ev = copy_at (replicate 0x9f4 0) 0 (copy_at rep 0x9b4 (replicate 32 0))" "0x9f4 \<le> length rep"
    using get by (auto simp: GetAttestationReportIOCTL_def io_success Let_def zeroReserved2_def)
  have c: "cl_ops ?c = Some (he_ops env)" "cl_UserData ?c = ?ud"
    by (simp_all add: NewClient_def WithDevicePath_def WithUserData_def Let_def)
  obtain ops ud fd answer where q: "cl_ops ?c = Some ops" "userData env ?c = Inr ud" and p: "length nonce = 16"
    "po_ioctl ops fd getAttestationReportIOCT \<lparr>gm_Page = requestPage g ud nonce, gm_Size = 4096\<rparr> = (None, answer)"
    "rep = take 0x9f4 (copy_at (requestPage g ud nonce) 0 answer)"
    "VerifySessionMAC g rep nonce = Inr ()" "VerifyMNonce rep nonce = Inr ()"
    by (rule fetchReportIOCTL_Inr[OF f])
  have ops: "ops = he_ops env" and u: "ud = ?ud" using q c assms(2) by (simp_all add: userData_def)
  have page: "requestPage g ?ud nonce = d @ replicate 32 0 @ nonce @ sm3_Sum g (d @ replicate 32 0 @ nonce) @ replicate 3984 0"
    using requestPage_eq[of ?ud nonce g] assms(2,3) p(1) by simp
  have t: "take 0x9f4 (copy_at q 0 answer) = take 0x9f4 (answer @ drop (length answer) q)" if "length q = 4096" for q
    using that by (cases "length answer \<le> 4096") (simp_all add: copy_at_def)
  have "length (requestPage g ?ud nonce) = 4096" by simp
  then have r: "rep = take 0x9f4 (answer @ drop (length answer) (requestPage g ?ud nonce))" using p(3) t unfolding u by blast
  have "take 0x9b4 (ev_Report ev) = take 0x9b4 rep" using buf by (simp add: copy_at_def)
  with r n p(2,4,5) show ?thesis unfolding page ops u PageSize_def ReportSize_def OffsetReserved2_def by blast
qed

theorem hardware_request_binds_key_witness:
  "\<exists>ev log' nonce. Hygon_GetEvidence demoGmsm demoEnv (\<lambda>p. Inl IoEOF) (NewHygonHardwareProvider [] [] []) (replicate 32 5) [] =
       (Inr (Some ev), log') \<and> he_rand demoEnv NonceSize = Inr nonce \<and> length nonce = 16"
proof -
  let ?c = "NewClient demoEnv [Some (WithDevicePath (stringBytes ''/dev/csv-guest'')),
    Some (WithUserData (copy_at (replicate 64 0) 0 (replicate 32 5)))]"
  have "cl_ops ?c = Some demoDevice" "length (cl_UserData ?c) = 64"
    by (simp_all add: NewClient_def WithDevicePath_def WithUserData_def demoEnv_def Let_def)
  then obtain rep log' where rep: "GetAttestationReportIOCTL demoGmsm demoEnv (Some ?c) (replicate 0x9f4 0) (replicate 16 9) [] = (Inr rep, log')"
    using demo_report[of "replicate 16 9" "replicate 0x9f4 0" ?c] by auto
  let ?ev = "\<lparr>ev_Version = 1, ev_Report = rep, ev_HRKCert = [], ev_HSKCekCert = []\<rparr>"
  have env: "he_rand demoEnv 16 = Inr (replicate 16 9)" by (simp add: demoEnv_def)
  have get: "Hygon_GetEvidence demoGmsm demoEnv (\<lambda>p. Inl IoEOF) (NewHygonHardwareProvider [] [] []) (replicate 32 5) [] =
      (Inr (Some ?ev), log')"
    using rep by (simp add: Hygon_GetEvidence_def NewHygonHardwareProvider_def env bindIO_def wrapIO_def Let_def)
  have "length (sm3_Sum demoGmsm bs) = 32" for bs by (simp add: demoGmsm_def)
  from hardware_request_binds_key[OF get length_replicate this] obtain nonce where "he_rand demoEnv NonceSize = Inr nonce" by blast
  moreover from this have "length nonce = 16" using env by auto
  ultimately show ?thesis using get by blast
qed

end
