(* ===== verification/Attestation.thy ===== *)
theory Attestation
  imports Provider
begin

text \<open>
  Attestation end to end: what \<^verbatim>\<open>VerifyPeerCertificateAndEvidence\<close> guarantees in each mode and for which
  configurations it can succeed at all, and that certificates generated with the providers of \<^verbatim>\<open>provider.go\<close>
  are accepted by it.
\<close>

section \<open>Modes\<close>

lemma normalizedVerifyConfig_mode:
  assumes "md = ModeStrict \<or> md = ModePermissive"
  shows "normalizedVerifyConfig (Some (c\<lparr>cf_Mode := md\<rparr>)) =
    (case normalizedVerifyConfig (Some (c\<lparr>cf_Mode := ModeStrict\<rparr>)) of Inl e \<Rightarrow> Inl e | Inr cfg \<Rightarrow> Inr (cfg\<lparr>cf_Mode := md\<rparr>))"
proof -
  have "ModeStrict \<noteq> []" "ModePermissive \<noteq> []" by (simp_all add: ModeStrict_def ModePermissive_def stringBytes_def)
  then show ?thesis using assms
    by (auto simp: normalizedVerifyConfig_def Let_def bindRes_def split: sum.splits option.splits)
qed

lemma normalizedVerifyConfig_default:
  assumes "cf_Mode c = []"
  shows "normalizedVerifyConfig (Some (c\<lparr>cf_Mode := ModeStrict\<rparr>)) = normalizedVerifyConfig (Some c)"
proof -
  have "ModeStrict \<noteq> []" by (simp add: ModeStrict_def stringBytes_def)
  then show ?thesis using assms by (cases c) (simp add: normalizedVerifyConfig_def Let_def cong: if_cong option.case_cong)
qed

lemma options_mode [simp]:
  "anchorOptions (cfg\<lparr>cf_Mode := md\<rparr>) ev = anchorOptions cfg ev"
  "chainOptions fs (cfg\<lparr>cf_Mode := md\<rparr>) ev opts = chainOptions fs cfg ev opts"
  by (simp_all add: anchorOptions_def chainOptions_def Let_def)

lemma ModeStrict_neq_ModePermissive [simp]: "ModeStrict \<noteq> ModePermissive" "ModePermissive \<noteq> ModeStrict"
  by (simp_all add: ModeStrict_def ModePermissive_def stringBytes_def)

lemma checkPolicy_permissive [simp]: "checkPolicy (cfg\<lparr>cf_Mode := ModePermissive\<rparr>) d = Inr ()"
  by (simp add: checkPolicy_Inr)

text \<open>The verdict before the policy: the evidence and the digest the policy looks at.\<close>

definition attestEvidence ::
    "gmsm \<Rightarrow> filesystem \<Rightarrow> gotime \<Rightarrow> bytes \<Rightarrow> Config \<Rightarrow> CSVEvidenceExtension \<Rightarrow> bool" where
  "attestEvidence g fs now pem cfg ev \<longleftrightarrow>
     (\<exists>cert ext opts0 opts. ParseCertificatePEM g pem = Inr cert \<and> crt_NotBefore cert \<le> now \<and> now \<le> crt_NotAfter cert \<and>
        find (\<lambda>ext. ext_Id ext = OIDCSVEvidence) (crt_Extensions cert) = Some ext \<and>
        DecodeCSVEvidence (ext_Value ext) = Inr ev \<and> anchorOptions cfg ev = Inr opts0 \<and>
        chainOptions fs cfg ev opts0 = Inr opts \<and> reportAccepted g fs opts (ev_Report ev) \<and>
        take 32 (userDataOf (ev_Report ev)) = ComputePublicKeySM3 g (crt_RawSubjectPublicKeyInfo cert))"

lemma VerifyPeer_iff:
  assumes cfg: "normalizedVerifyConfig cfgp = Inr cfg" and skip: "\<not> cf_InsecureSkipAttestationVerify cfg"
  shows "VerifyPeerCertificateAndEvidence g fs now pem cfgp = Inr (Some ev) \<longleftrightarrow>
    attestEvidence g fs now pem cfg ev \<and> checkPolicy cfg (digestOf (ev_Report ev)) = Inr ()"
proof
  assume "attestEvidence g fs now pem cfg ev \<and> checkPolicy cfg (digestOf (ev_Report ev)) = Inr ()"
  then show "VerifyPeerCertificateAndEvidence g fs now pem cfgp = Inr (Some ev)"
    unfolding attestEvidence_def using VerifyPeer_accepts[OF cfg skip] by blast
next
  assume ver: "VerifyPeerCertificateAndEvidence g fs now pem cfgp = Inr (Some ev)"
  show "attestEvidence g fs now pem cfg ev \<and> checkPolicy cfg (digestOf (ev_Report ev)) = Inr ()"
    using VerifyPeer_steps[OF ver cfg skip] unfolding attestEvidence_def by auto
qed

text \<open>
  C18: strict mode is permissive mode plus the whitelist. For every configuration that does not skip
  attestation, \<^verbatim>\<open>VerifyPeerCertificateAndEvidence\<close> accepts a peer in strict mode exactly when it accepts it in
  permissive mode and the measurement in the report is one the whitelist names in hexadecimal; nothing else of the
  verification depends on the mode.
\<close>

theorem strict_is_permissive_plus_whitelist:
  assumes "\<not> cf_InsecureSkipAttestationVerify c"
  shows "VerifyPeerCertificateAndEvidence g fs now pem (Some (c\<lparr>cf_Mode := ModeStrict\<rparr>)) = Inr (Some ev) \<longleftrightarrow>
    VerifyPeerCertificateAndEvidence g fs now pem (Some (c\<lparr>cf_Mode := ModePermissive\<rparr>)) = Inr (Some ev) \<and>
    (\<exists>m \<in> set (cf_ExpectedMeasurements c). hexDecode m = Some (digestOf (ev_Report ev)))"
proof (cases "normalizedVerifyConfig (Some (c\<lparr>cf_Mode := ModeStrict\<rparr>))")
  case (Inl e)
  then have "normalizedVerifyConfig (Some (c\<lparr>cf_Mode := ModePermissive\<rparr>)) = Inl e"
    using normalizedVerifyConfig_mode[of ModePermissive c] by simp
  with Inl show ?thesis by (simp add: VerifyPeerCertificateAndEvidence_def)
next
  case (Inr cfg)
  then have per: "normalizedVerifyConfig (Some (c\<lparr>cf_Mode := ModePermissive\<rparr>)) = Inr (cfg\<lparr>cf_Mode := ModePermissive\<rparr>)"
    using normalizedVerifyConfig_mode[of ModePermissive c] by simp
  note f = normalizedVerifyConfig_Inr[OF Inr, simplified]
  have skip: "\<not> cf_InsecureSkipAttestationVerify cfg" using f(4) assms by simp
  have strict: "cf_Mode cfg = ModeStrict" using f(1) by (simp add: mode_def)
  have "attestEvidence g fs now pem (cfg\<lparr>cf_Mode := ModePermissive\<rparr>) ev = attestEvidence g fs now pem cfg ev"
    by (simp add: attestEvidence_def)
  then show ?thesis
    using skip f(3) strict by (simp add: VerifyPeer_iff[OF Inr] VerifyPeer_iff[OF per] checkPolicy_Inr measurementListed_iff)
qed

section \<open>Soundness\<close>

lemma accepted_attested:
  assumes "VerifyPeerCertificateAndEvidence g fs now pem (Some c) = Inr evo"
    and "\<not> cf_InsecureSkipAttestationVerify c"
  shows "\<exists>cfg ev. normalizedVerifyConfig (Some c) = Inr cfg \<and> evo = Some ev \<and> peerAttested g fs now pem cfg ev \<and>
    (mode c = ModeStrict \<longrightarrow> (\<exists>m \<in> set (cf_ExpectedMeasurements c). hexDecode m = Some (digestOf (ev_Report ev))))"
proof -
  obtain cfg where cfg: "normalizedVerifyConfig (Some c) = Inr cfg"
    using assms(1) by (auto simp: VerifyPeerCertificateAndEvidence_def bindRes_Inr)
  note f = normalizedVerifyConfig_Inr[OF cfg, simplified]
  have skip: "\<not> cf_InsecureSkipAttestationVerify cfg" using f(4) assms(2) by simp
  from VerifyPeer_sound[OF assms(1) cfg skip] cfg show ?thesis unfolding f(1,3) by blast
qed

text \<open>
  C3: a peer that \<^verbatim>\<open>VerifyPeerCertificateAndEvidence\<close> accepts without skipping attestation has shown a certificate
  in its validity period with an evidence extension whose report is signed by its PEK; the PEK chains up
  to an HRK that is configured locally (the anchor, the HRK file or the certificate directory), never one
  that only the peer supplied; the report binds the certificate's public key; and in strict mode, the default, its
  measurement is on the whitelist.
\<close>

theorem accepted_peer_attested:
  assumes "VerifyPeerCertificateAndEvidence g fs now pem (Some c) = Inr evo"
    and "\<not> cf_InsecureSkipAttestationVerify c"
  shows "\<exists>cfg ev. normalizedVerifyConfig (Some c) = Inr cfg \<and> evo = Some ev \<and> peerAttested g fs now pem cfg ev \<and>
    (mode c = ModeStrict \<longrightarrow> (\<exists>m \<in> set (cf_ExpectedMeasurements c). hexDecode m = Some (digestOf (ev_Report ev))))"
  using assms by (rule accepted_attested)

text \<open>
  C19: no configuration without a local anchor accepts any peer. If attestation is not skipped, no trusted HRK is
  configured or offered by the provider, and neither certificate paths nor a directory are set, verification fails
  for every certificate, so that the HRK and the chain a peer sends are never enough.
\<close>

theorem no_local_anchor_no_peer:
  assumes "\<not> cf_InsecureSkipAttestationVerify c" "cf_TrustedHRKCert c = []"
    and "cf_EvidenceProvider c = None \<or> (\<exists>p. cf_EvidenceProvider c = Some p \<and> ep_TrustedHRKCert p \<in> {None, Some []})"
    and "cf_HRKCertPath c = []" "cf_CertDir c = []"
  shows "\<exists>e. VerifyPeerCertificateAndEvidence g fs now pem (Some c) = Inl e"
proof (cases "VerifyPeerCertificateAndEvidence g fs now pem (Some c)")
  case (Inr evo)
  obtain cfg where cfg: "normalizedVerifyConfig (Some c) = Inr cfg"
    using Inr by (auto simp: VerifyPeerCertificateAndEvidence_def bindRes_Inr)
  note f = normalizedVerifyConfig_Inr[OF cfg, simplified]
  have skip: "\<not> cf_InsecureSkipAttestationVerify cfg" using f(4) assms(1) by simp
  have "cf_TrustedHRKCert cfg = []" using f(8) assms(2,3) by auto
  then have "\<not> localAnchor fs cfg hrk" for hrk using f(5,7) assms(4,5) by (simp add: localAnchor_def)
  then show ?thesis using VerifyPeer_sound[OF Inr cfg skip] unfolding peerAttested_def by blast
qed auto

text \<open>
  C31: an HRK anchor and certificate paths exclude each other. When both paths are configured and an in-memory anchor
  is configured as well, or filled in from the provider, verification rejects every peer, because the anchor is passed
  as bytes and the intermediates as a path, and \<^verbatim>\<open>loadChainFromOptions\<close> refuses bytes of only one of the two.
\<close>

theorem anchor_with_paths_rejects_all:
  assumes "\<not> cf_InsecureSkipAttestationVerify c" "cf_HRKCertPath c \<noteq> []" "cf_HSKCekCertPath c \<noteq> []"
    and "cf_TrustedHRKCert c \<noteq> [] \<or>
      (\<exists>p h. cf_EvidenceProvider c = Some p \<and> ep_TrustedHRKCert p = Some h \<and> h \<noteq> [])"
  shows "\<exists>e. VerifyPeerCertificateAndEvidence g fs now pem (Some c) = Inl e"
proof (cases "VerifyPeerCertificateAndEvidence g fs now pem (Some c)")
  case (Inr evo)
  obtain cfg where cfg: "normalizedVerifyConfig (Some c) = Inr cfg"
    using Inr by (auto simp: VerifyPeerCertificateAndEvidence_def bindRes_Inr)
  note f = normalizedVerifyConfig_Inr[OF cfg, simplified]
  have skip: "\<not> cf_InsecureSkipAttestationVerify cfg" using f(4) assms(1) by simp
  have anchor: "cf_TrustedHRKCert cfg \<noteq> []" using f(8) assms(4) by auto
  obtain ev where "evo = Some ev" using VerifyPeer_sound[OF Inr cfg skip] by blast
  then have "attestEvidence g fs now pem cfg ev" using Inr VerifyPeer_iff[OF cfg skip] by blast
  then obtain opts0 opts chip certs where o: "anchorOptions cfg ev = Inr opts0" "chainOptions fs cfg ev opts0 = Inr opts"
    and load: "vo_VerifyChain opts \<longrightarrow> loadChainFromOptions fs opts chip = Inr certs"
    unfolding attestEvidence_def reportAccepted_def Let_def by blast
  obtain hrk where "opts0 = \<lparr>vo_VerifyChain = True, vo_TrustedHRKCertBytes = hrk, vo_TrustedHRKCertPath = [],
        vo_HSKCekCertBytes = [], vo_HSKCekCertPath = [], vo_CertDir = cf_CertDir cfg,
        vo_HRKCertBytes = [], vo_HRKCertPath = []\<rparr>" "hrk \<noteq> []"
    using o(1) anchor normalizeHRKCert_nonempty by (auto simp: anchorOptions_Inr)
  then have "vo_VerifyChain opts" "loadChainFromOptions fs opts chip \<noteq> Inr certs"
    using o(2) f(5,6) assms(2,3) by (auto simp: chainOptions_def loadChainFromOptions_def Let_def)
  with load show ?thesis by blast
qed auto

section \<open>Generated certificates\<close>

text \<open>
  What the program relies on of \<^verbatim>\<open>gmsm/x509\<close>: a created certificate is read back with the key, the times to the
  second and the extra extensions of its template, which win over any other of the same identifier, and a
  private key is read back from its PEM form.
\<close>

definition truncSecond :: "gotime \<Rightarrow> gotime" where
  "truncSecond t = t div nsSecond * nsSecond"

definition x509Documented :: "gmsm \<Rightarrow> bool" where
  "x509Documented g \<longleftrightarrow>
     (\<forall>tpl pub priv rnd pem. gx509_CreateCertificateToPem g tpl pub priv rnd = Inr pem \<longrightarrow>
        (\<exists>c. gx509_ReadCertificateFromPem g pem = Inr c \<and>
           gc_PublicKey c \<in> {SM2Key pub, ECDSAKey (pk_X pub) (pk_Y pub)} \<and>
           gx509_MarshalPKIXPublicKey g pub = Inr (crt_RawSubjectPublicKeyInfo (gc_X509 c)) \<and>
           crt_NotBefore (gc_X509 c) = truncSecond (tpl_NotBefore tpl) \<and>
           crt_NotAfter (gc_X509 c) = truncSecond (tpl_NotAfter tpl) \<and>
           (\<forall>ext \<in> set (tpl_ExtraExtensions tpl).
              find (\<lambda>e. ext_Id e = ext_Id ext) (crt_Extensions (gc_X509 c)) =
              find (\<lambda>e. ext_Id e = ext_Id ext) (tpl_ExtraExtensions tpl)))) \<and>
     (\<forall>k pem. gx509_WritePrivateKeyToPem g k = Inr pem \<longrightarrow> gx509_ReadPrivateKeyFromPem g pem = Inr k)"

lemma truncSecond_bounds: "truncSecond t \<le> t" "t < truncSecond t + nsSecond"
  unfolding truncSecond_def nsSecond_def by (simp_all add: minus_mod_eq_div_mult[symmetric] pos_mod_bound)

text \<open>A certificate made from a template with one extension, as the verifier sees it.\<close>

lemma created_certificate:
  assumes doc: "x509Documented g" and ext: "ext_Id ext = OIDCSVEvidence"
    and mk: "gx509_CreateCertificateToPem g (certTemplateFor serial now ext) pub priv rnd = Inr pem"
    and der: "gx509_MarshalPKIXPublicKey g pub = Inr der"
  shows "\<exists>cert. ParseCertificatePEM g pem = Inr cert \<and> crt_RawSubjectPublicKeyInfo cert = der \<and>
    find (\<lambda>e. ext_Id e = OIDCSVEvidence) (crt_Extensions cert) = Some ext \<and>
    crt_NotBefore cert \<le> now - nsHour \<and> now + 24 * nsHour < crt_NotAfter cert + nsSecond"
proof -
  obtain c where c: "gx509_ReadCertificateFromPem g pem = Inr c"
    "gx509_MarshalPKIXPublicKey g pub = Inr (crt_RawSubjectPublicKeyInfo (gc_X509 c))"
    "crt_NotBefore (gc_X509 c) = truncSecond (tpl_NotBefore (certTemplateFor serial now ext))"
    "crt_NotAfter (gc_X509 c) = truncSecond (tpl_NotAfter (certTemplateFor serial now ext))"
    "\<forall>x \<in> set (tpl_ExtraExtensions (certTemplateFor serial now ext)).
       find (\<lambda>e. ext_Id e = ext_Id x) (crt_Extensions (gc_X509 c)) =
       find (\<lambda>e. ext_Id e = ext_Id x) (tpl_ExtraExtensions (certTemplateFor serial now ext))"
    using doc mk unfolding x509Documented_def by blast
  have "find (\<lambda>e. ext_Id e = OIDCSVEvidence) (crt_Extensions (gc_X509 c)) = Some ext"
    using c(5) ext by (simp add: certTemplateFor_def)
  moreover have "crt_NotBefore (gc_X509 c) \<le> now - nsHour" "now + 24 * nsHour < crt_NotAfter (gc_X509 c) + nsSecond"
    using c(3,4) truncSecond_bounds[of "now - nsHour"] truncSecond_bounds[of "now + 24 * nsHour"]
    by (simp_all add: certTemplateFor_def)
  ultimately show ?thesis using c(1,2) der by (simp add: ParseCertificatePEM_def)
qed

lemma take32_pubKeyDigest:
  "take 32 (copy_at (replicate 64 0) 0 (ComputePublicKeySM3 g der)) = ComputePublicKeySM3 g der"
  by (simp add: ComputePublicKeySM3_def copy_at_def)

lemma mockMeasurement_valid:
  "hexDecode mh = Some d \<Longrightarrow> length d = 32 \<Longrightarrow> mockMeasurement mh = d"
  by (simp add: mockMeasurement_def)

text \<open>An anchor in memory and the chain of the peer, when no path is configured, are the options of a trusted chain.\<close>

lemma trusted_chain_used:
  assumes cfg: "normalizedVerifyConfig (Some c) = Inr cfg" and hrk: "cf_TrustedHRKCert cfg = hrk"
    and len: "length hrk = 0x340" "hskCek \<noteq> []" and paths: "cf_HRKCertPath c = []" "cf_CertDir c = []"
    and ev: "ev_HRKCert ev = hrk" "ev_HSKCekCert ev = hskCek"
  shows "anchorOptions cfg ev = Inr ((trustedChainOptions hrk hskCek)\<lparr>vo_HSKCekCertBytes := []\<rparr>)"
    and "chainOptions fs cfg ev ((trustedChainOptions hrk hskCek)\<lparr>vo_HSKCekCertBytes := []\<rparr>) = Inr (trustedChainOptions hrk hskCek)"
proof -
  note f = normalizedVerifyConfig_Inr[OF cfg, simplified]
  have ne: "hrk \<noteq> []" using len by auto
  show "anchorOptions cfg ev = Inr ((trustedChainOptions hrk hskCek)\<lparr>vo_HSKCekCertBytes := []\<rparr>)"
    using hrk len ne f(7) paths(2) by (simp add: anchorOptions_def ev normalizeHRKCert_def trustedChainOptions_def)
  show "chainOptions fs cfg ev ((trustedChainOptions hrk hskCek)\<lparr>vo_HSKCekCertBytes := []\<rparr>) = Inr (trustedChainOptions hrk hskCek)"
    using f(5,7) paths ne len(2) by (simp add: chainOptions_def ev trustedChainOptions_def)
qed

lemma mock_report_trusted:
  assumes "authorityOk g a" "Generate g rnd a ud mh = Inr (rep, ma_hrkCert a, ma_hskCekCert a)"
  shows "reportAccepted g fs (trustedChainOptions (ma_hrkCert a) (ma_hskCekCert a)) rep"
proof -
  have "ma_hrkCert a \<noteq> []" "ma_hskCekCert a \<noteq> []" using assms(1) by (auto simp: authorityOk_def)
  then have "loadChainFromOptions fs (trustedChainOptions (ma_hrkCert a) (ma_hskCekCert a)) (stringBytes ''TESTCHIP0001'') =
      Inr \<lparr>ci_HRK = ma_hrkCert a, ci_HSKCEK = ma_hskCekCert a, ci_Source = stringBytes ''in-memory trusted HRK and HSK/CEK bytes''\<rparr>"
    by (simp add: loadChainFromOptions_def trustedChainOptions_def)
  then show ?thesis using Generate_accepted[OF assms] by simp
qed

lemma mock_policy:
  assumes cfg: "normalizedVerifyConfig (Some c) = Inr cfg" and listed: "mode c = ModeStrict \<longrightarrow> mh \<in> set (cf_ExpectedMeasurements c)"
  shows "checkPolicy cfg (mockMeasurement mh) = Inr ()"
proof (cases "mode c = ModeStrict")
  note f = normalizedVerifyConfig_Inr[OF cfg, simplified]
  case True
  then have mem: "mh \<in> set (cf_ExpectedMeasurements cfg)" using listed f(3) by simp
  have "validateExpectedMeasurements (cf_ExpectedMeasurements cfg) = Inr ()"
    using cfg f(3) by (auto simp: normalizedVerifyConfig_def bindRes_Inr Let_def split: if_splits option.splits)
  then obtain d where "length d = 32" "hexDecode mh = Some d"
    using mem by (auto simp: validateExpectedMeasurements_Inr hexDecode_iff_EqualFold)
  then show ?thesis using mem by (auto simp: checkPolicy_Inr measurementListed_iff mockMeasurement_valid)
qed (use normalizedVerifyConfig_Inr[OF cfg, simplified] in \<open>simp add: checkPolicy_Inr\<close>)

lemma mock_certificate_ok:
  fixes g rnd1 mh
  defines "m \<equiv> (NewMockEvidenceProvider g rnd1)\<lparr>mp_MeasurementHex := mh\<rparr>"
  assumes doc: "sm2Documented g" "x509Documented g"
    and gen: "GenerateSM2CertificateWithEvidenceContext g rnd now (Some ctx) (Some (mockProvider g rnd2 m)) = Inr (certPEM, keyPEM)"
    and time: "now - nsHour \<le> now'" "now' + nsSecond \<le> now + 24 * nsHour"
    and cfg: "normalizedVerifyConfig (Some c) = Inr cfg" "\<not> cf_InsecureSkipAttestationVerify c"
    and anchor: "cf_TrustedHRKCert cfg = Mock_TrustedHRKCert m" "cf_HRKCertPath c = []" "cf_CertDir c = []"
    and listed: "mode c = ModeStrict \<longrightarrow> mh \<in> set (cf_ExpectedMeasurements c)"
  shows "\<exists>ev. VerifyPeerCertificateAndEvidence g fs now' certPEM (Some c) = Inr (Some ev)"
proof -
  note f = normalizedVerifyConfig_Inr[OF cfg(1), simplified]
  obtain priv der ev ext serial where c: "gx509_MarshalPKIXPublicKey g (sk_pub priv) = Inr der"
    "ep_GetEvidence (mockProvider g rnd2 m) (ComputePublicKeySM3 g der) = Inr (Some ev)"
    "ext_Id ext = OIDCSVEvidence" "DecodeCSVEvidence (ext_Value ext) = Inr ev"
    "gx509_CreateCertificateToPem g (certTemplateFor serial now ext) (sk_pub priv) priv (ce_sign rnd) = Inr certPEM"
    using mock.generated_certificate[OF gen[unfolded m_def]] unfolding m_def by blast
  have get: "Mock_GetEvidence g rnd2 (ComputePublicKeySM3 g der) m =
      (Inr (Some ev), snd (Mock_GetEvidence g rnd2 (ComputePublicKeySM3 g der) m))"
    using c(2) by (simp add: mockProvider_def prod_eq_iff)
  obtain a where a: "NewMockAttestationAuthority g rnd1 = Inr a"
    using get by (cases "NewMockAttestationAuthority g rnd1")
      (auto simp: m_def NewMockEvidenceProvider_def Mock_GetEvidence_def attestationAuthority_def bindIO_def)
  have ok: "authorityOk g a" by (rule NewMockAttestationAuthority_ok[OF doc(1) a])
  obtain rep where rep: "Generate g (rnd2 8) a (ComputePublicKeySM3 g der) mh = Inr (rep, ma_hrkCert a, ma_hskCekCert a)"
    and ev: "ev = \<lparr>ev_Version = 1, ev_Report = rep, ev_HRKCert = ma_hrkCert a, ev_HSKCekCert = ma_hskCekCert a\<rparr>"
    using mock_evidence[OF a _ get] by (auto simp: m_def)
  note r = Generate_ok[OF ok rep]
  have hrk: "cf_TrustedHRKCert cfg = ma_hrkCert a" using anchor(1) a by (simp add: m_def Mock_TrustedHRKCert_def NewMockEvidenceProvider_def HRKCert_def)
  let ?opts = "trustedChainOptions (ma_hrkCert a) (ma_hskCekCert a)"
  have len: "length (ma_hrkCert a) = 0x340" "ma_hskCekCert a \<noteq> []" using ok by (auto simp: authorityOk_def)
  have o12: "anchorOptions cfg ev = Inr (?opts\<lparr>vo_HSKCekCertBytes := []\<rparr>)" "chainOptions fs cfg ev (?opts\<lparr>vo_HSKCekCertBytes := []\<rparr>) = Inr ?opts"
    using trusted_chain_used[OF cfg(1) hrk len anchor(2,3)] by (simp_all add: ev)
  have acc: "reportAccepted g fs ?opts (ev_Report ev)" using mock_report_trusted[OF ok rep] by (simp add: ev)
  obtain cert where cert: "ParseCertificatePEM g certPEM = Inr cert" "crt_RawSubjectPublicKeyInfo cert = der"
    "find (\<lambda>e. ext_Id e = OIDCSVEvidence) (crt_Extensions cert) = Some ext"
    "crt_NotBefore cert \<le> now - nsHour" "now + 24 * nsHour < crt_NotAfter cert + nsSecond"
    using created_certificate[OF doc(2) c(3,5,1)] by blast
  have bind: "take 32 (userDataOf (ev_Report ev)) = ComputePublicKeySM3 g (crt_RawSubjectPublicKeyInfo cert)"
    using r(4,5) take32_pubKeyDigest by (simp add: ev userDataOf_def cert(2))
  have digest: "digestOf (ev_Report ev) = mockMeasurement mh" using r(4,6) by (simp add: ev digestOf_def)
  have pol: "checkPolicy cfg (digestOf (ev_Report ev)) = Inr ()" unfolding digest by (rule mock_policy[OF cfg(1) listed])
  have skip: "\<not> cf_InsecureSkipAttestationVerify cfg" using f(4) cfg(2) by simp
  have "crt_NotBefore cert \<le> now'" "now' \<le> crt_NotAfter cert" using cert(4,5) time by simp_all
  from VerifyPeer_accepts[OF cfg(1) skip cert(1) this cert(3) c(4) o12 acc bind pol] show ?thesis ..
qed

text \<open>
  C32: a certificate generated with the mock provider is accepted by a peer that trusts the provider's HRK, in memory or
  through its own provider, and that in strict mode lists the provider's measurement, at every time from an hour
  before its generation to a second before a day after it. The hypotheses on the packages are that SM2 signatures verify
  and that X.509 certificates are read back as created.
\<close>

theorem mock_certificate_accepted:
  fixes g rnd1 mh
  defines "m \<equiv> (NewMockEvidenceProvider g rnd1)\<lparr>mp_MeasurementHex := mh\<rparr>"
  assumes doc: "sm2Documented g" "x509Documented g"
    and gen: "GenerateSM2CertificateWithEvidenceContext g rnd now (Some ctx) (Some (mockProvider g rnd2 m)) = Inr (certPEM, keyPEM)"
    and time: "now - nsHour \<le> now'" "now' + nsSecond \<le> now + 24 * nsHour"
    and cfg: "normalizedVerifyConfig (Some c) = Inr cfg" "\<not> cf_InsecureSkipAttestationVerify c"
    and anchor: "cf_TrustedHRKCert cfg = Mock_TrustedHRKCert m" "cf_HRKCertPath c = []" "cf_CertDir c = []"
    and listed: "mode c = ModeStrict \<longrightarrow> mh \<in> set (cf_ExpectedMeasurements c)"
  shows "\<exists>ev. VerifyPeerCertificateAndEvidence g fs now' certPEM (Some c) = Inr (Some ev)"
  using assms(2-) unfolding m_def by (rule mock_certificate_ok)

section \<open>A concrete instance of the packages\<close>

text \<open>
  Certificates for witnesses: times in seconds, the key and the one extension, in fixed-width fields. They are
  read back as the packages document it, which is all they are for.
\<close>

definition demoCreate :: "certTemplate \<Rightarrow> sm2pub \<Rightarrow> bytes result" where
  "demoCreate tpl pub =
     (case tpl_ExtraExtensions tpl of
        [ext] \<Rightarrow>
          if ext_Id ext = OIDCSVEvidence \<and> \<not> ext_Critical ext \<and>
             0 \<le> tpl_NotBefore tpl \<and> tpl_NotBefore tpl < 2 ^ 128 \<and> 0 \<le> tpl_NotAfter tpl \<and> tpl_NotAfter tpl < 2 ^ 128 \<and>
             pk_X pub < 2 ^ 256 \<and> pk_Y pub < 2 ^ 256
          then Inr (be_of_nat 16 (nat (tpl_NotBefore tpl div nsSecond)) @ be_of_nat 16 (nat (tpl_NotAfter tpl div nsSecond)) @
                    be_of_nat 32 (pk_X pub) @ be_of_nat 32 (pk_Y pub) @ ext_Value ext)
          else Inl (ErrNew ''unsupported template'')
      | _ \<Rightarrow> Inl (ErrNew ''unsupported template''))"

definition demoRead :: "bytes \<Rightarrow> gcert result" where
  "demoRead pem =
     (if length pem < 96 then Inl (ErrNew ''no certificate'')
      else let pub = \<lparr>pk_X = nat_of_be (slice pem 32 64), pk_Y = nat_of_be (slice pem 64 96)\<rparr>
           in Inr \<lparr>gc_PublicKey = SM2Key pub,
                   gc_X509 = \<lparr>crt_NotBefore = int (nat_of_be (slice pem 0 16)) * nsSecond,
                     crt_NotAfter = int (nat_of_be (slice pem 16 32)) * nsSecond,
                     crt_Extensions = [\<lparr>ext_Id = OIDCSVEvidence, ext_Critical = False, ext_Value = drop 96 pem\<rparr>],
                     crt_RawSubjectPublicKeyInfo = bigBytes (pk_X pub)\<rparr>\<rparr>)"

definition demoPki :: gmsm where
  "demoPki = demoGmsm\<lparr>gx509_ReadCertificateFromPem := demoRead,
     gx509_CreateCertificateToPem := (\<lambda>tpl pub k rnd. demoCreate tpl pub),
     gx509_ReadPrivateKeyFromPem := (\<lambda>pem. if length pem < 96 then Inl (ErrNew ''no key'')
        else Inr \<lparr>sk_D = nat_of_be (drop 96 pem), sk_pub = \<lparr>pk_X = nat_of_be (slice pem 32 64), pk_Y = nat_of_be (slice pem 64 96)\<rparr>\<rparr>),
     gx509_WritePrivateKeyToPem := (\<lambda>k. if pk_X (sk_pub k) < 2 ^ 256 \<and> pk_Y (sk_pub k) < 2 ^ 256
        then Inr (replicate 32 0 @ be_of_nat 32 (pk_X (sk_pub k)) @ be_of_nat 32 (pk_Y (sk_pub k)) @ bigBytes (sk_D k))
        else Inl (ErrNew ''key out of range''))\<rparr>"

lemma demoPki_sm2: "sm2Documented demoPki"
  using demoGmsm_documented by (simp add: sm2Documented_def goodKey_def demoPki_def)

lemma demo_seconds: "0 \<le> t \<Longrightarrow> t < 2 ^ 128 \<Longrightarrow> int (nat_of_be (be_of_nat 16 (nat (t div nsSecond)))) * nsSecond = truncSecond t"
proof -
  assume t: "0 \<le> t" "t < 2 ^ 128"
  have "t div nsSecond \<le> t" using t(1) unfolding nsSecond_def by linarith
  then have "nat (t div nsSecond) < 256 ^ 16" using t by simp
  moreover have "0 \<le> t div nsSecond" using t(1) by (simp add: pos_imp_zdiv_nonneg_iff)
  ultimately show ?thesis by (simp add: nat_of_be_of_nat truncSecond_def)
qed

lemma demo_x509:
  assumes "demoCreate tpl pub = Inr pem"
  shows "\<exists>c ext. tpl_ExtraExtensions tpl = [ext] \<and> demoRead pem = Inr c \<and> gc_PublicKey c = SM2Key pub \<and>
    crt_RawSubjectPublicKeyInfo (gc_X509 c) = bigBytes (pk_X pub) \<and>
    crt_NotBefore (gc_X509 c) = truncSecond (tpl_NotBefore tpl) \<and>
    crt_NotAfter (gc_X509 c) = truncSecond (tpl_NotAfter tpl) \<and> crt_Extensions (gc_X509 c) = [ext]"
proof -
  obtain ext where ext: "tpl_ExtraExtensions tpl = [ext]" "ext_Id ext = OIDCSVEvidence" "\<not> ext_Critical ext"
    "0 \<le> tpl_NotBefore tpl" "tpl_NotBefore tpl < 2 ^ 128" "0 \<le> tpl_NotAfter tpl" "tpl_NotAfter tpl < 2 ^ 128"
    "pk_X pub < 2 ^ 256" "pk_Y pub < 2 ^ 256"
    and pem: "pem = be_of_nat 16 (nat (tpl_NotBefore tpl div nsSecond)) @ be_of_nat 16 (nat (tpl_NotAfter tpl div nsSecond)) @
                    be_of_nat 32 (pk_X pub) @ be_of_nat 32 (pk_Y pub) @ ext_Value ext"
    using assms by (auto simp: demoCreate_def split: list.splits if_splits)
  have s: "slice pem 0 16 = be_of_nat 16 (nat (tpl_NotBefore tpl div nsSecond))"
    "slice pem 16 32 = be_of_nat 16 (nat (tpl_NotAfter tpl div nsSecond))"
    "slice pem 32 64 = be_of_nat 32 (pk_X pub)" "slice pem 64 96 = be_of_nat 32 (pk_Y pub)" "drop 96 pem = ext_Value ext"
    by (simp_all add: pem slice_def)
  have len: "\<not> length pem < 96" by (simp add: pem)
  have "\<lparr>ext_Id = OIDCSVEvidence, ext_Critical = False, ext_Value = ext_Value ext\<rparr> = ext" using ext(2,3) by (cases ext) simp
  then show ?thesis
    using ext len demo_seconds[OF ext(4,5)] demo_seconds[OF ext(6,7)]
    by (simp add: demoRead_def s nat_of_be_of_nat Let_def)
qed

lemma demo_key_pem:
  assumes "gx509_WritePrivateKeyToPem demoPki k = Inr pem"
  shows "gx509_ReadPrivateKeyFromPem demoPki pem = Inr k"
proof -
  have r: "pk_X (sk_pub k) < 2 ^ 256" "pk_Y (sk_pub k) < 2 ^ 256"
    and pem: "pem = replicate 32 0 @ be_of_nat 32 (pk_X (sk_pub k)) @ be_of_nat 32 (pk_Y (sk_pub k)) @ bigBytes (sk_D k)"
    using assms by (auto simp: demoPki_def split: if_splits)
  have "slice pem 32 64 = be_of_nat 32 (pk_X (sk_pub k))" "slice pem 64 96 = be_of_nat 32 (pk_Y (sk_pub k))"
    "drop 96 pem = bigBytes (sk_D k)" by (simp_all add: pem slice_def)
  moreover have "\<not> length pem < 96" by (simp add: pem)
  ultimately show ?thesis using r by (cases k) (simp add: demoPki_def nat_of_be_of_nat)
qed

lemma demoPki_x509: "x509Documented demoPki"
  unfolding x509Documented_def
proof (intro conjI allI impI)
  fix tpl pub priv rnd pem
  assume "gx509_CreateCertificateToPem demoPki tpl pub priv rnd = Inr pem"
  then have "demoCreate tpl pub = Inr pem" by (simp add: demoPki_def)
  from demo_x509[OF this] show "\<exists>c. gx509_ReadCertificateFromPem demoPki pem = Inr c \<and>
           gc_PublicKey c \<in> {SM2Key pub, ECDSAKey (pk_X pub) (pk_Y pub)} \<and>
           gx509_MarshalPKIXPublicKey demoPki pub = Inr (crt_RawSubjectPublicKeyInfo (gc_X509 c)) \<and>
           crt_NotBefore (gc_X509 c) = truncSecond (tpl_NotBefore tpl) \<and>
           crt_NotAfter (gc_X509 c) = truncSecond (tpl_NotAfter tpl) \<and>
           (\<forall>ext \<in> set (tpl_ExtraExtensions tpl).
              find (\<lambda>e. ext_Id e = ext_Id ext) (crt_Extensions (gc_X509 c)) =
              find (\<lambda>e. ext_Id e = ext_Id ext) (tpl_ExtraExtensions tpl))"
    by (auto simp: demoPki_def demoGmsm_def)
qed (rule demo_key_pem)

definition demoMock :: MockEvidenceProvider where
  "demoMock = (NewMockEvidenceProvider demoPki (\<lambda>i. [7]))\<lparr>mp_MeasurementHex := DefaultMockMeasurementHex\<rparr>"

definition demoProvider :: EvidenceProvider where
  "demoProvider = mockProvider demoPki (\<lambda>i. [7]) demoMock"

definition demoEntropy :: certEntropy where
  "demoEntropy = \<lparr>ce_key = [9], ce_serial = Inr 1, ce_sign = []\<rparr>"

definition demoNow :: gotime where "demoNow = 2000000000 * nsSecond"

definition demoConfig :: Config where
  "demoConfig = zeroConfig\<lparr>cf_ExpectedMeasurements := [DefaultMockMeasurementHex],
     cf_TrustedHRKCert := Mock_TrustedHRKCert demoMock\<rparr>"

lemma demoPki_total: "\<exists>key. sm2_GenerateKey demoPki rnd = Inr key \<and> signsAll demoPki key"
  by (auto simp: demoPki_def demoGmsm_def signsAll_def)

lemma demo_authority: "\<exists>a. NewMockAttestationAuthority demoPki (\<lambda>i. [7]) = Inr a"
  using GenerateMockAttestationData_total[OF demoPki_total demoPki_sm2, of "\<lambda>i. [7]" "[]" "[]"]
  by (auto simp: GenerateMockAttestationData_def bindRes_Inr)

lemma demo_evidence: "\<exists>ev. getEvidenceWithContext contextBackground demoProvider d = Inr (Some ev)"
proof -
  obtain a where a: "NewMockAttestationAuthority demoPki (\<lambda>i. [7]) = Inr a" using demo_authority ..
  obtain rep hrk hsk where "Generate demoPki [7] a d DefaultMockMeasurementHex = Inr (rep, hrk, hsk)"
    using GenerateMockAttestationData_total[OF demoPki_total demoPki_sm2, of "\<lambda>i. [7]" d DefaultMockMeasurementHex] a
    by (auto simp: GenerateMockAttestationData_def)
  then show ?thesis
    using a by (simp add: getEvidenceWithContext_def demoProvider_def demoMock_def mockProvider_def contextBackground_def
        Mock_GetEvidenceContext_def Mock_GetEvidence_def attestationAuthority_def bindIO_def NewMockEvidenceProvider_def)
qed

lemma demo_encoded:
  "\<exists>evo ext. getEvidenceWithContext contextBackground demoProvider d = Inr evo \<and> EncodeCSVEvidence evo = Inr ext \<and>
     ext_Id ext = OIDCSVEvidence \<and> \<not> ext_Critical ext"
proof -
  obtain ev where ev: "getEvidenceWithContext contextBackground demoProvider d = Inr (Some ev)" using demo_evidence ..
  have "\<exists>ext. EncodeCSVEvidence (Some ev) = Inr ext"
    using mock.evidence_encodable[OF ev[unfolded demoProvider_def demoMock_def]] by auto
  then obtain ext where "EncodeCSVEvidence (Some ev) = Inr ext" ..
  moreover have "ext_Id ext = OIDCSVEvidence \<and> \<not> ext_Critical ext"
    using \<open>EncodeCSVEvidence (Some ev) = Inr ext\<close> by (auto simp: EncodeCSVEvidence_def Let_def bindRes_Inr split: if_splits)
  ultimately show ?thesis using ev by blast
qed

lemma demo_certificate:
  "\<exists>certPEM keyPEM. GenerateSM2CertificateWithEvidenceContext demoPki demoEntropy demoNow (Some contextBackground)
     (Some demoProvider) = Inr (certPEM, keyPEM) \<and> certPEM \<noteq> []"
proof -
  have nine: "nat_of_be [9] = 9" by code_simp
  obtain evo ext where e: "getEvidenceWithContext contextBackground demoProvider (ComputePublicKeySM3 demoPki (bigBytes 9)) = Inr evo"
    "EncodeCSVEvidence evo = Inr ext" "ext_Id ext = OIDCSVEvidence" "\<not> ext_Critical ext"
    using demo_encoded by blast
  have "be_of_nat 32 9 \<noteq> []" using length_be_of_nat[of 32 9] by force
  then obtain pem where "demoCreate (certTemplateFor 1 demoNow ext) (sk_pub (demoKey 9)) = Inr pem" and pem: "pem \<noteq> []"
    using e(3,4) by (auto simp: demoCreate_def certTemplateFor_def demoKey_def demoNow_def)
  then have "gx509_CreateCertificateToPem demoPki (certTemplateFor 1 demoNow ext) (sk_pub (demoKey 9)) (demoKey 9) [] = Inr pem"
    by (simp add: demoPki_def)
  moreover have "sm2_GenerateKey demoPki [9] = Inr (demoKey 9)" by (simp add: demoPki_def demoGmsm_def nine)
  moreover have "gx509_MarshalPKIXPublicKey demoPki (sk_pub (demoKey 9)) = Inr (bigBytes 9)"
    by (simp add: demoPki_def demoGmsm_def demoKey_def)
  moreover have "\<exists>k. gx509_WritePrivateKeyToPem demoPki (demoKey 9) = Inr k" by (simp add: demoPki_def demoKey_def)
  ultimately show ?thesis using e(1,2) pem
    by (auto simp: GenerateSM2CertificateWithEvidenceContext_def demoEntropy_def)
qed

lemma demo_measurement_valid: "validateExpectedMeasurements [DefaultMockMeasurementHex] = Inr ()"
  by code_simp

lemma demo_anchor: "Mock_TrustedHRKCert demoMock \<noteq> []"
proof -
  obtain a where a: "NewMockAttestationAuthority demoPki (\<lambda>i. [7]) = Inr a" using demo_authority ..
  show "Mock_TrustedHRKCert demoMock \<noteq> []"
    using authority_sizes(1)[OF a] by (auto simp: Mock_TrustedHRKCert_def demoMock_def NewMockEvidenceProvider_def a HRKCert_def)
qed

lemma demo_normalized:
  "normalizedVerifyConfig (Some demoConfig) = Inr (demoConfig\<lparr>cf_Mode := ModeStrict\<rparr>)"
  using demo_measurement_valid demo_anchor by (simp add: normalizedVerifyConfig_def demoConfig_def zeroConfig_def Let_def)

definition noFiles :: filesystem where "noFiles = (\<lambda>p. Inl IoEOF)"

lemma demo_accepted:
  assumes "GenerateSM2CertificateWithEvidenceContext demoPki demoEntropy demoNow (Some contextBackground)
     (Some demoProvider) = Inr (certPEM, keyPEM)"
  shows "\<exists>ev. VerifyPeerCertificateAndEvidence demoPki noFiles demoNow certPEM (Some demoConfig) = Inr (Some ev)"
  by (rule mock_certificate_ok[OF demoPki_sm2 demoPki_x509 assms[unfolded demoProvider_def demoMock_def] _ _ demo_normalized])
    (simp_all add: demoConfig_def zeroConfig_def demoMock_def)

lemma demo_peer:
  "\<exists>pem ev. VerifyPeerCertificateAndEvidence demoPki noFiles demoNow pem (Some demoConfig) = Inr (Some ev)"
  using demo_certificate demo_accepted by blast

lemma demoConfig_simps:
  "\<not> cf_InsecureSkipAttestationVerify demoConfig" "cf_HRKCertPath demoConfig = []" "cf_CertDir demoConfig = []"
  "mode demoConfig = ModeStrict" "cf_ExpectedMeasurements demoConfig = [DefaultMockMeasurementHex]"
  by (simp_all add: demoConfig_def zeroConfig_def mode_def)

theorem mock_certificate_accepted_witness:
  "\<exists>certPEM keyPEM ev. GenerateSM2CertificateWithEvidenceContext demoPki demoEntropy demoNow (Some contextBackground)
       (Some demoProvider) = Inr (certPEM, keyPEM) \<and>
     VerifyPeerCertificateAndEvidence demoPki noFiles (demoNow + nsHour) certPEM (Some demoConfig) = Inr (Some ev)"
proof -
  obtain certPEM keyPEM where gen: "GenerateSM2CertificateWithEvidenceContext demoPki demoEntropy demoNow (Some contextBackground)
       (Some demoProvider) = Inr (certPEM, keyPEM)" using demo_certificate by blast
  have "\<exists>ev. VerifyPeerCertificateAndEvidence demoPki noFiles (demoNow + nsHour) certPEM (Some demoConfig) = Inr (Some ev)"
    by (rule mock_certificate_accepted[OF demoPki_sm2 demoPki_x509 gen[unfolded demoProvider_def demoMock_def] _ _ demo_normalized])
      (simp_all add: demoConfig_def zeroConfig_def demoMock_def)
  with gen show ?thesis by blast
qed

theorem accepted_peer_attested_witness:
  "\<exists>pem cfg ev. VerifyPeerCertificateAndEvidence demoPki noFiles demoNow pem (Some demoConfig) = Inr (Some ev) \<and>
     peerAttested demoPki noFiles demoNow pem cfg ev \<and>
     hexDecode DefaultMockMeasurementHex = Some (digestOf (ev_Report ev))"
proof -
  obtain pem ev where v: "VerifyPeerCertificateAndEvidence demoPki noFiles demoNow pem (Some demoConfig) = Inr (Some ev)"
    using demo_peer by blast
  from accepted_peer_attested[OF v demoConfig_simps(1)] v demoConfig_simps(4,5) show ?thesis by auto
qed

theorem strict_is_permissive_plus_whitelist_witness:
  "\<exists>pem ev. VerifyPeerCertificateAndEvidence demoPki noFiles demoNow pem (Some (demoConfig\<lparr>cf_Mode := ModeStrict\<rparr>)) = Inr (Some ev) \<and>
     VerifyPeerCertificateAndEvidence demoPki noFiles demoNow pem (Some (demoConfig\<lparr>cf_Mode := ModePermissive\<rparr>)) = Inr (Some ev)"
proof -
  obtain pem ev where v: "VerifyPeerCertificateAndEvidence demoPki noFiles demoNow pem (Some demoConfig) = Inr (Some ev)"
    using demo_peer by blast
  have "normalizedVerifyConfig (Some (demoConfig\<lparr>cf_Mode := ModeStrict\<rparr>)) = normalizedVerifyConfig (Some demoConfig)"
    by (rule normalizedVerifyConfig_default) (simp add: demoConfig_def zeroConfig_def)
  then have "VerifyPeerCertificateAndEvidence demoPki noFiles demoNow pem (Some (demoConfig\<lparr>cf_Mode := ModeStrict\<rparr>)) = Inr (Some ev)"
    using v by (simp add: VerifyPeerCertificateAndEvidence_def)
  with strict_is_permissive_plus_whitelist[OF demoConfig_simps(1), of demoPki noFiles demoNow pem ev] show ?thesis by blast
qed

theorem no_local_anchor_no_peer_witness:
  "\<exists>pem ev e. VerifyPeerCertificateAndEvidence demoPki noFiles demoNow pem (Some demoConfig) = Inr (Some ev) \<and>
     VerifyPeerCertificateAndEvidence demoPki noFiles demoNow pem (Some (demoConfig\<lparr>cf_TrustedHRKCert := []\<rparr>)) = Inl e"
proof -
  obtain pem ev where v: "VerifyPeerCertificateAndEvidence demoPki noFiles demoNow pem (Some demoConfig) = Inr (Some ev)"
    using demo_peer by blast
  have "\<exists>e. VerifyPeerCertificateAndEvidence demoPki noFiles demoNow pem (Some (demoConfig\<lparr>cf_TrustedHRKCert := []\<rparr>)) = Inl e"
    by (rule no_local_anchor_no_peer) (simp_all add: demoConfig_def zeroConfig_def)
  with v show ?thesis by blast
qed

theorem anchor_with_paths_rejects_all_witness:
  "\<exists>pem ev e. VerifyPeerCertificateAndEvidence demoPki noFiles demoNow pem (Some demoConfig) = Inr (Some ev) \<and>
     VerifyPeerCertificateAndEvidence demoPki noFiles demoNow pem
       (Some (demoConfig\<lparr>cf_HRKCertPath := stringBytes ''hrk.cert'', cf_HSKCekCertPath := stringBytes ''hsk_cek.cert''\<rparr>)) = Inl e"
proof -
  obtain pem ev where v: "VerifyPeerCertificateAndEvidence demoPki noFiles demoNow pem (Some demoConfig) = Inr (Some ev)"
    using demo_peer by blast
  have "\<exists>e. VerifyPeerCertificateAndEvidence demoPki noFiles demoNow pem
       (Some (demoConfig\<lparr>cf_HRKCertPath := stringBytes ''hrk.cert'', cf_HSKCekCertPath := stringBytes ''hsk_cek.cert''\<rparr>)) = Inl e"
    using demo_anchor by (intro anchor_with_paths_rejects_all) (simp_all add: demoConfig_def zeroConfig_def stringBytes_def)
  with v show ?thesis by blast
qed

end
