(* ===== verification/Handshake.thy ===== *)
theory Handshake
  imports Handshake_Codec Attestation
begin

text \<open>
  The two roles of the handshake (\<^verbatim>\<open>handshake.go\<close>, \<^verbatim>\<open>ClientHandshakeContext\<close> and \<^verbatim>\<open>ServerHandshakeContext\<close>). A role
  runs on a state of connection and configuration, whose certificate cache it may fill. Each role
  is composed of the numbered phases of the source. What a run draws from outside (randomness, clock, file
  system) is a record.
\<close>

section \<open>State and environment\<close>

record HandshakeResult =
  hr_InCipher :: RecordCipher
  hr_OutCipher :: RecordCipher
  hr_PeerCertPEM :: bytes
  hr_PeerEvidence :: "CSVEvidenceExtension option"
  hr_PeerCertificate :: "gcert option"

definition ErrMutualAttestationRequired :: goerr where
  "ErrMutualAttestationRequired = ErrNew ''teetls: mutual attestation required''"
definition ErrMutualAttestationNotConfirmed :: goerr where
  "ErrMutualAttestationNotConfirmed = ErrNew ''teetls: mutual attestation not confirmed by server''"

text \<open>
  The draws of one handshake: bytes for the ephemeral key, \<^verbatim>\<open>rand.Reader\<close> for the hello, bytes for the
  transcript signature, those of a certificate generation, the clock of the certificate cache, the times of the
  deadline and of the peer verification, and the file system.
\<close>

record hsEnv =
  hx_key :: bytes
  hx_rand :: randReader
  hx_sign :: bytes
  hx_entropy :: certEntropy
  hx_clk :: "nat \<Rightarrow> gotime"
  hx_now :: gotime
  hx_verifyNow :: gotime
  hx_fs :: filesystem

text \<open>The configuration is a pointer: a nil one stands for an empty configuration that is dropped afterwards.\<close>

record hsState =
  hs_net :: net
  hs_cfg :: "Config option"

type_synonym 'a hsIO = "(hsState, 'a) io"

definition cfgOf :: "hsState \<Rightarrow> Config" where
  "cfgOf s = (case hs_cfg s of None \<Rightarrow> zeroConfig | Some c \<Rightarrow> c)"

definition onNet :: "(net, 'a) io \<Rightarrow> 'a hsIO" where
  "onNet act s = (case act (hs_net s) of (r, n) \<Rightarrow> (r, s\<lparr>hs_net := n\<rparr>))"

definition onCfg :: "(Config, 'a) io \<Rightarrow> 'a hsIO" where
  "onCfg act s = (case act (cfgOf s) of (r, c) \<Rightarrow> (r, s\<lparr>hs_cfg := map_option (\<lambda>_. c) (hs_cfg s)\<rparr>))"

section \<open>Shared steps\<close>

definition prepareCertificate :: "gmsm \<Rightarrow> hsEnv \<Rightarrow> gocontext \<Rightarrow> (bytes \<times> sm2priv) hsIO" where
  "prepareCertificate g env ctx =
     bindIO (wrapIO ''get or generate certificate''
       (onCfg (GetOrGenerateCertificateContext g (hx_entropy env) (hx_clk env) (Some ctx)))) (\<lambda>(certPEM, keyPEM).
     bindIO (wrapIO ''read private key'' (liftRes (gx509_ReadPrivateKeyFromPem g keyPEM))) (\<lambda>priv.
       ret (certPEM, priv)))"

text \<open>An ephemeral key with its encoding, and the random bytes of a hello.\<close>

definition ephemeralKey :: "gmsm \<Rightarrow> hsEnv \<Rightarrow> string \<Rightarrow> (sm2priv \<times> bytes) hsIO" where
  "ephemeralKey g env label =
     bindIO (wrapIO label (liftRes (sm2_GenerateKey g (hx_key env)))) (\<lambda>priv.
       case encodePublicKeySM2 (sk_pub priv) of
         None \<Rightarrow> fail (Panic ''slice bounds out of range'')
       | Some pubBytes \<Rightarrow> ret (priv, pubBytes))"

definition helloRandom :: "hsEnv \<Rightarrow> string \<Rightarrow> bytes hsIO" where
  "helloRandom env label =
     bindIO (wrapIO label (liftRes (hx_rand env RandomBytesLen))) (\<lambda>r.
       ret (copy_at (replicate RandomBytesLen 0) 0 r))"

text \<open>Both directions of the encrypted handshake, the shared secret and the transcript.\<close>

record hsSession =
  se_secret :: bytes
  se_keys :: HandshakeTrafficKeys
  se_reader :: encryptedHandshakeReader
  se_writer :: RecordCipher
  se_ts :: handshakeTranscript

definition sessionKeys ::
    "gmsm \<Rightarrow> sm2pub \<Rightarrow> sm2priv \<Rightarrow> bytes \<Rightarrow> bytes \<Rightarrow> (bytes \<times> HandshakeTrafficKeys \<times> RecordCipher \<times> RecordCipher) result" where
  "sessionKeys g peerPub priv clientRandom serverRandom =
     bindRes (wrapRes ''teetls: compute shared secret'' (computeECDHESharedSecret g peerPub priv)) (\<lambda>sharedSecret.
     bindRes (wrapRes ''teetls: derive handshake traffic keys''
       (deriveHandshakeTrafficKeys g sharedSecret clientRandom serverRandom)) (\<lambda>keys.
     bindRes (wrapRes ''teetls: server handshake record cipher''
       (NewRecordCipher g (hk_ServerWriteKey keys) (hk_ServerWriteIV keys))) (\<lambda>serverCipher.
     bindRes (wrapRes ''teetls: client handshake record cipher''
       (NewRecordCipher g (hk_ClientWriteKey keys) (hk_ClientWriteIV keys))) (\<lambda>clientCipher.
       Inr (sharedSecret, keys, serverCipher, clientCipher)))))"

text \<open>\<^verbatim>\<open>hsReader.ReadMsg\<close> and the check of the message type, with the labels of the caller.\<close>

definition expectMsg :: "byte \<Rightarrow> string \<Rightarrow> string \<Rightarrow> hsSession \<Rightarrow> (bytes \<times> hsSession) hsIO" where
  "expectMsg msgType label typeErr se =
     bindIO (wrapIO label (onNet (ReadMsg (se_reader se)))) (\<lambda>(t, body, hr).
       if t \<noteq> msgType then fail (ErrNew typeErr) else ret (body, se\<lparr>se_reader := hr\<rparr>))"

definition record_ts :: "byte \<Rightarrow> bytes \<Rightarrow> hsSession \<Rightarrow> hsSession" where
  "record_ts msgType body se = se\<lparr>se_ts := transcriptWrite (se_ts se) msgType body\<rparr>"

text \<open>Send an encrypted message and add it to the transcript.\<close>

definition sendMsg :: "byte \<Rightarrow> string \<Rightarrow> bytes \<Rightarrow> hsSession \<Rightarrow> hsSession hsIO" where
  "sendMsg msgType label body se =
     bindIO (wrapIO label (onNet (writeEncryptedHandshakeMsg (se_writer se) msgType body))) (\<lambda>rc.
       ret (record_ts msgType body (se\<lparr>se_writer := rc\<rparr>)))"

text \<open>
  Read the peer's Certificate and CertificateVerify: verify the certificate and its evidence, then the
  signature over the transcript up to and including the certificate.
\<close>

record peerLabels =
  pl_readCert :: string
  pl_typeCert :: string
  pl_verify :: string
  pl_parse :: string
  pl_key :: string
  pl_readVerify :: string
  pl_typeVerify :: string
  pl_sig :: string

definition readPeerCertificate ::
    "gmsm \<Rightarrow> hsEnv \<Rightarrow> Config \<Rightarrow> peerLabels \<Rightarrow> hsSession \<Rightarrow>
       (bytes \<times> CSVEvidenceExtension option \<times> gcert \<times> hsSession) hsIO" where
  "readPeerCertificate g env cfg pl se0 =
     bindIO (expectMsg HandshakeTypeCertificate (pl_readCert pl) (pl_typeCert pl) se0) (\<lambda>(certPEM, se1).
     let se2 = record_ts HandshakeTypeCertificate certPEM se1
     in bindIO (wrapIO (pl_verify pl)
          (liftRes (VerifyPeerCertificateAndEvidence g (hx_fs env) (hx_verifyNow env) certPEM (Some cfg)))) (\<lambda>evidence.
        bindIO (wrapIO (pl_parse pl) (liftRes (gx509_ReadCertificateFromPem g certPEM))) (\<lambda>gCert.
        bindIO (wrapIO (pl_key pl) (liftRes (extractSM2PublicKey (gc_PublicKey gCert)))) (\<lambda>pub.
        let transcriptForVerify = transcriptBytes (se_ts se2)
        in bindIO (expectMsg HandshakeTypeCertificateVerify (pl_readVerify pl) (pl_typeVerify pl) se2) (\<lambda>(sigBody, se3).
             if \<not> sm2_Verify g pub transcriptForVerify sigBody then fail (ErrNew (pl_sig pl))
             else ret (certPEM, evidence, gCert, record_ts HandshakeTypeCertificateVerify sigBody se3))))))"

text \<open>Send the own Certificate and CertificateVerify.\<close>

definition sendCertificate ::
    "gmsm \<Rightarrow> hsEnv \<Rightarrow> string \<Rightarrow> string \<Rightarrow> string \<Rightarrow> bytes \<Rightarrow> sm2priv \<Rightarrow> hsSession \<Rightarrow> hsSession hsIO" where
  "sendCertificate g env sendCert signErr sendVerify certPEM priv se0 =
     bindIO (sendMsg HandshakeTypeCertificate sendCert certPEM se0) (\<lambda>se1.
     bindIO (wrapIO signErr (liftRes (sm2_Sign g priv (transcriptBytes (se_ts se1)) (hx_sign env)))) (\<lambda>sig.
       sendMsg HandshakeTypeCertificateVerify sendVerify sig se1))"

text \<open>Read the peer's Finished: the tag over the transcript before it, and nothing buffered after it.\<close>

definition readFinished :: "gmsm \<Rightarrow> bytes \<Rightarrow> string \<Rightarrow> string \<Rightarrow> string \<Rightarrow> hsSession \<Rightarrow> hsSession hsIO" where
  "readFinished g finishedKey label macErr trailErr se0 =
     (let expectedTag = computeHMACSM3 g finishedKey (transcriptBytes (se_ts se0))
      in bindIO (expectMsg HandshakeTypeFinished label ''teetls: expected Finished (20)'' se0) (\<lambda>(finishedBody, se1).
           if finishedBody \<noteq> expectedTag then fail (ErrNew macErr)
           else let se2 = record_ts HandshakeTypeFinished finishedBody se1
                in if HasRemaining (se_reader se2) then fail (ErrNew trailErr) else ret se2))"

definition sendFinished :: "gmsm \<Rightarrow> bytes \<Rightarrow> string \<Rightarrow> hsSession \<Rightarrow> hsSession hsIO" where
  "sendFinished g finishedKey label se =
     sendMsg HandshakeTypeFinished label (computeHMACSM3 g finishedKey (transcriptBytes (se_ts se))) se"

text \<open>
  The ciphers for application data, bound to the hash of the whole transcript. The two roles create them in
  opposite order.
\<close>

definition applicationKeys :: "gmsm \<Rightarrow> hsSession \<Rightarrow> ApplicationTrafficKeys result" where
  "applicationKeys g se =
     wrapRes ''teetls: derive application traffic keys''
       (deriveApplicationTrafficKeys g (se_secret se) (transcriptHash g (se_ts se)))"

definition appServerCipher :: "gmsm \<Rightarrow> ApplicationTrafficKeys \<Rightarrow> RecordCipher result" where
  "appServerCipher g keys = wrapRes ''teetls: create server application cipher''
     (NewRecordCipher g (ak_ServerWriteKey keys) (ak_ServerWriteIV keys))"

definition appClientCipher :: "gmsm \<Rightarrow> ApplicationTrafficKeys \<Rightarrow> RecordCipher result" where
  "appClientCipher g keys = wrapRes ''teetls: create client application cipher''
     (NewRecordCipher g (ak_ClientWriteKey keys) (ak_ClientWriteIV keys))"

section \<open>The client\<close>

definition clientHelloBody :: "Config \<Rightarrow> bytes \<Rightarrow> bytes \<Rightarrow> bytes" where
  "clientHelloBody cfg clientRandom clientPubBytes =
     (let body0 = replicate (RandomBytesLen + SM2UncompressedPubKeyLen + 1) 0;
          body1 = copy_at body0 0 (take RandomBytesLen clientRandom);
          body2 = copy_at body1 RandomBytesLen (take SM2UncompressedPubKeyLen clientPubBytes)
      in body2[RandomBytesLen + SM2UncompressedPubKeyLen := (if cf_VerifyMutualAttestation cfg then 1 else 0)])"

text \<open>Step 1: ephemeral key, random bytes and the ClientHello.\<close>

definition clientSendHello :: "gmsm \<Rightarrow> hsEnv \<Rightarrow> Config \<Rightarrow> (sm2priv \<times> bytes \<times> handshakeTranscript) hsIO" where
  "clientSendHello g env cfg =
     bindIO (ephemeralKey g env ''teetls: generate client ephemeral key'') (\<lambda>(priv, pubBytes).
     bindIO (helloRandom env ''teetls: generate client random'') (\<lambda>clientRandom.
     let body = clientHelloBody cfg clientRandom pubBytes
     in bindIO (wrapIO ''teetls: send ClientHello'' (onNet (writePlaintextHandshakeMsg HandshakeTypeClientHello body))) (\<lambda>_.
          ret (priv, clientRandom, transcriptWrite emptyTranscript HandshakeTypeClientHello body))))"

text \<open>Steps 2 and 3: the ServerHello and the handshake keys. The client reads with the server's cipher.\<close>

definition clientReadHello :: "gmsm \<Rightarrow> sm2priv \<Rightarrow> bytes \<Rightarrow> handshakeTranscript \<Rightarrow> hsSession hsIO" where
  "clientReadHello g priv clientRandom ts =
     bindIO (wrapIO ''teetls: read ServerHello'' (onNet readPlaintextHandshakeMsg)) (\<lambda>(msgType, body, _).
       if msgType \<noteq> HandshakeTypeServerHello then fail (ErrNew ''teetls: expected ServerHello (2)'')
       else if length body < RandomBytesLen + SM2UncompressedPubKeyLen
       then fail (ErrNew ''teetls: ServerHello message too short'')
       else
         let serverRandom = take RandomBytesLen body;
             serverPubBytes = slice body RandomBytesLen (RandomBytesLen + SM2UncompressedPubKeyLen)
         in bindIO (wrapIO ''teetls: decode server ephemeral public key''
              (liftRes (decodePublicKeySM2 g serverPubBytes))) (\<lambda>serverPub.
            bindIO (liftRes (sessionKeys g serverPub priv clientRandom serverRandom))
              (\<lambda>(secret, keys, serverCipher, clientCipher).
              ret \<lparr>se_secret = secret, se_keys = keys, se_reader = newEncryptedHandshakeReader serverCipher,
                   se_writer = clientCipher, se_ts = transcriptWrite ts HandshakeTypeServerHello body\<rparr>)))"

text \<open>Step 4: EncryptedExtensions and the negotiation of mutual attestation.\<close>

definition clientReadExtensions :: "Config \<Rightarrow> hsSession \<Rightarrow> (bool \<times> hsSession) hsIO" where
  "clientReadExtensions cfg se0 =
     bindIO (expectMsg HandshakeTypeEncryptedExtensions ''teetls: read EncryptedExtensions''
       ''teetls: expected EncryptedExtensions (8)'' se0) (\<lambda>(body, se1).
     let se2 = record_ts HandshakeTypeEncryptedExtensions body se1;
         mutualRequired = (length body > 0 \<and> body ! 0 = 1)
     in if cf_VerifyMutualAttestation cfg \<and> \<not> mutualRequired then fail ErrMutualAttestationNotConfirmed
        else if mutualRequired \<and> \<not> cf_VerifyMutualAttestation cfg \<and> cf_EvidenceProvider cfg = None
                \<and> (length (cf_CertPEM cfg) = 0 \<or> length (cf_KeyPEM cfg) = 0)
        then fail ErrMutualAttestationRequired
        else ret (mutualRequired, se2))"

definition clientPeerLabels :: peerLabels where
  "clientPeerLabels =
     \<lparr>pl_readCert = ''teetls: read server Certificate'', pl_typeCert = ''teetls: expected Certificate (11)'',
      pl_verify = ''teetls: verify server attestation'', pl_parse = ''teetls: parse server certificate'',
      pl_key = ''teetls: server certificate public key error'', pl_readVerify = ''teetls: read CertificateVerify'',
      pl_typeVerify = ''teetls: expected CertificateVerify (15)'',
      pl_sig = ''teetls: server CertificateVerify signature verification failed''\<rparr>"

text \<open>Step 8: the client's own certificate, when mutual attestation is negotiated.\<close>

definition clientSendCertificate :: "gmsm \<Rightarrow> hsEnv \<Rightarrow> gocontext \<Rightarrow> bool \<Rightarrow> hsSession \<Rightarrow> hsSession hsIO" where
  "clientSendCertificate g env ctx mutualRequired se =
     (if mutualRequired then
        bindIO (wrapIO ''teetls: prepare client certificate'' (prepareCertificate g env ctx)) (\<lambda>(certPEM, priv).
          sendCertificate g env ''teetls: send client Certificate'' ''teetls: sign client transcript''
            ''teetls: send client CertificateVerify'' certPEM priv se)
      else ret se)"

text \<open>Step 10.\<close>

definition clientResult ::
    "gmsm \<Rightarrow> bytes \<Rightarrow> CSVEvidenceExtension option \<Rightarrow> gcert \<Rightarrow> hsSession \<Rightarrow> HandshakeResult hsIO" where
  "clientResult g certPEM evidence gCert se =
     bindIO (liftRes (applicationKeys g se)) (\<lambda>keys.
     bindIO (liftRes (appServerCipher g keys)) (\<lambda>serverCipher.
     bindIO (liftRes (appClientCipher g keys)) (\<lambda>clientCipher.
       ret \<lparr>hr_InCipher = serverCipher, hr_OutCipher = clientCipher, hr_PeerCertPEM = certPEM,
            hr_PeerEvidence = evidence, hr_PeerCertificate = Some gCert\<rparr>)))"

definition ClientHandshakeContext :: "gmsm \<Rightarrow> hsEnv \<Rightarrow> gocontext option \<Rightarrow> HandshakeResult hsIO" where
  "ClientHandshakeContext g env ctxp s =
     (let ctx = (case ctxp of None \<Rightarrow> contextBackground | Some c \<Rightarrow> c);
          cfg = cfgOf s
      in bindIO (wrapIO ''teetls: invalid client config'' (liftRes (Validate cfg))) (\<lambda>_.
         bindIO (clientSendHello g env cfg) (\<lambda>(priv, clientRandom, ts).
         bindIO (clientReadHello g priv clientRandom ts) (\<lambda>se0.
         bindIO (clientReadExtensions cfg se0) (\<lambda>(mutualRequired, se1).
         bindIO (readPeerCertificate g env cfg clientPeerLabels se1) (\<lambda>(certPEM, evidence, gCert, se2).
         bindIO (readFinished g (hk_ServerFinishedKey (se_keys se2)) ''teetls: read Server Finished''
           ''teetls: server finished HMAC verification failed''
           ''teetls: unexpected trailing handshake data after server Finished'' se2) (\<lambda>se3.
         bindIO (clientSendCertificate g env ctx mutualRequired se3) (\<lambda>se4.
         bindIO (sendFinished g (hk_ClientFinishedKey (se_keys se4)) ''teetls: send Client Finished'' se4) (\<lambda>se5.
           clientResult g certPEM evidence gCert se5)))))))) s)"

definition ClientHandshake :: "gmsm \<Rightarrow> hsEnv \<Rightarrow> HandshakeResult hsIO" where
  "ClientHandshake g env = ClientHandshakeContext g env (Some contextBackground)"

section \<open>The server\<close>

text \<open>Step 1: the ClientHello, with the client's key and its request for mutual attestation.\<close>

definition serverReadHello :: "gmsm \<Rightarrow> (bytes \<times> sm2pub \<times> bool \<times> handshakeTranscript) hsIO" where
  "serverReadHello g =
     bindIO (wrapIO ''teetls: read ClientHello'' (onNet readPlaintextHandshakeMsg)) (\<lambda>(msgType, body, _).
       if msgType \<noteq> HandshakeTypeClientHello then fail (ErrNew ''teetls: expected ClientHello (1)'')
       else if length body < RandomBytesLen + SM2UncompressedPubKeyLen
       then fail (ErrNew ''teetls: ClientHello message too short'')
       else
         let clientRandom = take RandomBytesLen body;
             clientPubBytes = slice body RandomBytesLen (RandomBytesLen + SM2UncompressedPubKeyLen)
         in bindIO (wrapIO ''teetls: decode client ephemeral public key''
              (liftRes (decodePublicKeySM2 g clientPubBytes))) (\<lambda>clientPub.
            let clientRequestedMutual = (length body > RandomBytesLen + SM2UncompressedPubKeyLen
                  \<and> body ! (RandomBytesLen + SM2UncompressedPubKeyLen) = 1)
            in ret (clientRandom, clientPub, clientRequestedMutual,
                    transcriptWrite emptyTranscript HandshakeTypeClientHello body)))"

definition serverHelloBody :: "bytes \<Rightarrow> bytes \<Rightarrow> bytes" where
  "serverHelloBody serverRandom serverPubBytes =
     (let body0 = replicate (RandomBytesLen + SM2UncompressedPubKeyLen) 0;
          body1 = copy_at body0 0 (take RandomBytesLen serverRandom)
      in copy_at body1 RandomBytesLen serverPubBytes)"

text \<open>Steps 2 and 3: the ServerHello and the handshake keys. The server reads with the client's cipher.\<close>

definition serverSendHello ::
    "gmsm \<Rightarrow> hsEnv \<Rightarrow> bytes \<Rightarrow> sm2pub \<Rightarrow> handshakeTranscript \<Rightarrow> hsSession hsIO" where
  "serverSendHello g env clientRandom clientPub ts =
     bindIO (ephemeralKey g env ''teetls: generate server ephemeral key'') (\<lambda>(priv, pubBytes).
     bindIO (helloRandom env ''teetls: generate server random'') (\<lambda>serverRandom.
     let body = serverHelloBody serverRandom pubBytes
     in bindIO (wrapIO ''teetls: send ServerHello'' (onNet (writePlaintextHandshakeMsg HandshakeTypeServerHello body))) (\<lambda>_.
        bindIO (liftRes (sessionKeys g clientPub priv clientRandom serverRandom))
          (\<lambda>(secret, keys, serverCipher, clientCipher).
          ret \<lparr>se_secret = secret, se_keys = keys, se_reader = newEncryptedHandshakeReader clientCipher,
               se_writer = serverCipher, se_ts = transcriptWrite ts HandshakeTypeServerHello body\<rparr>))))"

text \<open>Steps 4 to 7: the server's encrypted flight.\<close>

definition serverSendFlight ::
    "gmsm \<Rightarrow> hsEnv \<Rightarrow> bool \<Rightarrow> bytes \<Rightarrow> sm2priv \<Rightarrow> hsSession \<Rightarrow> hsSession hsIO" where
  "serverSendFlight g env mutual certPEM priv se0 =
     bindIO (sendMsg HandshakeTypeEncryptedExtensions ''teetls: send EncryptedExtensions''
       (if mutual then [1] else [0]) se0) (\<lambda>se1.
     bindIO (sendCertificate g env ''teetls: send server Certificate'' ''teetls: sign server transcript''
       ''teetls: send server CertificateVerify'' certPEM priv se1) (\<lambda>se2.
       sendFinished g (hk_ServerFinishedKey (se_keys se2)) ''teetls: send Server Finished'' se2))"

definition serverPeerLabels :: peerLabels where
  "serverPeerLabels =
     \<lparr>pl_readCert = ''teetls: read client Certificate'', pl_typeCert = ''teetls: expected client Certificate (11)'',
      pl_verify = ''teetls: verify client attestation'', pl_parse = ''teetls: parse client certificate'',
      pl_key = ''teetls: client certificate public key error'', pl_readVerify = ''teetls: read client CertificateVerify'',
      pl_typeVerify = ''teetls: expected client CertificateVerify (15)'',
      pl_sig = ''teetls: client CertificateVerify signature verification failed''\<rparr>"

text \<open>Step 8: the client's certificate, when mutual attestation is negotiated.\<close>

definition serverReadCertificate ::
    "gmsm \<Rightarrow> hsEnv \<Rightarrow> Config \<Rightarrow> bool \<Rightarrow> hsSession \<Rightarrow>
       (bytes \<times> CSVEvidenceExtension option \<times> gcert option \<times> hsSession) hsIO" where
  "serverReadCertificate g env cfg mutual se =
     (if mutual then
        bindIO (readPeerCertificate g env cfg serverPeerLabels se) (\<lambda>(certPEM, evidence, gCert, se1).
          ret (certPEM, evidence, Some gCert, se1))
      else ret ([], None, None, se))"

definition serverResult ::
    "gmsm \<Rightarrow> bytes \<Rightarrow> CSVEvidenceExtension option \<Rightarrow> gcert option \<Rightarrow> hsSession \<Rightarrow> HandshakeResult hsIO" where
  "serverResult g certPEM evidence gCert se =
     bindIO (liftRes (applicationKeys g se)) (\<lambda>keys.
     bindIO (liftRes (appClientCipher g keys)) (\<lambda>clientCipher.
     bindIO (liftRes (appServerCipher g keys)) (\<lambda>serverCipher.
       ret \<lparr>hr_InCipher = clientCipher, hr_OutCipher = serverCipher, hr_PeerCertPEM = certPEM,
            hr_PeerEvidence = evidence, hr_PeerCertificate = gCert\<rparr>)))"

text \<open>The body of the server between setting the deadline and the deferred call that clears it.\<close>

definition serverExchange :: "gmsm \<Rightarrow> hsEnv \<Rightarrow> gocontext \<Rightarrow> Config \<Rightarrow> HandshakeResult hsIO" where
  "serverExchange g env ctx cfg =
     bindIO (wrapIO ''teetls: prepare server certificate'' (prepareCertificate g env ctx)) (\<lambda>(serverCertPEM, serverPriv).
     bindIO (serverReadHello g) (\<lambda>(clientRandom, clientPub, clientRequestedMutual, ts).
     bindIO (serverSendHello g env clientRandom clientPub ts) (\<lambda>se0.
     let mutual = (cf_VerifyMutualAttestation cfg \<or> clientRequestedMutual)
     in bindIO (serverSendFlight g env mutual serverCertPEM serverPriv se0) (\<lambda>se1.
        bindIO (serverReadCertificate g env cfg mutual se1) (\<lambda>(peerCertPEM, peerEvidence, peerGCert, se2).
        bindIO (readFinished g (hk_ClientFinishedKey (se_keys se2)) ''teetls: read Client Finished''
          ''teetls: client finished HMAC verification failed''
          ''teetls: unexpected trailing handshake data after client Finished'' se2) (\<lambda>se3.
          serverResult g peerCertPEM peerEvidence peerGCert se3))))))"

definition ServerHandshakeContext :: "gmsm \<Rightarrow> hsEnv \<Rightarrow> gocontext option \<Rightarrow> HandshakeResult hsIO" where
  "ServerHandshakeContext g env ctxp s =
     (let ctx = (case ctxp of None \<Rightarrow> contextBackground | Some c \<Rightarrow> c);
          cfg = cfgOf s
      in bindIO (wrapIO ''teetls: invalid server config'' (liftRes (Validate cfg))) (\<lambda>_.
         bindIO (wrapIO ''teetls: set handshake deadline'' (onNet (setDeadline (hx_now env + timeout cfg)))) (\<lambda>_ s1.
           case serverExchange g env ctx cfg s1 of
             (r, s2) \<Rightarrow> (r, snd (onNet (setDeadline 0) s2)))) s)"

definition ServerHandshake :: "gmsm \<Rightarrow> hsEnv \<Rightarrow> HandshakeResult hsIO" where
  "ServerHandshake g env = ServerHandshakeContext g env (Some contextBackground)"

section \<open>The bytes under the server's signature\<close>

text \<open>
  What the two roles hash and hand to SM2 for the server's CertificateVerify, as the phases of the code compute it:
  \<^verbatim>\<open>transcriptForVerify\<close> of the client after it has read the server's Certificate, and \<^verbatim>\<open>transcript.Bytes()\<close> of the server
  after it has sent it. Both are the first steps of the handshake, run in the same state.
\<close>

definition clientToVerify :: "gmsm \<Rightarrow> hsEnv \<Rightarrow> bytes hsIO" where
  "clientToVerify g env s =
     (let cfg = cfgOf s
      in bindIO (clientSendHello g env cfg) (\<lambda>(priv, clientRandom, ts).
         bindIO (clientReadHello g priv clientRandom ts) (\<lambda>se0.
         bindIO (clientReadExtensions cfg se0) (\<lambda>(mutualRequired, se1).
         bindIO (expectMsg HandshakeTypeCertificate (pl_readCert clientPeerLabels) (pl_typeCert clientPeerLabels) se1) (\<lambda>(certPEM, se2).
           ret (transcriptBytes (se_ts (record_ts HandshakeTypeCertificate certPEM se2))))))) s)"

definition exchangeToSign :: "gmsm \<Rightarrow> hsEnv \<Rightarrow> gocontext \<Rightarrow> Config \<Rightarrow> bytes hsIO" where
  "exchangeToSign g env ctx cfg =
     bindIO (wrapIO ''teetls: prepare server certificate'' (prepareCertificate g env ctx)) (\<lambda>(serverCertPEM, serverPriv).
     bindIO (serverReadHello g) (\<lambda>(clientRandom, clientPub, clientRequestedMutual, ts).
     bindIO (serverSendHello g env clientRandom clientPub ts) (\<lambda>se0.
     bindIO (sendMsg HandshakeTypeEncryptedExtensions ''teetls: send EncryptedExtensions''
       (if cf_VerifyMutualAttestation cfg \<or> clientRequestedMutual then [1] else [0]) se0) (\<lambda>se1.
     bindIO (sendMsg HandshakeTypeCertificate ''teetls: send server Certificate'' serverCertPEM se1) (\<lambda>se2.
       ret (transcriptBytes (se_ts se2)))))))"

definition serverToSign :: "gmsm \<Rightarrow> hsEnv \<Rightarrow> gocontext option \<Rightarrow> bytes hsIO" where
  "serverToSign g env ctxp s =
     (let ctx = (case ctxp of None \<Rightarrow> contextBackground | Some c \<Rightarrow> c);
          cfg = cfgOf s
      in bindIO (wrapIO ''teetls: set handshake deadline'' (onNet (setDeadline (hx_now env + timeout cfg)))) (\<lambda>_.
           exchangeToSign g env ctx cfg) s)"

section \<open>Successful phases\<close>

text \<open>The bytes of a transcript, as the messages it holds.\<close>

definition tsOf :: "(byte \<times> bytes) list \<Rightarrow> bytes" where
  "tsOf ms = concat (map (\<lambda>(t, body). encodeHandshakeMsg t body) ms)"

lemma tsOf_simps [simp]: "tsOf [] = []" "tsOf (m # ms) = encodeHandshakeMsg (fst m) (snd m) @ tsOf ms"
  "tsOf (ms @ ms') = tsOf ms @ tsOf ms'"
  by (simp_all add: tsOf_def split_beta)

lemma transcript_simps [simp]:
  "ts_buf (transcriptWrite t ty body) = ts_buf t @ encodeHandshakeMsg ty body" "ts_buf emptyTranscript = []"
  "transcriptBytes t = ts_buf t" "transcriptHash g t = sm3_Sum g (ts_buf t)"
  by (simp_all add: transcriptWrite_def emptyTranscript_def transcriptBytes_def transcriptHash_def)

lemma record_ts_simps [simp]:
  "se_secret (record_ts t b se) = se_secret se" "se_keys (record_ts t b se) = se_keys se"
  "se_reader (record_ts t b se) = se_reader se" "se_writer (record_ts t b se) = se_writer se"
  "ts_buf (se_ts (record_ts t b se)) = ts_buf (se_ts se) @ encodeHandshakeMsg t b"
  by (simp_all add: record_ts_def)

lemma onNet_Inr [io_success]:
  "onNet act s = (Inr x, s') \<longleftrightarrow> (\<exists>n. act (hs_net s) = (Inr x, n) \<and> s' = s\<lparr>hs_net := n\<rparr>)"
  by (auto simp: onNet_def split: prod.splits)

lemma onNet_step: "act (hs_net s) = (r, n) \<Longrightarrow> onNet act s = (r, s\<lparr>hs_net := n\<rparr>)"
  by (simp add: onNet_def)

lemma expectMsg_Inr [io_success]:
  "expectMsg t l e se s = (Inr (body, se'), s') \<longleftrightarrow>
     (\<exists>hr n. ReadMsg (se_reader se) (hs_net s) = (Inr (t, body, hr), n) \<and> se' = se\<lparr>se_reader := hr\<rparr> \<and> s' = s\<lparr>hs_net := n\<rparr>)"
  by (auto simp: expectMsg_def io_success fail_def split: if_splits)

lemma sendMsg_Inr [io_success]:
  "sendMsg t l body se s = (Inr se', s') \<longleftrightarrow>
     (\<exists>rc n. writeEncryptedHandshakeMsg (se_writer se) t body (hs_net s) = (Inr rc, n) \<and>
        se' = record_ts t body (se\<lparr>se_writer := rc\<rparr>) \<and> s' = s\<lparr>hs_net := n\<rparr>)"
  by (auto simp: sendMsg_def io_success)

text \<open>
  A message that was read fits the 24-bit length field, as both readers bound what they assemble. A message that is written
  carries no such bound: its length is cut to 24 bits.
\<close>

lemma readPlaintextLoop_small:
  "readPlaintextLoop a mt ex s = (Inr (t, body, raw), s') \<Longrightarrow> length body < 2 ^ 24"
proof (induction a mt ex s rule: readPlaintextLoop.induct)
  case (1 a mt ex s)
  from "1.prems" show ?case
    by (subst (asm) readPlaintextLoop.simps)
      (auto simp: Let_def slice_def split: prod.splits sum.splits if_splits dest: "1.IH"[OF sym])
qed

lemma readPlaintext_small: "readPlaintextHandshakeMsg s = (Inr (t, body, raw), s') \<Longrightarrow> length body < 2 ^ 24"
  unfolding readPlaintextHandshakeMsg_def by (rule readPlaintextLoop_small)

lemma parseBuffered_small: "parseBuffered buf = Inr (Some (t, body, rest)) \<Longrightarrow> length body < 2 ^ 24"
  by (auto simp: parseBuffered_def Let_def slice_def split: if_splits)

lemma ReadMsg_small: "ReadMsg hr s = (Inr (t, body, hr'), s') \<Longrightarrow> length body < 2 ^ 24"
proof (induction hr s rule: ReadMsg.induct)
  case (1 hr s)
  obtain r s1 where rd: "readHandshakeRecord hr s = (r, s1)" by fastforce
  from "1.prems" "1.IH"[OF _ _ rd[symmetric]] show ?case
    by (subst (asm) ReadMsg.simps) (auto simp: rd dest: parseBuffered_small split: sum.splits option.splits)
qed

lemmas received_small = ReadMsg_small[simplified] readPlaintext_small[simplified]

text \<open>What one session state has gained over another: messages in the transcript, with the secrets unchanged.\<close>

definition extends :: "hsSession \<Rightarrow> (byte \<times> bytes) list \<Rightarrow> hsSession \<Rightarrow> bool" where
  "extends se ms se' \<longleftrightarrow> se_secret se' = se_secret se \<and> se_keys se' = se_keys se \<and>
     ts_buf (se_ts se') = ts_buf (se_ts se) @ tsOf ms"

lemma extends_refl [simp]: "extends se [] se"
  by (simp add: extends_def)

lemma extends_trans: "extends se ms se1 \<Longrightarrow> extends se1 ms' se2 \<Longrightarrow> extends se (ms @ ms') se2"
  by (simp add: extends_def)

lemma sendMsg_extends: "sendMsg t l body se s = (Inr se', s') \<Longrightarrow> extends se [(t, body)] se'"
  by (auto simp: sendMsg_Inr extends_def)

text \<open>The certificate and key that an endpoint's own configuration gives it.\<close>

definition credential :: "gmsm \<Rightarrow> hsEnv \<Rightarrow> gocontext \<Rightarrow> Config \<Rightarrow> bytes \<Rightarrow> sm2priv \<Rightarrow> bool" where
  "credential g env ctx cfg pem priv \<longleftrightarrow>
     (\<exists>key cfg'. GetOrGenerateCertificateContext g (hx_entropy env) (hx_clk env) (Some ctx) cfg = (Inr (pem, key), cfg') \<and>
        gx509_ReadPrivateKeyFromPem g key = Inr priv)"

lemma prepareCertificate_Inr:
  "prepareCertificate g env ctx s = (Inr (pem, priv), s') \<Longrightarrow> credential g env ctx (cfgOf s) pem priv"
  by (auto simp: prepareCertificate_def credential_def onCfg_def io_success split: prod.splits)

lemma readPeerCertificate_Inr:
  assumes "readPeerCertificate g env cfg pl se s = (Inr (pem, ev, c, se'), s')"
  shows "\<exists>pub sig. extends se [(HandshakeTypeCertificate, pem), (HandshakeTypeCertificateVerify, sig)] se' \<and>
    VerifyPeerCertificateAndEvidence g (hx_fs env) (hx_verifyNow env) pem (Some cfg) = Inr ev \<and>
    gx509_ReadCertificateFromPem g pem = Inr c \<and> extractSM2PublicKey (gc_PublicKey c) = Inr pub \<and>
    sm2_Verify g pub (ts_buf (se_ts se) @ encodeHandshakeMsg HandshakeTypeCertificate pem) sig \<and>
    length pem < 2 ^ 24 \<and> length sig < 2 ^ 24 \<and> hs_cfg s' = hs_cfg s"
  using assms
  by (fastforce simp: readPeerCertificate_def io_success Let_def fail_def extends_def split: if_splits dest: received_small)

text \<open>The bytes of the transcript at the point where the peer's signature is due.\<close>

lemma clientToVerify_Inr:
  assumes "clientSendHello g env (cfgOf s) s = (Inr (priv, cr, ts), s1)" "clientReadHello g priv cr ts s1 = (Inr se0, s2)"
    "clientReadExtensions (cfgOf s) se0 s2 = (Inr (mutual, se1), s3)"
    and "readPeerCertificate g env cfg clientPeerLabels se1 s3 = (Inr (pem, ev, c, se2), s4)"
  shows "fst (clientToVerify g env s) = Inr (ts_buf (se_ts se1) @ encodeHandshakeMsg HandshakeTypeCertificate pem)"
proof -
  obtain se s' where "expectMsg HandshakeTypeCertificate (pl_readCert clientPeerLabels) (pl_typeCert clientPeerLabels) se1 s3 =
      (Inr (pem, se), s')" "se_ts se = se_ts se1"
    using assms(4) by (auto simp: readPeerCertificate_def bindIO_Inr wrapIO_Inr liftRes_Inr ret_Inr fail_def Let_def expectMsg_Inr split: if_splits)
  with assms(1-3) show ?thesis by (simp add: clientToVerify_def bindIO_def Let_def)
qed

lemma exchangeToSign_Inr:
  assumes "prepareCertificate g env ctx s = (Inr (pem, priv), s1)" "serverReadHello g s1 = (Inr (cr, cpub, req, ts), s2)"
    "serverSendHello g env cr cpub ts s2 = (Inr se0, s3)"
    and "serverSendFlight g env (cf_VerifyMutualAttestation cfg \<or> req) pem priv se0 s3 = (Inr se1, s4)"
  shows "fst (exchangeToSign g env ctx cfg s) = Inr (ts_buf (se_ts se0) @
    tsOf [(HandshakeTypeEncryptedExtensions, if cf_VerifyMutualAttestation cfg \<or> req then [1] else [0]), (HandshakeTypeCertificate, pem)])"
proof -
  let ?ee = "if cf_VerifyMutualAttestation cfg \<or> req then [1] else [0 :: byte]"
  obtain se s' se' s'' where e: "sendMsg HandshakeTypeEncryptedExtensions ''teetls: send EncryptedExtensions'' ?ee se0 s3 = (Inr se, s')"
    "sendMsg HandshakeTypeCertificate ''teetls: send server Certificate'' pem se s' = (Inr se', s'')"
    using assms(4) by (auto simp: serverSendFlight_def sendCertificate_def bindIO_Inr)
  have "ts_buf (se_ts se') = ts_buf (se_ts se0) @ tsOf [(HandshakeTypeEncryptedExtensions, ?ee), (HandshakeTypeCertificate, pem)]"
    using extends_trans[OF sendMsg_extends[OF e(1)] sendMsg_extends[OF e(2)]] by (simp add: extends_def)
  with assms(1-3) e show ?thesis by (simp add: exchangeToSign_def bindIO_def wrapIO_def)
qed

lemma readFinished_Inr:
  assumes "readFinished g key l e1 e2 se s = (Inr se', s')"
  shows "extends se [(HandshakeTypeFinished, computeHMACSM3 g key (ts_buf (se_ts se)))] se' \<and> hs_cfg s' = hs_cfg s"
  using assms by (auto simp: readFinished_def io_success Let_def fail_def extends_def split: if_splits)

lemma sendFinished_Inr:
  "sendFinished g key l se s = (Inr se', s') \<Longrightarrow>
     extends se [(HandshakeTypeFinished, computeHMACSM3 g key (ts_buf (se_ts se)))] se'"
  using sendMsg_extends by (simp add: sendFinished_def)

lemma sendCertificate_Inr:
  assumes "sendCertificate g env l1 l2 l3 pem priv se s = (Inr se', s')"
  shows "\<exists>sig. sm2_Sign g priv (ts_buf (se_ts se) @ encodeHandshakeMsg HandshakeTypeCertificate pem) (hx_sign env) = Inr sig \<and>
    extends se [(HandshakeTypeCertificate, pem), (HandshakeTypeCertificateVerify, sig)] se'"
proof -
  obtain se1 s1 sig where s: "sendMsg HandshakeTypeCertificate l1 pem se s = (Inr se1, s1)"
    "sm2_Sign g priv (ts_buf (se_ts se1)) (hx_sign env) = Inr sig"
    "sendMsg HandshakeTypeCertificateVerify l3 sig se1 s1 = (Inr se', s')"
    using assms by (auto simp: sendCertificate_def bindIO_Inr wrapIO_Inr liftRes_Inr)
  from extends_trans[OF sendMsg_extends[OF s(1)] sendMsg_extends[OF s(3)]] sendMsg_extends[OF s(1)] s(2)
  show ?thesis by (auto simp: extends_def)
qed

lemma sessionKeys_Inr:
  "sessionKeys g pub priv cr sr = Inr (secret, keys, sc, cc) \<longleftrightarrow>
     computeECDHESharedSecret g pub priv = Inr secret \<and> deriveHandshakeTrafficKeys g secret cr sr = Inr keys \<and>
     NewRecordCipher g (hk_ServerWriteKey keys) (hk_ServerWriteIV keys) = Inr sc \<and>
     NewRecordCipher g (hk_ClientWriteKey keys) (hk_ClientWriteIV keys) = Inr cc"
  by (auto simp: sessionKeys_def bindRes_Inr)

text \<open>The ciphers of a finished handshake, as a function of the secret and the transcript.\<close>

definition appCiphers :: "gmsm \<Rightarrow> bytes \<Rightarrow> bytes \<Rightarrow> RecordCipher \<Rightarrow> RecordCipher \<Rightarrow> bool" where
  "appCiphers g secret ts clientCipher serverCipher \<longleftrightarrow>
     (\<exists>ak. deriveApplicationTrafficKeys g secret (sm3_Sum g ts) = Inr ak \<and>
        NewRecordCipher g (ak_ClientWriteKey ak) (ak_ClientWriteIV ak) = Inr clientCipher \<and>
        NewRecordCipher g (ak_ServerWriteKey ak) (ak_ServerWriteIV ak) = Inr serverCipher)"

lemma appCiphers_functional:
  "appCiphers g secret ts c1 s1 \<Longrightarrow> appCiphers g secret ts c2 s2 \<Longrightarrow> c1 = c2 \<and> s1 = s2"
  by (auto simp: appCiphers_def)

lemma clientResult_Inr:
  "clientResult g pem ev c se s = (Inr res, s') \<longleftrightarrow> s' = s \<and>
     (\<exists>cc sc. appCiphers g (se_secret se) (ts_buf (se_ts se)) cc sc \<and>
        res = \<lparr>hr_InCipher = sc, hr_OutCipher = cc, hr_PeerCertPEM = pem, hr_PeerEvidence = ev, hr_PeerCertificate = Some c\<rparr>)"
  by (auto simp: clientResult_def io_success applicationKeys_def appServerCipher_def appClientCipher_def appCiphers_def)

lemma serverResult_Inr:
  "serverResult g pem ev c se s = (Inr res, s') \<longleftrightarrow> s' = s \<and>
     (\<exists>cc sc. appCiphers g (se_secret se) (ts_buf (se_ts se)) cc sc \<and>
        res = \<lparr>hr_InCipher = cc, hr_OutCipher = sc, hr_PeerCertPEM = pem, hr_PeerEvidence = ev, hr_PeerCertificate = c\<rparr>)"
  by (auto simp: serverResult_def io_success applicationKeys_def appServerCipher_def appClientCipher_def appCiphers_def)

lemma clientSendHello_Inr:
  assumes "clientSendHello g env cfg s = (Inr (priv, cr, ts), s')"
  shows "\<exists>pubBytes r. sm2_GenerateKey g (hx_key env) = Inr priv \<and> encodePublicKeySM2 (sk_pub priv) = Some pubBytes \<and>
    hx_rand env 32 = Inr r \<and> cr = copy_at (replicate 32 0) 0 r \<and>
    ts_buf ts = encodeHandshakeMsg HandshakeTypeClientHello (clientHelloBody cfg cr pubBytes) \<and> hs_cfg s' = hs_cfg s"
  using assms
  by (auto simp: clientSendHello_def ephemeralKey_def helloRandom_def io_success Let_def fail_def split: option.splits)

lemma clientReadHello_Inr:
  assumes "clientReadHello g priv cr ts s = (Inr se, s')"
  shows "\<exists>sh pub. ts_buf (se_ts se) = ts_buf ts @ encodeHandshakeMsg HandshakeTypeServerHello sh \<and> 97 \<le> length sh \<and>
    decodePublicKeySM2 g (slice sh 32 97) = Inr pub \<and> computeECDHESharedSecret g pub priv = Inr (se_secret se) \<and>
    deriveHandshakeTrafficKeys g (se_secret se) cr (take 32 sh) = Inr (se_keys se) \<and> length sh < 2 ^ 24 \<and> hs_cfg s' = hs_cfg s"
  using assms
  by (fastforce simp: clientReadHello_def bindIO_Inr wrapIO_Inr liftRes_Inr onNet_Inr ret_Inr Let_def fail_def sessionKeys_Inr
      split: if_splits dest: received_small)

lemma clientReadExtensions_Inr:
  assumes "clientReadExtensions cfg se s = (Inr (mutual, se'), s')"
  shows "\<exists>ee. extends se [(HandshakeTypeEncryptedExtensions, ee)] se' \<and> mutual = (ee \<noteq> [] \<and> ee ! 0 = 1) \<and>
    (cf_VerifyMutualAttestation cfg \<longrightarrow> mutual) \<and> length ee < 2 ^ 24 \<and> hs_cfg s' = hs_cfg s"
  using assms
  by (fastforce simp: clientReadExtensions_def io_success Let_def fail_def extends_def split: if_splits dest: received_small)

text \<open>The client's part of the transcript when mutual attestation is negotiated, and nothing otherwise.\<close>

definition ownPart :: "gmsm \<Rightarrow> hsEnv \<Rightarrow> gocontext \<Rightarrow> Config \<Rightarrow> bool \<Rightarrow> bytes \<Rightarrow> (byte \<times> bytes) list \<Rightarrow> bool" where
  "ownPart g env ctx cfg mutual ts own \<longleftrightarrow>
     (if mutual then \<exists>pem sig priv. own = [(HandshakeTypeCertificate, pem), (HandshakeTypeCertificateVerify, sig)] \<and>
        credential g env ctx cfg pem priv \<and>
        sm2_Sign g priv (ts @ encodeHandshakeMsg HandshakeTypeCertificate pem) (hx_sign env) = Inr sig
      else own = [])"

lemma clientSendCertificate_Inr:
  assumes "clientSendCertificate g env ctx mutual se s = (Inr se', s')"
  shows "\<exists>own. extends se own se' \<and> ownPart g env ctx (cfgOf s) mutual (ts_buf (se_ts se)) own"
proof (cases mutual)
  case True
  then obtain pem priv s1 where p: "prepareCertificate g env ctx s = (Inr (pem, priv), s1)"
    and c: "sendCertificate g env ''teetls: send client Certificate'' ''teetls: sign client transcript''
      ''teetls: send client CertificateVerify'' pem priv se s1 = (Inr se', s')"
    using assms by (auto simp: clientSendCertificate_def bindIO_Inr wrapIO_Inr)
  from sendCertificate_Inr[OF c] prepareCertificate_Inr[OF p] True show ?thesis by (auto simp: ownPart_def)
qed (use assms in \<open>simp add: clientSendCertificate_def ownPart_def\<close>)

section \<open>What a client knows after a handshake\<close>

text \<open>
  The client's view of a finished handshake: the server's messages and the conditions they met.
\<close>

definition clientView ::
    "gmsm \<Rightarrow> hsEnv \<Rightarrow> gocontext \<Rightarrow> Config \<Rightarrow> HandshakeResult \<Rightarrow> bytes \<Rightarrow> bytes \<Rightarrow> bytes \<Rightarrow> bytes \<Rightarrow> (byte \<times> bytes) list \<Rightarrow> bool" where
  "clientView g env ctx cfg res ch sh ee sig own \<longleftrightarrow>
     (\<exists>priv pubBytes r serverPub secret keys c pub.
        sm2_GenerateKey g (hx_key env) = Inr priv \<and> encodePublicKeySM2 (sk_pub priv) = Some pubBytes \<and>
        hx_rand env 32 = Inr r \<and> ch = clientHelloBody cfg (copy_at (replicate 32 0) 0 r) pubBytes \<and>
        97 \<le> length sh \<and> length sh < 2 ^ 24 \<and> length ee < 2 ^ 24 \<and> length (hr_PeerCertPEM res) < 2 ^ 24 \<and> length sig < 2 ^ 24 \<and>
        decodePublicKeySM2 g (slice sh 32 97) = Inr serverPub \<and>
        computeECDHESharedSecret g serverPub priv = Inr secret \<and>
        deriveHandshakeTrafficKeys g secret (copy_at (replicate 32 0) 0 r) (take 32 sh) = Inr keys \<and>
        (let hello = [(HandshakeTypeClientHello, ch), (HandshakeTypeServerHello, sh), (HandshakeTypeEncryptedExtensions, ee),
               (HandshakeTypeCertificate, hr_PeerCertPEM res)];
             signed = hello @ [(HandshakeTypeCertificateVerify, sig)];
             finished = signed @ [(HandshakeTypeFinished, computeHMACSM3 g (hk_ServerFinishedKey keys) (tsOf signed))]
         in VerifyPeerCertificateAndEvidence g (hx_fs env) (hx_verifyNow env) (hr_PeerCertPEM res) (Some cfg) =
              Inr (hr_PeerEvidence res) \<and>
            gx509_ReadCertificateFromPem g (hr_PeerCertPEM res) = Inr c \<and> hr_PeerCertificate res = Some c \<and>
            extractSM2PublicKey (gc_PublicKey c) = Inr pub \<and> sm2_Verify g pub (tsOf hello) sig \<and>
            ownPart g env ctx cfg (ee \<noteq> [] \<and> ee ! 0 = 1) (tsOf finished) own \<and>
            appCiphers g secret (tsOf (finished @ own @
              [(HandshakeTypeFinished, computeHMACSM3 g (hk_ClientFinishedKey keys) (tsOf (finished @ own)))]))
              (hr_OutCipher res) (hr_InCipher res)))"

lemma ClientHandshakeContext_view:
  assumes "ClientHandshakeContext g env ctxp s = (Inr res, s')"
  shows "\<exists>ch sh ee sig own.
    clientView g env (case ctxp of None \<Rightarrow> contextBackground | Some c \<Rightarrow> c) (cfgOf s) res ch sh ee sig own \<and>
    Validate (cfgOf s) = Inr () \<and> (cf_VerifyMutualAttestation (cfgOf s) \<longrightarrow> ee \<noteq> [] \<and> ee ! 0 = 1) \<and>
    fst (clientToVerify g env s) = Inr (tsOf [(HandshakeTypeClientHello, ch), (HandshakeTypeServerHello, sh),
      (HandshakeTypeEncryptedExtensions, ee), (HandshakeTypeCertificate, hr_PeerCertPEM res)])"
proof -
  let ?cfg = "cfgOf s" and ?ctx = "case ctxp of None \<Rightarrow> contextBackground | Some c \<Rightarrow> c"
  obtain priv cr ts s1 se0 s2 mutual se1 s3 pem ev c se2 s4 se3 s5 se4 s6 se5 s7 where
    v: "Validate ?cfg = Inr ()" and
    h1: "clientSendHello g env ?cfg s = (Inr (priv, cr, ts), s1)" and
    h2: "clientReadHello g priv cr ts s1 = (Inr se0, s2)" and
    h3: "clientReadExtensions ?cfg se0 s2 = (Inr (mutual, se1), s3)" and
    h4: "readPeerCertificate g env ?cfg clientPeerLabels se1 s3 = (Inr (pem, ev, c, se2), s4)" and
    h5: "readFinished g (hk_ServerFinishedKey (se_keys se2)) ''teetls: read Server Finished''
           ''teetls: server finished HMAC verification failed''
           ''teetls: unexpected trailing handshake data after server Finished'' se2 s4 = (Inr se3, s5)" and
    h6: "clientSendCertificate g env ?ctx mutual se3 s5 = (Inr se4, s6)" and
    h7: "sendFinished g (hk_ClientFinishedKey (se_keys se4)) ''teetls: send Client Finished'' se4 s6 = (Inr se5, s7)" and
    h8: "clientResult g pem ev c se5 s7 = (Inr res, s')"
    using assms unfolding ClientHandshakeContext_def Let_def
    by (auto simp: bindIO_Inr wrapIO_Inr liftRes_Inr)
  obtain ee where ee: "extends se0 [(HandshakeTypeEncryptedExtensions, ee)] se1" "mutual = (ee \<noteq> [] \<and> ee ! 0 = 1)"
    "cf_VerifyMutualAttestation ?cfg \<longrightarrow> mutual" "length ee < 2 ^ 24"
    using clientReadExtensions_Inr[OF h3] by blast
  have "hs_cfg s5 = hs_cfg s"
    using clientSendHello_Inr[OF h1] clientReadHello_Inr[OF h2] clientReadExtensions_Inr[OF h3] readPeerCertificate_Inr[OF h4]
      readFinished_Inr[OF h5] by auto
  then have cfg: "cfgOf s5 = ?cfg" by (simp add: cfgOf_def)
  obtain own where own: "extends se3 own se4" "ownPart g env ?ctx ?cfg mutual (ts_buf (se_ts se3)) own"
    using clientSendCertificate_Inr[OF h6] unfolding cfg by blast
  from clientSendHello_Inr[OF h1] clientReadHello_Inr[OF h2] readPeerCertificate_Inr[OF h4]
  have "\<exists>ch sh sig. clientView g env ?ctx ?cfg res ch sh ee sig own \<and>
      ts_buf (se_ts se0) = tsOf [(HandshakeTypeClientHello, ch), (HandshakeTypeServerHello, sh)]"
    unfolding clientView_def Let_def
    using h8 ee(1,2,4) readFinished_Inr[OF h5] own sendFinished_Inr[OF h7]
    by (fastforce simp: clientResult_Inr extends_def)
  then obtain ch sh sig where view: "clientView g env ?ctx ?cfg res ch sh ee sig own"
    and ts0: "ts_buf (se_ts se0) = tsOf [(HandshakeTypeClientHello, ch), (HandshakeTypeServerHello, sh)]" by blast
  have "hr_PeerCertPEM res = pem" using h8 by (auto simp: clientResult_Inr)
  with clientToVerify_Inr[OF h1 h2 h3 h4] ts0 ee(1) have "fst (clientToVerify g env s) = Inr (tsOf [(HandshakeTypeClientHello, ch),
      (HandshakeTypeServerHello, sh), (HandshakeTypeEncryptedExtensions, ee), (HandshakeTypeCertificate, hr_PeerCertPEM res)])"
    by (simp add: extends_def)
  with view v ee(2,3) show ?thesis by blast
qed

section \<open>What a server knows after a handshake\<close>

lemma serverReadHello_Inr:
  assumes "serverReadHello g s = (Inr (cr, pub, mutual, ts), s')"
  shows "\<exists>ch. 97 \<le> length ch \<and> cr = take 32 ch \<and> decodePublicKeySM2 g (slice ch 32 97) = Inr pub \<and>
    mutual = (97 < length ch \<and> ch ! 97 = 1) \<and> ts_buf ts = tsOf [(HandshakeTypeClientHello, ch)] \<and> length ch < 2 ^ 24"
proof -
  obtain ch where "\<not> length ch < 97" "length ch < 16777216" "cr = take 32 ch" "decodePublicKeySM2 g (slice ch 32 97) = Inr pub"
    "mutual = (97 < length ch \<and> ch ! 97 = 1)" "ts = transcriptWrite emptyTranscript HandshakeTypeClientHello ch"
    using assms
    by (auto simp: serverReadHello_def bindIO_Inr wrapIO_Inr liftRes_Inr onNet_Inr ret_Inr Let_def fail_def
        split: if_splits dest: received_small)
  then show ?thesis by (intro exI[of _ ch]) simp
qed

lemma serverSendHello_Inr:
  assumes "serverSendHello g env cr cpub ts s = (Inr se, s')"
  shows "\<exists>priv pubBytes r. sm2_GenerateKey g (hx_key env) = Inr priv \<and> encodePublicKeySM2 (sk_pub priv) = Some pubBytes \<and>
    hx_rand env 32 = Inr r \<and> computeECDHESharedSecret g cpub priv = Inr (se_secret se) \<and>
    deriveHandshakeTrafficKeys g (se_secret se) cr (copy_at (replicate 32 0) 0 r) = Inr (se_keys se) \<and>
    ts_buf (se_ts se) = ts_buf ts @
      tsOf [(HandshakeTypeServerHello, serverHelloBody (copy_at (replicate 32 0) 0 r) pubBytes)]"
  using assms
  by (auto simp: serverSendHello_def ephemeralKey_def helloRandom_def bindIO_Inr wrapIO_Inr liftRes_Inr onNet_Inr ret_Inr
      Let_def fail_def sessionKeys_Inr split: option.splits)

lemma serverSendFlight_Inr:
  assumes "serverSendFlight g env mutual pem priv se s = (Inr se', s')"
  shows "\<exists>sig. sm2_Sign g priv (ts_buf (se_ts se) @
      tsOf [(HandshakeTypeEncryptedExtensions, if mutual then [1] else [0]), (HandshakeTypeCertificate, pem)]) (hx_sign env) = Inr sig \<and>
    extends se [(HandshakeTypeEncryptedExtensions, if mutual then [1] else [0]), (HandshakeTypeCertificate, pem),
      (HandshakeTypeCertificateVerify, sig),
      (HandshakeTypeFinished, computeHMACSM3 g (hk_ServerFinishedKey (se_keys se)) (ts_buf (se_ts se) @
         tsOf [(HandshakeTypeEncryptedExtensions, if mutual then [1] else [0]), (HandshakeTypeCertificate, pem),
           (HandshakeTypeCertificateVerify, sig)]))] se'"
proof -
  obtain se1 s1 se2 s2 where
    h: "sendMsg HandshakeTypeEncryptedExtensions ''teetls: send EncryptedExtensions'' (if mutual then [1] else [0]) se s = (Inr se1, s1)"
    "sendCertificate g env ''teetls: send server Certificate'' ''teetls: sign server transcript''
       ''teetls: send server CertificateVerify'' pem priv se1 s1 = (Inr se2, s2)"
    "sendFinished g (hk_ServerFinishedKey (se_keys se2)) ''teetls: send Server Finished'' se2 s2 = (Inr se', s')"
    using assms by (auto simp: serverSendFlight_def bindIO_Inr)
  from sendMsg_extends[OF h(1)] sendCertificate_Inr[OF h(2)] sendFinished_Inr[OF h(3)] show ?thesis
    by (auto simp: extends_def)
qed

text \<open>The client's part as the server reads it.\<close>

definition peerPart :: "gmsm \<Rightarrow> hsEnv \<Rightarrow> Config \<Rightarrow> bool \<Rightarrow> bytes \<Rightarrow> bytes \<Rightarrow> CSVEvidenceExtension option \<Rightarrow> gcert option \<Rightarrow>
    (byte \<times> bytes) list \<Rightarrow> bool" where
  "peerPart g env cfg mutual ts pem ev gc peer \<longleftrightarrow>
     (if mutual then
        \<exists>c pub sg. peer = [(HandshakeTypeCertificate, pem), (HandshakeTypeCertificateVerify, sg)] \<and>
          length pem < 2 ^ 24 \<and> length sg < 2 ^ 24 \<and>
          VerifyPeerCertificateAndEvidence g (hx_fs env) (hx_verifyNow env) pem (Some cfg) = Inr ev \<and>
          gx509_ReadCertificateFromPem g pem = Inr c \<and> gc = Some c \<and> extractSM2PublicKey (gc_PublicKey c) = Inr pub \<and>
          sm2_Verify g pub (ts @ encodeHandshakeMsg HandshakeTypeCertificate pem) sg
      else peer = [] \<and> pem = [] \<and> ev = None \<and> gc = None)"

lemma serverReadCertificate_Inr:
  assumes "serverReadCertificate g env cfg mutual se s = (Inr (pem, ev, gc, se'), s')"
  shows "\<exists>peer. extends se peer se' \<and> peerPart g env cfg mutual (ts_buf (se_ts se)) pem ev gc peer"
proof (cases mutual)
  case True
  then obtain c where "gc = Some c" and rd: "readPeerCertificate g env cfg serverPeerLabels se s = (Inr (pem, ev, c, se'), s')"
    using assms by (auto simp: serverReadCertificate_def bindIO_Inr ret_Inr)
  with readPeerCertificate_Inr[OF rd] True show ?thesis by (auto simp: peerPart_def)
qed (use assms in \<open>auto simp: serverReadCertificate_def ret_Inr peerPart_def\<close>)

text \<open>
  The server's view of a finished handshake. The client's part is its certificate and signature, or nothing when
  mutual attestation is not negotiated.
\<close>

definition serverView ::
    "gmsm \<Rightarrow> hsEnv \<Rightarrow> gocontext \<Rightarrow> Config \<Rightarrow> HandshakeResult \<Rightarrow> bytes \<Rightarrow> bool \<Rightarrow> bytes \<Rightarrow> bytes \<Rightarrow> bytes \<Rightarrow> (byte \<times> bytes) list \<Rightarrow> bool" where
  "serverView g env ctx cfg res ch mutual sh cert sig peer \<longleftrightarrow>
     (\<exists>priv pubBytes r clientPub secret keys certKey.
        sm2_GenerateKey g (hx_key env) = Inr priv \<and> encodePublicKeySM2 (sk_pub priv) = Some pubBytes \<and>
        hx_rand env 32 = Inr r \<and> sh = serverHelloBody (copy_at (replicate 32 0) 0 r) pubBytes \<and>
        97 \<le> length ch \<and> length ch < 2 ^ 24 \<and> decodePublicKeySM2 g (slice ch 32 97) = Inr clientPub \<and>
        credential g env ctx cfg cert certKey \<and>
        mutual = (cf_VerifyMutualAttestation cfg \<or> 97 < length ch \<and> ch ! 97 = 1) \<and>
        computeECDHESharedSecret g clientPub priv = Inr secret \<and>
        deriveHandshakeTrafficKeys g secret (take 32 ch) (copy_at (replicate 32 0) 0 r) = Inr keys \<and>
        (let hello = [(HandshakeTypeClientHello, ch), (HandshakeTypeServerHello, sh),
               (HandshakeTypeEncryptedExtensions, if mutual then [1] else [0]), (HandshakeTypeCertificate, cert)];
             signed = hello @ [(HandshakeTypeCertificateVerify, sig)];
             finished = signed @ [(HandshakeTypeFinished, computeHMACSM3 g (hk_ServerFinishedKey keys) (tsOf signed))]
         in sm2_Sign g certKey (tsOf hello) (hx_sign env) = Inr sig \<and>
            appCiphers g secret (tsOf (finished @ peer @
              [(HandshakeTypeFinished, computeHMACSM3 g (hk_ClientFinishedKey keys) (tsOf (finished @ peer)))]))
              (hr_InCipher res) (hr_OutCipher res) \<and>
            peerPart g env cfg mutual (tsOf finished) (hr_PeerCertPEM res) (hr_PeerEvidence res) (hr_PeerCertificate res) peer))"

lemma serverExchange_view:
  assumes "serverExchange g env ctx cfg s = (Inr res, s')" and cfg: "cfgOf s = cfg"
  shows "\<exists>ch mutual sh cert sig peer. serverView g env ctx cfg res ch mutual sh cert sig peer \<and>
    fst (exchangeToSign g env ctx cfg s) = Inr (tsOf [(HandshakeTypeClientHello, ch), (HandshakeTypeServerHello, sh),
      (HandshakeTypeEncryptedExtensions, if mutual then [1] else [0]), (HandshakeTypeCertificate, cert)])"
proof -
  obtain pem priv s1 cr cpub req ts s2 se0 s3 se1 s4 ppem pev pc se2 s5 se3 s6 where
    h1: "prepareCertificate g env ctx s = (Inr (pem, priv), s1)" and
    h2: "serverReadHello g s1 = (Inr (cr, cpub, req, ts), s2)" and
    h3: "serverSendHello g env cr cpub ts s2 = (Inr se0, s3)" and
    h4: "serverSendFlight g env (cf_VerifyMutualAttestation cfg \<or> req) pem priv se0 s3 = (Inr se1, s4)" and
    h5: "serverReadCertificate g env cfg (cf_VerifyMutualAttestation cfg \<or> req) se1 s4 = (Inr (ppem, pev, pc, se2), s5)" and
    h6: "readFinished g (hk_ClientFinishedKey (se_keys se2)) ''teetls: read Client Finished''
          ''teetls: client finished HMAC verification failed''
          ''teetls: unexpected trailing handshake data after client Finished'' se2 s5 = (Inr se3, s6)" and
    h7: "serverResult g ppem pev pc se3 s6 = (Inr res, s')"
    using assms(1) unfolding serverExchange_def Let_def by (auto simp: bindIO_Inr wrapIO_Inr)
  let ?m = "cf_VerifyMutualAttestation cfg \<or> req"
  obtain peer where peer: "extends se1 peer se2" "peerPart g env cfg ?m (ts_buf (se_ts se1)) ppem pev pc peer"
    using serverReadCertificate_Inr[OF h5] by blast
  have cred: "credential g env ctx cfg pem priv" using prepareCertificate_Inr[OF h1] cfg by simp
  obtain ch where ch: "97 \<le> length ch" "length ch < 2 ^ 24" "cr = take 32 ch" "decodePublicKeySM2 g (slice ch 32 97) = Inr cpub"
    "req = (97 < length ch \<and> ch ! 97 = 1)" "ts_buf ts = tsOf [(HandshakeTypeClientHello, ch)]"
    using serverReadHello_Inr[OF h2] by blast
  obtain k pubBytes r where sh: "sm2_GenerateKey g (hx_key env) = Inr k" "encodePublicKeySM2 (sk_pub k) = Some pubBytes"
    "hx_rand env 32 = Inr r" "computeECDHESharedSecret g cpub k = Inr (se_secret se0)"
    "deriveHandshakeTrafficKeys g (se_secret se0) cr (copy_at (replicate 32 0) 0 r) = Inr (se_keys se0)"
    and ts0: "ts_buf (se_ts se0) = ts_buf ts @
      tsOf [(HandshakeTypeServerHello, serverHelloBody (copy_at (replicate 32 0) 0 r) pubBytes)]"
    using serverSendHello_Inr[OF h3] by blast
  obtain sig where flight: "sm2_Sign g priv (ts_buf (se_ts se0) @ tsOf [(HandshakeTypeEncryptedExtensions, if ?m then [1] else [0]),
        (HandshakeTypeCertificate, pem)]) (hx_sign env) = Inr sig"
    "extends se0 [(HandshakeTypeEncryptedExtensions, if ?m then [1] else [0]), (HandshakeTypeCertificate, pem),
      (HandshakeTypeCertificateVerify, sig),
      (HandshakeTypeFinished, computeHMACSM3 g (hk_ServerFinishedKey (se_keys se0)) (ts_buf (se_ts se0) @
         tsOf [(HandshakeTypeEncryptedExtensions, if ?m then [1] else [0]), (HandshakeTypeCertificate, pem),
           (HandshakeTypeCertificateVerify, sig)]))] se1"
    using serverSendFlight_Inr[OF h4] by blast
  obtain cc sc where app: "appCiphers g (se_secret se3) (ts_buf (se_ts se3)) cc sc"
    and res: "res = \<lparr>hr_InCipher = cc, hr_OutCipher = sc, hr_PeerCertPEM = ppem, hr_PeerEvidence = pev, hr_PeerCertificate = pc\<rparr>"
    using h7 by (auto simp: serverResult_Inr)
  have "serverView g env ctx cfg res ch ?m (serverHelloBody (copy_at (replicate 32 0) 0 r) pubBytes) pem sig peer"
    unfolding serverView_def Let_def
    using app cred peer readFinished_Inr[OF h6] ch sh ts0 flight
    by (intro exI[of _ k] exI[of _ pubBytes] exI[of _ r] exI[of _ cpub] exI[of _ "se_secret se0"] exI[of _ "se_keys se0"] exI[of _ priv])
      (simp add: res extends_def split del: if_split)
  moreover have "fst (exchangeToSign g env ctx cfg s) = Inr (tsOf [(HandshakeTypeClientHello, ch),
      (HandshakeTypeServerHello, serverHelloBody (copy_at (replicate 32 0) 0 r) pubBytes),
      (HandshakeTypeEncryptedExtensions, if ?m then [1] else [0]), (HandshakeTypeCertificate, pem)])"
    using exchangeToSign_Inr[OF h1 h2 h3 h4] ts0 ch(6) by (simp split del: if_split)
  ultimately show ?thesis by blast
qed

lemma deferred_Inr: "(case p of (r, s) \<Rightarrow> (r, h s)) = (Inr x, s') \<longleftrightarrow> (\<exists>s. p = (Inr x, s) \<and> s' = h s)"
  by (cases p) auto

lemma ServerHandshakeContext_Inr:
  assumes "ServerHandshakeContext g env ctxp s = (Inr res, s')"
  shows "\<exists>s1 s2. Validate (cfgOf s) = Inr () \<and>
    onNet (setDeadline (hx_now env + timeout (cfgOf s))) s = (Inr (), s1) \<and>
    serverExchange g env (case ctxp of None \<Rightarrow> contextBackground | Some c \<Rightarrow> c) (cfgOf s) s1 = (Inr res, s2) \<and>
    s' = snd (onNet (setDeadline 0) s2)"
  using assms
  by (auto simp: ServerHandshakeContext_def Let_def bindIO_Inr wrapIO_Inr liftRes_Inr deferred_Inr)

lemma ServerHandshakeContext_view:
  assumes "ServerHandshakeContext g env ctxp s = (Inr res, s')"
  shows "\<exists>ch mutual sh cert sig peer.
    serverView g env (case ctxp of None \<Rightarrow> contextBackground | Some c \<Rightarrow> c) (cfgOf s) res ch mutual sh cert sig peer \<and>
    fst (serverToSign g env ctxp s) = Inr (tsOf [(HandshakeTypeClientHello, ch), (HandshakeTypeServerHello, sh),
      (HandshakeTypeEncryptedExtensions, if mutual then [1] else [0]), (HandshakeTypeCertificate, cert)])"
proof -
  obtain s1 s2 where s: "onNet (setDeadline (hx_now env + timeout (cfgOf s))) s = (Inr (), s1)"
    "serverExchange g env (case ctxp of None \<Rightarrow> contextBackground | Some c \<Rightarrow> c) (cfgOf s) s1 = (Inr res, s2)"
    using ServerHandshakeContext_Inr[OF assms] by blast
  have "cfgOf s1 = cfgOf s" using s(1) by (auto simp: onNet_Inr cfgOf_def)
  moreover have "fst (serverToSign g env ctxp s) =
      fst (exchangeToSign g env (case ctxp of None \<Rightarrow> contextBackground | Some c \<Rightarrow> c) (cfgOf s) s1)"
    using s(1) by (simp add: serverToSign_def bindIO_def wrapIO_def Let_def)
  ultimately show ?thesis using serverExchange_view[OF s(2)] by metis
qed

end
