(* ===== verification/Handshake_Run.thy ===== *)
theory Handshake_Run
  imports Handshake
begin

text \<open>
  Runs of the handshake: what a run leaves of the connection's deadlines, and the runs of the single phases on the
  messages an honest peer sends, from which whole runs are composed.
\<close>

section \<open>Frames\<close>

lemma keeps_onNet [frame_rules]: "keeps f act \<Longrightarrow> keeps (\<lambda>s. f (hs_net s)) (onNet act)"
  by (rule keepsI) (auto simp: onNet_def dest: keepsD split: prod.splits)

lemma keeps_onCfg [frame_rules]: "keeps (\<lambda>s. f (hs_net s)) (onCfg act)"
  by (rule keepsI) (auto simp: onCfg_def split: prod.splits)

lemma keeps_writeFull [frame_rules]: "keeps lineState (writeFull p)"
  by (rule keepsI) (auto simp: writeFull_def connWrite_def lineState_def split: list.splits option.splits prod.splits if_splits)

lemma keeps_writePlaintext [frame_rules]: "keeps lineState (writePlaintextHandshakeMsg t body)"
  unfolding writePlaintextHandshakeMsg_def Let_def by (intro frame_rules)

lemma keeps_readPlaintextRecord [frame_rules]: "keeps lineState readPlaintextRecord"
  unfolding readPlaintextRecord_def Let_def by (intro frame_rules)

lemma keeps_sum [frame_rules]:
  "(\<And>e. keeps f (a e)) \<Longrightarrow> (\<And>x. keeps f (b x)) \<Longrightarrow> keeps f (case v of Inl e \<Rightarrow> a e | Inr x \<Rightarrow> b x)"
  by (cases v) auto

lemma keeps_readHandshakeRecord [frame_rules]: "keeps lineState (readHandshakeRecord hr)"
  unfolding readHandshakeRecord_def Let_def by (intro frame_rules)

lemma writeEncryptedLoop_line: "writeEncryptedLoop rc bs s = (r, s') \<Longrightarrow> lineState s' = lineState s"
proof (induction rc bs s arbitrary: r s' rule: writeEncryptedLoop.induct)
  case (1 rc bs s)
  show ?case
  proof (cases "bs = []")
    case False
    show ?thesis
    proof (cases "Seal RecordTypeHandshake (take (if length bs > MaxPlaintextLength then MaxPlaintextLength else length bs) bs) rc")
      case (Pair res rc1)
      show ?thesis
      proof (cases res)
        case (Inl e)
        with False Pair 1(2) show ?thesis by (subst (asm) writeEncryptedLoop.simps) (simp add: Let_def)
      next
        case (Inr rec)
        obtain w s1 where w: "writeFull rec s = (w, s1)" by fastforce
        have l: "lineState s1 = lineState s" by (rule keepsD[OF keeps_writeFull w])
        show ?thesis
        proof (cases w)
          case (Inl e)
          with False Pair Inr w l 1(2) show ?thesis
            by (subst (asm) writeEncryptedLoop.simps) (auto simp: Let_def \<open>res = Inr rec\<close>)
        next
          case w1: (Inr u)
          let ?n = "if length bs > MaxPlaintextLength then MaxPlaintextLength else length bs"
          have "writeEncryptedLoop rc1 (drop ?n bs) s1 = (r, s')"
            using False Pair \<open>res = Inr rec\<close> w w1 1(2) by (subst (asm) writeEncryptedLoop.simps) (simp add: Let_def)
          with 1(1)[OF _ refl Pair[symmetric] \<open>res = Inr rec\<close> w[symmetric] w1] False l show ?thesis by simp
        qed
      qed
    qed
  qed (use 1(2) in simp)
qed

lemma keeps_writeEncrypted [frame_rules]: "keeps lineState (writeEncryptedHandshakeMsg rc t body)"
  by (rule keepsI) (auto simp: writeEncryptedHandshakeMsg_def dest: writeEncryptedLoop_line)

lemma readPlaintextLoop_line: "readPlaintextLoop a t e s = (r, s') \<Longrightarrow> lineState s' = lineState s"
proof (induction a t e s arbitrary: r s' rule: readPlaintextLoop.induct)
  case (1 a t e s)
  obtain p s1 where p: "readPlaintextRecord s = (p, s1)" by fastforce
  have l: "lineState s1 = lineState s" by (rule keepsD[OF keeps_readPlaintextRecord p])
  show ?case using 1(2) l 1(1)[OF p[symmetric]]
    by (subst (asm) readPlaintextLoop.simps) (auto simp: p Let_def split: sum.splits if_splits)
qed

lemma keeps_readPlaintext [frame_rules]: "keeps lineState readPlaintextHandshakeMsg"
  by (rule keepsI) (auto simp: readPlaintextHandshakeMsg_def dest: readPlaintextLoop_line)

lemma ReadMsg_line: "ReadMsg hr s = (r, s') \<Longrightarrow> lineState s' = lineState s"
proof (induction hr s arbitrary: r s' rule: ReadMsg.induct)
  case (1 hr s)
  obtain q s1 where q: "readHandshakeRecord hr s = (q, s1)" by fastforce
  have l: "lineState s1 = lineState s" by (rule keepsD[OF keeps_readHandshakeRecord q])
  show ?case using 1(2) l 1(1)[OF _ _ q[symmetric]]
    by (subst (asm) ReadMsg.simps) (auto simp: q split: sum.splits option.splits)
qed

lemma keeps_ReadMsg [frame_rules]: "keeps lineState (ReadMsg hr)"
  by (rule keepsI) (rule ReadMsg_line)

abbreviation lineOf :: "hsState \<Rightarrow> gotime \<times> gotime \<times> goerr option \<times> goerr option \<times> bool \<times> goerr" where
  "lineOf s \<equiv> lineState (hs_net s)"

lemma keeps_phases [frame_rules]:
  "keeps lineOf (prepareCertificate g env ctx)" "keeps lineOf (ephemeralKey g env l)" "keeps lineOf (helloRandom env l)"
  "keeps lineOf (expectMsg t l e se)" "keeps lineOf (sendMsg t l body se)"
  unfolding prepareCertificate_def ephemeralKey_def helloRandom_def expectMsg_def sendMsg_def
  by (intro frame_rules)+

lemma keeps_flights [frame_rules]:
  "keeps lineOf (readPeerCertificate g env cfg pl se)" "keeps lineOf (sendCertificate g env l1 l2 l3 pem priv se)"
  "keeps lineOf (readFinished g key l e1 e2 se)" "keeps lineOf (sendFinished g key l se)"
  "keeps lineOf (clientResult g pem ev c se)" "keeps lineOf (serverResult g pem ev c' se)"
  unfolding readPeerCertificate_def sendCertificate_def readFinished_def sendFinished_def clientResult_def serverResult_def Let_def
  by (intro frame_rules)+

lemma keeps_client [frame_rules]:
  "keeps lineOf (clientSendHello g env cfg)" "keeps lineOf (clientReadHello g priv cr ts)"
  "keeps lineOf (clientReadExtensions cfg se)" "keeps lineOf (clientSendCertificate g env ctx m se)"
  unfolding clientSendHello_def clientReadHello_def clientReadExtensions_def clientSendCertificate_def Let_def
  by (intro frame_rules)+

lemma keeps_server [frame_rules]:
  "keeps lineOf (serverReadHello g)" "keeps lineOf (serverSendHello g env cr pub ts)"
  "keeps lineOf (serverSendFlight g env m pem priv se)" "keeps lineOf (serverReadCertificate g env cfg m se)"
  unfolding serverReadHello_def serverSendHello_def serverSendFlight_def serverReadCertificate_def Let_def
  by (intro frame_rules)+

lemma keeps_serverExchange: "keeps lineOf (serverExchange g env ctx cfg)"
  unfolding serverExchange_def Let_def by (intro frame_rules)

lemma ClientHandshakeContext_line:
  assumes "ClientHandshakeContext g env ctxp s = (r, s')"
  shows "lineOf s' = lineOf s"
  using assms unfolding ClientHandshakeContext_def Let_def by (rule keepsD[rotated]) (intro frame_rules)

text \<open>
  The server's handshake runs under a deadline of the configured timeout and never leaves it behind. With a valid
  configuration on a connection that accepts deadlines, the whole exchange runs with the deadline set to the time of the
  call plus the timeout, and whatever its outcome the connection has no deadline afterwards; otherwise the handshake
  fails before anything is read or written.
\<close>

theorem server_deadline_cleared:
  "case ServerHandshakeContext g env ctxp s of (r, s') \<Rightarrow>
     if Validate (cfgOf s) = Inr () \<and> dl_err (hs_net s) = None
     then deadline (hs_net s') = 0 \<and> wdeadline (hs_net s') = 0 \<and> timeout (cfgOf s) > 0 \<and>
       (\<exists>s1 s2 ctx. hs_net s1 = (hs_net s)\<lparr>deadline := hx_now env + timeout (cfgOf s), wdeadline := hx_now env + timeout (cfgOf s)\<rparr> \<and>
          serverExchange g env ctx (cfgOf s) s1 = (r, s2) \<and> deadline (hs_net s2) = deadline (hs_net s1))
     else s' = s \<and> (\<exists>e. r = Inl e)"
proof -
  let ?ctx = "case ctxp of None \<Rightarrow> contextBackground | Some c \<Rightarrow> c"
  let ?t = "hx_now env + timeout (cfgOf s)"
  let ?s1 = "s\<lparr>hs_net := (hs_net s)\<lparr>deadline := ?t, wdeadline := ?t\<rparr>\<rparr>"
  have pos: "timeout (cfgOf s) > 0" by (simp add: timeout_def defaultTimeout_def)
  consider (bad) e where "Validate (cfgOf s) = Inl e" | (nodl) e where "Validate (cfgOf s) = Inr ()" "dl_err (hs_net s) = Some e"
    | (go) "Validate (cfgOf s) = Inr ()" "dl_err (hs_net s) = None"
    by (cases "Validate (cfgOf s)"; cases "dl_err (hs_net s)") auto
  then show ?thesis
  proof cases
    case bad
    then show ?thesis by (simp add: ServerHandshakeContext_def Let_def bindIO_def wrapIO_def)
  next
    case nodl
    then show ?thesis by (simp add: ServerHandshakeContext_def Let_def bindIO_def wrapIO_def onNet_def setDeadline_def)
  next
    case go
    obtain r s2 where x: "serverExchange g env ?ctx (cfgOf s) ?s1 = (r, s2)" by fastforce
    have "lineOf s2 = lineOf ?s1" by (rule keepsD[OF keeps_serverExchange x])
    then have l: "deadline (hs_net s2) = ?t" "dl_err (hs_net s2) = None" using go by (simp_all add: lineState_def)
    have "ServerHandshakeContext g env ctxp s = (r, snd (onNet (setDeadline 0) s2))"
      using go x by (simp add: ServerHandshakeContext_def Let_def bindIO_def wrapIO_def onNet_def setDeadline_def)
    moreover have "deadline (hs_net (snd (onNet (setDeadline 0) s2))) = 0" "wdeadline (hs_net (snd (onNet (setDeadline 0) s2))) = 0"
      using l by (simp_all add: onNet_def setDeadline_def)
    moreover have "\<exists>s1 s2 ctx. hs_net s1 = hs_net ?s1 \<and> serverExchange g env ctx (cfgOf s) s1 = (r, s2) \<and>
        deadline (hs_net s2) = deadline (hs_net s1)"
      using x l(1) by (intro exI[of _ ?s1] exI[of _ s2] exI[of _ ?ctx]) simp
    ultimately show ?thesis using go pos by simp
  qed
qed

section \<open>One endpoint of an honest run\<close>

definition flight :: "(byte \<times> bytes) list \<Rightarrow> (RecordType \<times> bytes \<times> nat) list" where
  "flight ms = concat (map (\<lambda>(t, body). msgRecords t body) ms)"

lemma flight_simps [simp]: "flight [] = []" "flight (ms @ ms') = flight ms @ flight ms'"
  "flight ((t, body) # ms) = msgRecords t body @ flight ms"
  by (simp_all add: flight_def)

lemma payloads_flight [simp]: "payloads (flight ms) = tsOf ms"
  by (induction ms) auto

lemma length_flight: "length (flight ms) \<le> length (tsOf ms)"
  by (induction ms) (auto intro!: add_mono length_msgRecords[THEN order_trans])

lemma flight_wf: "(t, p, k) \<in> set (flight ms) \<Longrightarrow> t = RecordTypeHandshake \<and> p \<noteq> [] \<and> length p \<le> 16384 \<and> k = 0"
  using msgRecords_wf by (fastforce simp: flight_def)

lemma streamOk_flight:
  assumes "rc_seq rc = 0" "length (tsOf ms) < 2 ^ 63"
  shows "streamOk rc (flight ms)"
proof (rule streamOk_short)
  show "unat (rc_seq rc) + length (flight ms) \<le> 2 ^ 64 - 1" using assms length_flight[of ms] by simp
qed (use flight_wf in blast)

text \<open>
  An endpoint in the middle of its encrypted exchange: it has sent \<open>sent\<close> with a cipher that started as \<open>rc\<close>, after the
  bytes \<open>base\<close>, and \<open>pend\<close> is what the peer's records still hold for it.
\<close>

definition linked ::
    "RecordCipher \<Rightarrow> bytes \<Rightarrow> (byte \<times> bytes) list \<Rightarrow> bytes \<Rightarrow> bytes \<Rightarrow> hsSession \<Rightarrow> hsState \<Rightarrow> bool" where
  "linked rc base sent pend rest se s \<longleftrightarrow>
     wr (hs_net s) = [] \<and> rc_seq rc = 0 \<and> se_writer se = (advance ^^ length (flight sent)) rc \<and>
     tx (hs_net s) = base @ sealStream rc (flight sent) \<and> hsPending (se_reader se) (hs_net s) pend rest"

lemma unat_advanced:
  assumes "rc_seq rc = 0" "n < 2 ^ 63"
  shows "unat (rc_seq ((advance ^^ n) rc)) = n"
proof -
  have "unat (of_nat n :: 64 word) = n" using assms(2) by (simp add: unat_of_nat)
  with assms(1) show ?thesis by (simp add: advance_pow_seq)
qed

lemma hsPending_frame: "rx n' = rx n \<Longrightarrow> hsPending hr n' ms rest = hsPending hr n ms rest"
  by (simp add: hsPending_def)

lemma linked_send:
  assumes l: "linked rc base sent pend rest se s" and small: "length (tsOf (sent @ [(t, body)])) < 2 ^ 63"
  shows "\<exists>se' s'. sendMsg t lbl body se s = (Inr se', s') \<and> linked rc base (sent @ [(t, body)]) pend rest se' s' \<and>
    extends se [(t, body)] se' \<and> hs_cfg s' = hs_cfg s"
proof -
  have len: "length (flight sent) \<le> length (tsOf sent)" by (rule length_flight)
  have w: "se_writer se = (advance ^^ length (flight sent)) rc" and wr: "wr (hs_net s) = []" and rc: "rc_seq rc = 0"
    using l by (simp_all add: linked_def)
  have "unat (rc_seq (se_writer se)) = length (flight sent)"
    unfolding w by (rule unat_advanced[OF rc]) (use small len in simp)
  moreover have "length (tsOf sent) + (4 + length body) < 2 ^ 63" using small by simp
  ultimately have "unat (rc_seq (se_writer se)) + 4 + length body \<le> 2 ^ 64 - 1" using len by simp
  note sent = writeEncryptedHandshakeMsg_total[OF wr this, of t]
  let ?se = "record_ts t body (se\<lparr>se_writer := (advance ^^ length (msgRecords t body)) (se_writer se)\<rparr>)"
  let ?s = "s\<lparr>hs_net := (hs_net s)\<lparr>tx := tx (hs_net s) @ sealStream (se_writer se) (msgRecords t body)\<rparr>\<rparr>"
  have run: "sendMsg t lbl body se s = (Inr ?se, ?s)" using sent by (auto simp: sendMsg_Inr)
  have n: "length (flight (sent @ [(t, body)])) = length (msgRecords t body) + length (flight sent)" by simp
  have "(advance ^^ length (msgRecords t body)) (se_writer se) = (advance ^^ length (flight (sent @ [(t, body)]))) rc"
    unfolding n w by (simp add: funpow_add)
  moreover have "tx (hs_net s) @ sealStream (se_writer se) (msgRecords t body) = base @ sealStream rc (flight (sent @ [(t, body)]))"
    using l by (simp add: linked_def sealStream_append)
  moreover have "hsPending (se_reader se) (hs_net ?s) pend rest"
    using l hsPending_frame[of "hs_net ?s" "hs_net s"] by (simp add: linked_def)
  ultimately have "linked rc base (sent @ [(t, body)]) pend rest ?se ?s"
    unfolding linked_def using wr rc by (simp del: flight_simps)
  with run sendMsg_extends[OF run] show ?thesis by auto
qed

lemma linked_recv:
  assumes l: "linked rc base sent (encodeHandshakeMsg t body @ pend) rest se s"
    and fits: "length (encodeHandshakeMsg t body @ pend) \<le> maxHandshakeBufferSize"
  shows "\<exists>se' s'. expectMsg t lbl e se s = (Inr (body, se'), s') \<and> linked rc base sent pend rest se' s' \<and>
    extends se [] se' \<and> hs_cfg s' = hs_cfg s"
proof -
  have "hsPending (se_reader se) (hs_net s) (encodeHandshakeMsg t body @ pend) rest" using l by (simp add: linked_def)
  from ReadMsg_pending[OF this] fits obtain hr r where
    rd: "ReadMsg (se_reader se) (hs_net s) = (Inr (t, body, hr), (hs_net s)\<lparr>rx := r\<rparr>)"
      "hsPending hr ((hs_net s)\<lparr>rx := r\<rparr>) pend rest"
    by (auto simp: fitsBuffer_def)
  let ?s = "s\<lparr>hs_net := (hs_net s)\<lparr>rx := r\<rparr>\<rparr>"
  have "expectMsg t lbl e se s = (Inr (body, se\<lparr>se_reader := hr\<rparr>), ?s)" using rd(1) by (auto simp: expectMsg_Inr)
  moreover have "linked rc base sent pend rest (se\<lparr>se_reader := hr\<rparr>) ?s" using l rd(2) by (simp add: linked_def)
  ultimately show ?thesis by (auto simp: extends_def)
qed

lemma linked_record [simp]: "linked rc base sent pend rest (record_ts t b se) s = linked rc base sent pend rest se s"
  by (simp add: linked_def)

lemma extends_record: "extends se ms se1 \<Longrightarrow> extends se (ms @ [(t, b)]) (record_ts t b se1)"
  by (simp add: extends_def)

lemma linked_cfg [simp]: "linked rc base sent pend rest se (s\<lparr>hs_cfg := c\<rparr>) = linked rc base sent pend rest se s"
  by (simp add: linked_def)

lemma linked_done: "linked rc base sent [] rest se s \<Longrightarrow> \<not> HasRemaining (se_reader se) \<and> rx (hs_net s) = rest"
  using hsPending_done by (auto simp: linked_def)

section \<open>The phases of an honest run\<close>

lemma readPeerCertificate_run:
  assumes l: "linked rc base sent (tsOf [(HandshakeTypeCertificate, pem), (HandshakeTypeCertificateVerify, sig)] @ pend) rest se s"
    and fits: "length (tsOf [(HandshakeTypeCertificate, pem), (HandshakeTypeCertificateVerify, sig)] @ pend) \<le> maxHandshakeBufferSize"
    and acc: "VerifyPeerCertificateAndEvidence g (hx_fs env) (hx_verifyNow env) pem (Some cfg) = Inr ev"
      "gx509_ReadCertificateFromPem g pem = Inr c" "extractSM2PublicKey (gc_PublicKey c) = Inr pub"
      "sm2_Verify g pub (ts_buf (se_ts se) @ encodeHandshakeMsg HandshakeTypeCertificate pem) sig"
  shows "\<exists>se' s'. readPeerCertificate g env cfg pl se s = (Inr (pem, ev, c, se'), s') \<and>
    linked rc base sent pend rest se' s' \<and>
    extends se [(HandshakeTypeCertificate, pem), (HandshakeTypeCertificateVerify, sig)] se' \<and> hs_cfg s' = hs_cfg s"
proof -
  let ?r = "encodeHandshakeMsg HandshakeTypeCertificateVerify sig @ pend"
  obtain se1 s1 where r1: "expectMsg HandshakeTypeCertificate (pl_readCert pl) (pl_typeCert pl) se s = (Inr (pem, se1), s1)"
    "linked rc base sent ?r rest se1 s1" "extends se [] se1" "hs_cfg s1 = hs_cfg s"
    using linked_recv[of rc base sent HandshakeTypeCertificate pem ?r rest se s "pl_readCert pl" "pl_typeCert pl"] l fits by auto
  let ?se2 = "record_ts HandshakeTypeCertificate pem se1"
  have r: "linked rc base sent ?r rest ?se2 s1" using r1(2) by simp
  obtain se3 s3 where r2: "expectMsg HandshakeTypeCertificateVerify (pl_readVerify pl) (pl_typeVerify pl) ?se2 s1 = (Inr (sig, se3), s3)"
    "linked rc base sent pend rest se3 s3" "extends ?se2 [] se3" "hs_cfg s3 = hs_cfg s1"
    using linked_recv[OF r, of "pl_readVerify pl" "pl_typeVerify pl"] fits by auto
  have v: "sm2_Verify g pub (ts_buf (se_ts ?se2)) sig" using acc(4) r1(3) by (simp add: extends_def)
  have "readPeerCertificate g env cfg pl se s = (Inr (pem, ev, c, record_ts HandshakeTypeCertificateVerify sig se3), s3)"
    unfolding readPeerCertificate_def using r1(1) r2(1) acc(1-3) v
    by (simp add: bindIO_def wrapIO_def Let_def)
  moreover have "extends se [(HandshakeTypeCertificate, pem), (HandshakeTypeCertificateVerify, sig)]
      (record_ts HandshakeTypeCertificateVerify sig se3)"
    using r1(3) r2(3) by (simp add: extends_def)
  ultimately show ?thesis using r2(2,4) r1(4) by auto
qed

lemma readFinished_run:
  assumes l: "linked rc base sent (encodeHandshakeMsg HandshakeTypeFinished tag) rest se s"
    and fits: "4 + length tag \<le> maxHandshakeBufferSize" and tag: "tag = computeHMACSM3 g key (ts_buf (se_ts se))"
  shows "\<exists>se' s'. readFinished g key lbl e1 e2 se s = (Inr se', s') \<and> linked rc base sent [] rest se' s' \<and>
    extends se [(HandshakeTypeFinished, tag)] se' \<and> hs_cfg s' = hs_cfg s"
proof -
  obtain se1 s1 where r: "expectMsg HandshakeTypeFinished lbl ''teetls: expected Finished (20)'' se s = (Inr (tag, se1), s1)"
    "linked rc base sent [] rest se1 s1" "extends se [] se1" "hs_cfg s1 = hs_cfg s"
    using linked_recv[of rc base sent HandshakeTypeFinished tag "[]" rest se s lbl "''teetls: expected Finished (20)''"] l fits by auto
  have "\<not> HasRemaining (se_reader se1)" using linked_done[OF r(2)] by simp
  then have "readFinished g key lbl e1 e2 se s = (Inr (record_ts HandshakeTypeFinished tag se1), s1)"
    using r(1) tag by (simp add: readFinished_def bindIO_def Let_def)
  moreover have "extends se [(HandshakeTypeFinished, tag)] (record_ts HandshakeTypeFinished tag se1)"
    using r(3) by (simp add: extends_def)
  ultimately show ?thesis using r(2,4) by auto
qed

lemma sendCertificate_run:
  assumes l: "linked rc base sent pend rest se s"
    and sign: "sm2_Sign g priv (ts_buf (se_ts se) @ encodeHandshakeMsg HandshakeTypeCertificate pem) (hx_sign env) = Inr sig"
    and small: "length (tsOf (sent @ [(HandshakeTypeCertificate, pem), (HandshakeTypeCertificateVerify, sig)])) < 2 ^ 63"
  shows "\<exists>se' s'. sendCertificate g env l1 l2 l3 pem priv se s = (Inr se', s') \<and>
    linked rc base (sent @ [(HandshakeTypeCertificate, pem), (HandshakeTypeCertificateVerify, sig)]) pend rest se' s' \<and>
    extends se [(HandshakeTypeCertificate, pem), (HandshakeTypeCertificateVerify, sig)] se' \<and> hs_cfg s' = hs_cfg s"
proof -
  obtain se1 s1 where s1: "sendMsg HandshakeTypeCertificate l1 pem se s = (Inr se1, s1)"
    "linked rc base (sent @ [(HandshakeTypeCertificate, pem)]) pend rest se1 s1"
    "extends se [(HandshakeTypeCertificate, pem)] se1" "hs_cfg s1 = hs_cfg s"
    using linked_send[OF l, of HandshakeTypeCertificate pem l1] small by auto
  obtain se2 s2 where s2: "sendMsg HandshakeTypeCertificateVerify l3 sig se1 s1 = (Inr se2, s2)"
    "linked rc base ((sent @ [(HandshakeTypeCertificate, pem)]) @ [(HandshakeTypeCertificateVerify, sig)]) pend rest se2 s2"
    "extends se1 [(HandshakeTypeCertificateVerify, sig)] se2" "hs_cfg s2 = hs_cfg s1"
    using linked_send[OF s1(2), of HandshakeTypeCertificateVerify sig l3] small by auto
  have "sm2_Sign g priv (ts_buf (se_ts se1)) (hx_sign env) = Inr sig" using sign s1(3) by (simp add: extends_def)
  then have "sendCertificate g env l1 l2 l3 pem priv se s = (Inr se2, s2)"
    using s1(1) s2(1) by (simp add: sendCertificate_def bindIO_def wrapIO_def)
  with s2 s1(3,4) show ?thesis by (auto simp: extends_def)
qed

section \<open>Key agreement\<close>

text \<open>What two endpoints share after the hellos: their ephemeral keys and randoms, and the same session keys.\<close>

record agreed =
  ag_cpriv :: sm2priv
  ag_spriv :: sm2priv
  ag_cpub :: bytes
  ag_spub :: bytes
  ag_cr :: bytes
  ag_sr :: bytes
  ag_secret :: bytes
  ag_keys :: HandshakeTrafficKeys
  ag_server :: RecordCipher
  ag_client :: RecordCipher

definition agreement :: "gmsm \<Rightarrow> hsEnv \<Rightarrow> hsEnv \<Rightarrow> agreed \<Rightarrow> bool" where
  "agreement g cenv senv a \<longleftrightarrow>
     sm2_GenerateKey g (hx_key cenv) = Inr (ag_cpriv a) \<and> sm2_GenerateKey g (hx_key senv) = Inr (ag_spriv a) \<and>
     encodePublicKeySM2 (sk_pub (ag_cpriv a)) = Some (ag_cpub a) \<and> encodePublicKeySM2 (sk_pub (ag_spriv a)) = Some (ag_spub a) \<and>
     decodePublicKeySM2 g (ag_cpub a) = Inr (sk_pub (ag_cpriv a)) \<and> decodePublicKeySM2 g (ag_spub a) = Inr (sk_pub (ag_spriv a)) \<and>
     (\<exists>r. hx_rand cenv 32 = Inr r \<and> ag_cr a = copy_at (replicate 32 0) 0 r) \<and>
     (\<exists>r. hx_rand senv 32 = Inr r \<and> ag_sr a = copy_at (replicate 32 0) 0 r) \<and>
     sessionKeys g (sk_pub (ag_spriv a)) (ag_cpriv a) (ag_cr a) (ag_sr a) = Inr (ag_secret a, ag_keys a, ag_server a, ag_client a) \<and>
     sessionKeys g (sk_pub (ag_cpriv a)) (ag_spriv a) (ag_cr a) (ag_sr a) = Inr (ag_secret a, ag_keys a, ag_server a, ag_client a)"

lemma agreement_lengths:
  assumes "agreement g cenv senv a"
  shows "length (ag_cr a) = 32" "length (ag_sr a) = 32" "length (ag_cpub a) = 65" "length (ag_spub a) = 65"
  using assms by (auto simp: agreement_def decodePublicKeySM2_def split: if_splits)

lemma agreement_ciphers:
  assumes "agreement g cenv senv a"
  shows "rcInv (ag_server a)" "rc_seq (ag_server a) = 0" "rcInv (ag_client a)" "rc_seq (ag_client a) = 0"
  using assms NewRecordCipher_inv by (auto simp: agreement_def sessionKeys_Inr)

definition helloOfClient :: "agreed \<Rightarrow> Config \<Rightarrow> bytes" where
  "helloOfClient a cfg = clientHelloBody cfg (ag_cr a) (ag_cpub a)"

definition helloOfServer :: "agreed \<Rightarrow> bytes" where
  "helloOfServer a = serverHelloBody (ag_sr a) (ag_spub a)"

lemma clientHelloBody_eq:
  assumes "length cr = 32" "length pub = 65"
  shows "clientHelloBody cfg cr pub = cr @ pub @ [if cf_VerifyMutualAttestation cfg then 1 else 0]"
  using assms by (simp add: clientHelloBody_def copy_at_def Let_def list_update_append)

lemma serverHelloBody_eq:
  assumes "length sr = 32" "length pub = 65"
  shows "serverHelloBody sr pub = sr @ pub"
  using assms by (simp add: serverHelloBody_def copy_at_def Let_def)

lemma hello_fields:
  assumes "agreement g cenv senv a"
  shows "length (helloOfClient a cfg) = 98" "take 32 (helloOfClient a cfg) = ag_cr a" "slice (helloOfClient a cfg) 32 97 = ag_cpub a"
    "helloOfClient a cfg ! 97 = (if cf_VerifyMutualAttestation cfg then 1 else 0)"
    "length (helloOfServer a) = 97" "take 32 (helloOfServer a) = ag_sr a" "slice (helloOfServer a) 32 97 = ag_spub a"
  using agreement_lengths[OF assms]
  by (simp_all add: helloOfClient_def helloOfServer_def clientHelloBody_eq serverHelloBody_eq slice_def nth_append)

text \<open>A plaintext hello is read back as sent.\<close>

lemma plaintext_hello:
  assumes "rx n = plainRecord (3, 3) (encodeHandshakeMsg t body) @ rest" "4 + length body \<le> 16384"
  shows "readPlaintextHandshakeMsg n = (Inr (t, body, encodeHandshakeMsg t body), n\<lparr>rx := rest\<rparr>)"
proof -
  have "encodeHandshakeMsg t body \<noteq> []" using length_encodeHandshakeMsg[of t body] by force
  then show ?thesis unfolding readPlaintextHandshakeMsg_def
    by (intro readPlaintextLoop_fragments[where ps = "[((3, 3), encodeHandshakeMsg t body)]"])
      (use assms in simp_all)
qed

lemma clientSendHello_run:
  assumes ag: "agreement g cenv senv a" and wr: "wr (hs_net s) = []"
  shows "clientSendHello g cenv cfg s = (Inr (ag_cpriv a, ag_cr a,
      transcriptWrite emptyTranscript HandshakeTypeClientHello (helloOfClient a cfg)),
    s\<lparr>hs_net := (hs_net s)\<lparr>tx := tx (hs_net s) @ plainRecord (3, 3) (encodeHandshakeMsg HandshakeTypeClientHello (helloOfClient a cfg))\<rparr>\<rparr>)"
proof -
  obtain r where r: "hx_rand cenv 32 = Inr r" "ag_cr a = copy_at (replicate 32 0) 0 r"
    and k: "sm2_GenerateKey g (hx_key cenv) = Inr (ag_cpriv a)" "encodePublicKeySM2 (sk_pub (ag_cpriv a)) = Some (ag_cpub a)"
    using ag by (auto simp: agreement_def)
  have "4 + length (helloOfClient a cfg) \<le> 16384" using hello_fields(1)[OF ag] by simp
  from plainRecord_writes[OF wr this] r k show ?thesis
    by (simp add: clientSendHello_def ephemeralKey_def helloRandom_def bindIO_def wrapIO_def Let_def onNet_def helloOfClient_def)
qed

text \<open>The session state of an endpoint once the keys are there.\<close>

definition sessionOf :: "agreed \<Rightarrow> Config \<Rightarrow> RecordCipher \<Rightarrow> RecordCipher \<Rightarrow> hsSession" where
  "sessionOf a cfg inC outC = \<lparr>se_secret = ag_secret a, se_keys = ag_keys a, se_reader = newEncryptedHandshakeReader inC,
     se_writer = outC, se_ts = transcriptWrite (transcriptWrite emptyTranscript HandshakeTypeClientHello (helloOfClient a cfg))
       HandshakeTypeServerHello (helloOfServer a)\<rparr>"

lemma sessionOf_simps [simp]:
  "ts_buf (se_ts (sessionOf a cfg i out)) = tsOf [(HandshakeTypeClientHello, helloOfClient a cfg), (HandshakeTypeServerHello, helloOfServer a)]"
  "se_secret (sessionOf a cfg i out) = ag_secret a" "se_keys (sessionOf a cfg i out) = ag_keys a"
  "se_writer (sessionOf a cfg i out) = out" "se_reader (sessionOf a cfg i out) = newEncryptedHandshakeReader i"
  by (simp_all add: sessionOf_def)

lemma clientReadHello_run:
  assumes ag: "agreement g cenv senv a"
    and rx: "rx (hs_net s) = plainRecord (3, 3) (encodeHandshakeMsg HandshakeTypeServerHello (helloOfServer a)) @ rest"
  shows "clientReadHello g (ag_cpriv a) (ag_cr a) (transcriptWrite emptyTranscript HandshakeTypeClientHello (helloOfClient a cfg)) s =
    (Inr (sessionOf a cfg (ag_server a) (ag_client a)), s\<lparr>hs_net := (hs_net s)\<lparr>rx := rest\<rparr>\<rparr>)"
proof -
  note h = hello_fields[OF ag]
  have "readPlaintextHandshakeMsg (hs_net s) = (Inr (HandshakeTypeServerHello, helloOfServer a,
      encodeHandshakeMsg HandshakeTypeServerHello (helloOfServer a)), (hs_net s)\<lparr>rx := rest\<rparr>)"
    using plaintext_hello[OF rx] h(5) by simp
  moreover have "decodePublicKeySM2 g (slice (helloOfServer a) 32 97) = Inr (sk_pub (ag_spriv a))"
    "sessionKeys g (sk_pub (ag_spriv a)) (ag_cpriv a) (ag_cr a) (take 32 (helloOfServer a)) =
       Inr (ag_secret a, ag_keys a, ag_server a, ag_client a)"
    using ag h(6,7) by (simp_all add: agreement_def)
  ultimately show ?thesis using h(5)
    by (simp add: clientReadHello_def bindIO_def wrapIO_def onNet_def Let_def sessionOf_def)
qed

lemma linked_start:
  assumes "wr n = []" "rx n = sealStream inC (flight ms) @ rest" "rcInv inC" "rc_seq inC = 0" "rc_seq outC = 0"
    and "length (tsOf ms) < 2 ^ 63"
  shows "linked outC (tx n) [] (tsOf ms) rest (sessionOf a cfg inC outC) (s\<lparr>hs_net := n\<rparr>)"
proof -
  have "hsPending (newEncryptedHandshakeReader inC) n (tsOf ms) rest"
    unfolding hsPending_def newEncryptedHandshakeReader_def
    using assms(2,3) streamOk_flight[OF assms(4,6)] flight_wf[of _ _ _ ms] by (auto intro!: exI[of _ "flight ms"])
  then show ?thesis using assms by (simp add: linked_def)
qed

end
