(* ===== verification/Honest_Run.thy ===== *)
theory Honest_Run
  imports Handshake_Run
begin

text \<open>
  Two honest endpoints connected to each other: the runs of both roles are composed from the runs of their phases,
  and the composition shows that both complete, drain the line and end with matching application ciphers.
\<close>

section \<open>The messages of a run\<close>

definition hellosOf :: "agreed \<Rightarrow> Config \<Rightarrow> (byte \<times> bytes) list" where [simp]:
  "hellosOf a cfg = [(HandshakeTypeClientHello, helloOfClient a cfg), (HandshakeTypeServerHello, helloOfServer a)]"

definition certMsgs :: "bytes \<Rightarrow> bytes \<Rightarrow> (byte \<times> bytes) list" where
  "certMsgs pem sig = [(HandshakeTypeCertificate, pem), (HandshakeTypeCertificateVerify, sig)]"

text \<open>Messages followed by the Finished that covers them and everything before.\<close>

definition finishedBy :: "gmsm \<Rightarrow> bytes \<Rightarrow> (byte \<times> bytes) list \<Rightarrow> (byte \<times> bytes) list \<Rightarrow> (byte \<times> bytes) list" where
  "finishedBy g key before ms = ms @ [(HandshakeTypeFinished, computeHMACSM3 g key (tsOf (before @ ms)))]"

definition serverMsgs :: "gmsm \<Rightarrow> agreed \<Rightarrow> Config \<Rightarrow> bool \<Rightarrow> bytes \<Rightarrow> bytes \<Rightarrow> (byte \<times> bytes) list" where
  "serverMsgs g a cfg m pem sig = finishedBy g (hk_ServerFinishedKey (ag_keys a)) (hellosOf a cfg)
     ((HandshakeTypeEncryptedExtensions, if m then [1] else [0]) # certMsgs pem sig)"

definition clientMsgs :: "gmsm \<Rightarrow> agreed \<Rightarrow> (byte \<times> bytes) list \<Rightarrow> (byte \<times> bytes) list \<Rightarrow> (byte \<times> bytes) list" where
  "clientMsgs g a before own = finishedBy g (hk_ClientFinishedKey (ag_keys a)) before own"

text \<open>What an endpoint sends of its own, and what it accepts of the peer.\<close>

definition ownCertificate :: "gmsm \<Rightarrow> hsEnv \<Rightarrow> gocontext \<Rightarrow> Config \<Rightarrow> bytes \<Rightarrow> bytes \<Rightarrow> bytes \<Rightarrow> bool" where
  "ownCertificate g env ctx cfg ts pem sig \<longleftrightarrow>
     (\<exists>priv. credential g env ctx cfg pem priv \<and>
        sm2_Sign g priv (ts @ encodeHandshakeMsg HandshakeTypeCertificate pem) (hx_sign env) = Inr sig)"

definition acceptsPeer :: "gmsm \<Rightarrow> hsEnv \<Rightarrow> Config \<Rightarrow> bytes \<Rightarrow> bytes \<Rightarrow> bytes \<Rightarrow> CSVEvidenceExtension option \<Rightarrow> gcert \<Rightarrow> bool" where
  "acceptsPeer g env cfg ts pem sig ev c \<longleftrightarrow>
     VerifyPeerCertificateAndEvidence g (hx_fs env) (hx_verifyNow env) pem (Some cfg) = Inr ev \<and>
     gx509_ReadCertificateFromPem g pem = Inr c \<and>
     (\<exists>pub. extractSM2PublicKey (gc_PublicKey c) = Inr pub \<and>
        sm2_Verify g pub (ts @ encodeHandshakeMsg HandshakeTypeCertificate pem) sig)"

section \<open>The remaining phases\<close>

lemma prepareCertificate_run:
  "credential g env ctx (cfgOf s) pem priv \<Longrightarrow> \<exists>c. prepareCertificate g env ctx s = (Inr (pem, priv), s\<lparr>hs_cfg := c\<rparr>)"
  by (auto simp: credential_def prepareCertificate_def bindIO_def wrapIO_def onCfg_def)

lemma sendFinished_run:
  assumes "linked rc base sent pend rest se s" "tag = computeHMACSM3 g key (ts_buf (se_ts se))"
    and "length (tsOf (sent @ [(HandshakeTypeFinished, tag)])) < 2 ^ 63"
  shows "\<exists>se' s'. sendFinished g key lbl se s = (Inr se', s') \<and>
    linked rc base (sent @ [(HandshakeTypeFinished, tag)]) pend rest se' s' \<and>
    extends se [(HandshakeTypeFinished, tag)] se' \<and> hs_cfg s' = hs_cfg s"
  using linked_send[OF assms(1,3), of lbl] assms(2) by (simp add: sendFinished_def)

lemma clientReadExtensions_run:
  assumes l: "linked rc base sent (encodeHandshakeMsg HandshakeTypeEncryptedExtensions (if m then [1] else [0]) @ pend) rest se s"
    and fits: "length (encodeHandshakeMsg HandshakeTypeEncryptedExtensions (if m then [1] else [0]) @ pend) \<le> maxHandshakeBufferSize"
    and m: "cf_VerifyMutualAttestation cfg \<Longrightarrow> m"
      "m \<Longrightarrow> cf_VerifyMutualAttestation cfg \<or> cf_EvidenceProvider cfg \<noteq> None \<or> cf_CertPEM cfg \<noteq> [] \<and> cf_KeyPEM cfg \<noteq> []"
  shows "\<exists>se' s'. clientReadExtensions cfg se s = (Inr (m, se'), s') \<and> linked rc base sent pend rest se' s' \<and>
    extends se [(HandshakeTypeEncryptedExtensions, if m then [1] else [0])] se' \<and> hs_cfg s' = hs_cfg s"
proof -
  let ?b = "if m then [1] else [0 :: byte]"
  obtain se1 s1 where r: "expectMsg HandshakeTypeEncryptedExtensions ''teetls: read EncryptedExtensions''
       ''teetls: expected EncryptedExtensions (8)'' se s = (Inr (?b, se1), s1)"
    "linked rc base sent pend rest se1 s1" "extends se [] se1" "hs_cfg s1 = hs_cfg s"
    using linked_recv[OF l fits, of "''teetls: read EncryptedExtensions''" "''teetls: expected EncryptedExtensions (8)''"] by blast
  have b: "(0 < length ?b \<and> ?b ! 0 = 1) = m" by simp
  have run: "clientReadExtensions cfg se s = (Inr (m, record_ts HandshakeTypeEncryptedExtensions ?b se1), s1)"
    using r(1) m by (auto simp: clientReadExtensions_def bindIO_def Let_def)
  show ?thesis
    using run r(2,4) extends_record[OF r(3), of HandshakeTypeEncryptedExtensions ?b] by auto
qed

lemma clientSendCertificate_run:
  assumes l: "linked rc base sent pend rest se s"
    and own: "if m then \<exists>pem sig. own = certMsgs pem sig \<and> ownCertificate g env ctx (cfgOf s) (ts_buf (se_ts se)) pem sig else own = []"
    and small: "length (tsOf (sent @ own)) < 2 ^ 63"
  shows "\<exists>se' s'. clientSendCertificate g env ctx m se s = (Inr se', s') \<and> linked rc base (sent @ own) pend rest se' s' \<and>
    extends se own se'"
proof (cases m)
  case True
  with own obtain pem sig priv where o: "own = certMsgs pem sig" and cr: "credential g env ctx (cfgOf s) pem priv"
    and sg: "sm2_Sign g priv (ts_buf (se_ts se) @ encodeHandshakeMsg HandshakeTypeCertificate pem) (hx_sign env) = Inr sig"
    by (auto simp: ownCertificate_def)
  obtain c where p: "prepareCertificate g env ctx s = (Inr (pem, priv), s\<lparr>hs_cfg := c\<rparr>)" using prepareCertificate_run[OF cr] by blast
  have l': "linked rc base sent pend rest se (s\<lparr>hs_cfg := c\<rparr>)" using l by simp
  have "length (tsOf (sent @ [(HandshakeTypeCertificate, pem), (HandshakeTypeCertificateVerify, sig)])) < 2 ^ 63"
    using small o by (simp add: certMsgs_def)
  from sendCertificate_run[OF l' sg this, of "''teetls: send client Certificate''" "''teetls: sign client transcript''"
      "''teetls: send client CertificateVerify''"] p True o show ?thesis
    by (auto simp: clientSendCertificate_def bindIO_def wrapIO_def certMsgs_def)
qed (use assms in \<open>simp add: clientSendCertificate_def\<close>)

section \<open>The run of the client\<close>

text \<open>The server's encrypted flight, read and accepted.\<close>

lemma client_flight_in:
  assumes l: "linked rc base [] (tsOf sm) rest se s" and sm: "sm = serverMsgs g a cfg m spem ssig"
    and se: "ts_buf (se_ts se) = tsOf (hellosOf a cfg)" "se_keys se = ag_keys a"
    and fits: "length (tsOf sm) \<le> maxHandshakeBufferSize"
    and m: "cf_VerifyMutualAttestation cfg \<Longrightarrow> m"
      "m \<Longrightarrow> cf_VerifyMutualAttestation cfg \<or> cf_EvidenceProvider cfg \<noteq> None \<or> cf_CertPEM cfg \<noteq> [] \<and> cf_KeyPEM cfg \<noteq> []"
    and acc: "acceptsPeer g env cfg (tsOf (hellosOf a cfg @ [(HandshakeTypeEncryptedExtensions, if m then [1] else [0])])) spem ssig ev c"
  shows "\<exists>se1 s1 se2 s2 se3 s3. clientReadExtensions cfg se s = (Inr (m, se1), s1) \<and>
    readPeerCertificate g env cfg clientPeerLabels se1 s1 = (Inr (spem, ev, c, se2), s2) \<and>
    readFinished g (hk_ServerFinishedKey (se_keys se2)) ''teetls: read Server Finished''
      ''teetls: server finished HMAC verification failed''
      ''teetls: unexpected trailing handshake data after server Finished'' se2 s2 = (Inr se3, s3) \<and>
    linked rc base [] [] rest se3 s3 \<and> extends se sm se3 \<and> hs_cfg s3 = hs_cfg s \<and>
    extends se [(HandshakeTypeEncryptedExtensions, if m then [1] else [0])] se1"
proof -
  let ?ee = "(HandshakeTypeEncryptedExtensions, if m then [1] else [0 :: byte])"
  let ?K = "hk_ServerFinishedKey (ag_keys a)"
  let ?tag = "computeHMACSM3 g ?K (tsOf (hellosOf a cfg @ ?ee # certMsgs spem ssig))"
  let ?rest = "tsOf (certMsgs spem ssig) @ encodeHandshakeMsg HandshakeTypeFinished ?tag"
  have sm': "sm = ?ee # certMsgs spem ssig @ [(HandshakeTypeFinished, ?tag)]" by (simp add: sm serverMsgs_def finishedBy_def)
  obtain se1 s1 where h3: "clientReadExtensions cfg se s = (Inr (m, se1), s1)"
    "linked rc base [] ?rest rest se1 s1" "extends se [?ee] se1" "hs_cfg s1 = hs_cfg s"
    using clientReadExtensions_run[of rc base "[]" m ?rest rest se s cfg] l fits m unfolding sm' by auto
  obtain pub where peer: "VerifyPeerCertificateAndEvidence g (hx_fs env) (hx_verifyNow env) spem (Some cfg) = Inr ev"
    "gx509_ReadCertificateFromPem g spem = Inr c" "extractSM2PublicKey (gc_PublicKey c) = Inr pub"
    "sm2_Verify g pub (ts_buf (se_ts se1) @ encodeHandshakeMsg HandshakeTypeCertificate spem) ssig"
    using acc h3(3) se by (auto simp: acceptsPeer_def extends_def)
  obtain se2 s2 where h4: "readPeerCertificate g env cfg clientPeerLabels se1 s1 = (Inr (spem, ev, c, se2), s2)"
    "linked rc base [] (encodeHandshakeMsg HandshakeTypeFinished ?tag) rest se2 s2"
    "extends se1 (certMsgs spem ssig) se2" "hs_cfg s2 = hs_cfg s1"
    using readPeerCertificate_run[OF h3(2)[unfolded certMsgs_def] _ peer, of clientPeerLabels] fits
    unfolding sm' by (auto simp: certMsgs_def)
  have e2: "extends se (?ee # certMsgs spem ssig) se2" using extends_trans[OF h3(3) h4(3)] by simp
  then have k2: "se_keys se2 = ag_keys a" and tag: "?tag = computeHMACSM3 g ?K (ts_buf (se_ts se2))"
    using se by (simp_all add: extends_def)
  obtain se3 s3 where h5: "readFinished g ?K ''teetls: read Server Finished'' ''teetls: server finished HMAC verification failed''
      ''teetls: unexpected trailing handshake data after server Finished'' se2 s2 = (Inr se3, s3)"
    "linked rc base [] [] rest se3 s3" "extends se2 [(HandshakeTypeFinished, ?tag)] se3" "hs_cfg s3 = hs_cfg s2"
    using readFinished_run[OF h4(2) _ tag, of "''teetls: read Server Finished''" "''teetls: server finished HMAC verification failed''"
        "''teetls: unexpected trailing handshake data after server Finished''"] fits unfolding sm' by auto
  have "extends se sm se3" using extends_trans[OF e2 h5(3)] unfolding sm' by simp
  with h3(1,3,4) h4(1,4) h5 k2 show ?thesis by metis
qed

text \<open>The bytes that the server signs in such a run.\<close>

definition signedBytes :: "agreed \<Rightarrow> Config \<Rightarrow> bool \<Rightarrow> bytes \<Rightarrow> bytes" where
  "signedBytes a cfg m spem = tsOf (hellosOf a cfg @ [(HandshakeTypeEncryptedExtensions, if m then [1] else [0]), (HandshakeTypeCertificate, spem)])"

text \<open>The client's own flight.\<close>

lemma client_flight_out:
  assumes l: "linked rc base [] [] rest se s" and cm: "cm = clientMsgs g a before own"
    and se: "ts_buf (se_ts se) = tsOf before" "se_keys se = ag_keys a"
    and fits: "length (tsOf cm) \<le> maxHandshakeBufferSize"
    and own: "if m then \<exists>pem sig. own = certMsgs pem sig \<and> ownCertificate g env ctx (cfgOf s) (tsOf before) pem sig else own = []"
  shows "\<exists>se1 s1 se2 s2. clientSendCertificate g env ctx m se s = (Inr se1, s1) \<and>
    sendFinished g (hk_ClientFinishedKey (se_keys se1)) ''teetls: send Client Finished'' se1 s1 = (Inr se2, s2) \<and>
    linked rc base cm [] rest se2 s2 \<and> extends se cm se2"
proof -
  let ?L = "hk_ClientFinishedKey (ag_keys a)"
  have small: "length (tsOf own) < 2 ^ 63" "length (tsOf cm) < 2 ^ 63" using fits by (simp_all add: cm clientMsgs_def finishedBy_def)
  obtain se1 s1 where h6: "clientSendCertificate g env ctx m se s = (Inr se1, s1)"
    "linked rc base own [] rest se1 s1" "extends se own se1"
    using clientSendCertificate_run[OF l own[folded se(1)]] small(1) by auto
  have k: "se_keys se1 = ag_keys a" and cm': "cm = own @ [(HandshakeTypeFinished, computeHMACSM3 g ?L (ts_buf (se_ts se1)))]"
    using h6(3) se by (simp_all add: cm clientMsgs_def finishedBy_def extends_def)
  obtain se2 s2 where "sendFinished g ?L ''teetls: send Client Finished'' se1 s1 = (Inr se2, s2)"
    "linked rc base cm [] rest se2 s2" "extends se1 [(HandshakeTypeFinished, computeHMACSM3 g ?L (ts_buf (se_ts se1)))] se2"
    using sendFinished_run[OF h6(2) refl, of g ?L "''teetls: send Client Finished''"] small(2) cm' by auto
  moreover from this(3) have "extends se cm se2" using extends_trans[OF h6(3)] cm' by simp
  ultimately show ?thesis using h6(1) k by metis
qed

lemma client_run:
  assumes ag: "agreement g cenv senv a" and cfg: "cfg = cfgOf s" and val: "Validate cfg = Inr ()" and wr: "wr (hs_net s) = []"
    and rx: "rx (hs_net s) = plainRecord (3, 3) (encodeHandshakeMsg HandshakeTypeServerHello (helloOfServer a)) @
      sealStream (ag_server a) (flight sm) @ rest"
    and sm: "sm = serverMsgs g a cfg m spem ssig" and cm: "cm = clientMsgs g a (hellosOf a cfg @ sm) own"
    and fits: "length (tsOf sm) \<le> maxHandshakeBufferSize" "length (tsOf cm) \<le> maxHandshakeBufferSize"
    and m: "cf_VerifyMutualAttestation cfg \<Longrightarrow> m"
      "m \<Longrightarrow> cf_VerifyMutualAttestation cfg \<or> cf_EvidenceProvider cfg \<noteq> None \<or> cf_CertPEM cfg \<noteq> [] \<and> cf_KeyPEM cfg \<noteq> []"
    and acc: "acceptsPeer g cenv cfg (tsOf (hellosOf a cfg @ [(HandshakeTypeEncryptedExtensions, if m then [1] else [0])])) spem ssig ev c"
    and own: "if m then \<exists>pem sig. own = certMsgs pem sig \<and>
        ownCertificate g cenv (case ctxp of None \<Rightarrow> contextBackground | Some x \<Rightarrow> x) cfg (tsOf (hellosOf a cfg @ sm)) pem sig else own = []"
    and app: "appCiphers g (ag_secret a) (tsOf (hellosOf a cfg @ sm @ cm)) cc sc"
  shows "\<exists>s'. ClientHandshakeContext g cenv ctxp s = (Inr \<lparr>hr_InCipher = sc, hr_OutCipher = cc, hr_PeerCertPEM = spem,
        hr_PeerEvidence = ev, hr_PeerCertificate = Some c\<rparr>, s') \<and>
    tx (hs_net s') = tx (hs_net s) @ plainRecord (3, 3) (encodeHandshakeMsg HandshakeTypeClientHello (helloOfClient a cfg)) @
      sealStream (ag_client a) (flight cm) \<and>
    rx (hs_net s') = rest \<and> wr (hs_net s') = [] \<and> fst (clientToVerify g cenv s) = Inr (signedBytes a cfg m spem)"
proof -
  let ?ctx = "case ctxp of None \<Rightarrow> contextBackground | Some x \<Rightarrow> x"
  let ?ch = "plainRecord (3, 3) (encodeHandshakeMsg HandshakeTypeClientHello (helloOfClient a cfg))"
  let ?ts = "transcriptWrite emptyTranscript HandshakeTypeClientHello (helloOfClient a cfg)"
  let ?n1 = "(hs_net s)\<lparr>tx := tx (hs_net s) @ ?ch\<rparr>"
  let ?n2 = "?n1\<lparr>rx := sealStream (ag_server a) (flight sm) @ rest\<rparr>"
  let ?se0 = "sessionOf a cfg (ag_server a) (ag_client a)" and ?s1 = "s\<lparr>hs_net := ?n1\<rparr>" and ?s2 = "s\<lparr>hs_net := ?n2\<rparr>"
  note ciphers = agreement_ciphers[OF ag]
  have h1: "clientSendHello g cenv cfg s = (Inr (ag_cpriv a, ag_cr a, ?ts), ?s1)"
    by (rule clientSendHello_run[OF ag wr])
  have h2: "clientReadHello g (ag_cpriv a) (ag_cr a) ?ts ?s1 = (Inr ?se0, ?s2)"
    using clientReadHello_run[OF ag, of ?s1 "sealStream (ag_server a) (flight sm) @ rest" cfg] rx by simp
  have l0: "linked (ag_client a) (tx ?n2) [] (tsOf sm) rest ?se0 ?s2"
    by (rule linked_start) (use wr ciphers fits(1) in simp_all)
  have ts0: "ts_buf (se_ts ?se0) = tsOf (hellosOf a cfg)" "se_keys ?se0 = ag_keys a" by simp_all
  from client_flight_in[OF l0 sm ts0 fits(1) m acc] obtain se1 s3 se2 s4 se3 s5 where
    h3: "clientReadExtensions cfg ?se0 ?s2 = (Inr (m, se1), s3)"
      "readPeerCertificate g cenv cfg clientPeerLabels se1 s3 = (Inr (spem, ev, c, se2), s4)"
      "readFinished g (hk_ServerFinishedKey (se_keys se2)) ''teetls: read Server Finished''
        ''teetls: server finished HMAC verification failed''
        ''teetls: unexpected trailing handshake data after server Finished'' se2 s4 = (Inr se3, s5)"
    and l3: "linked (ag_client a) (tx ?n2) [] [] rest se3 s5" "extends ?se0 sm se3" "hs_cfg s5 = hs_cfg ?s2"
    and e1: "extends ?se0 [(HandshakeTypeEncryptedExtensions, if m then [1] else [0])] se1"
    by blast
  have se3: "ts_buf (se_ts se3) = tsOf (hellosOf a cfg @ sm)" "se_keys se3 = ag_keys a" "cfgOf s5 = cfg"
    using l3(2,3) cfg by (simp_all add: extends_def cfgOf_def)
  obtain se4 s6 se5 s7 where h6: "clientSendCertificate g cenv ?ctx m se3 s5 = (Inr se4, s6)"
      "sendFinished g (hk_ClientFinishedKey (se_keys se4)) ''teetls: send Client Finished'' se4 s6 = (Inr se5, s7)"
    and l5: "linked (ag_client a) (tx ?n2) cm [] rest se5 s7" "extends se3 cm se5"
    using client_flight_out[OF l3(1) cm se3(1,2) fits(2), of m cenv ?ctx] own se3(3) by metis
  have h8: "clientResult g spem ev c se5 s7 = (Inr \<lparr>hr_InCipher = sc, hr_OutCipher = cc, hr_PeerCertPEM = spem,
        hr_PeerEvidence = ev, hr_PeerCertificate = Some c\<rparr>, s7)"
    unfolding clientResult_Inr using l5(2) l3(2) se3 app by (auto simp: extends_def)
  have "ClientHandshakeContext g cenv ctxp s = clientResult g spem ev c se5 s7"
    unfolding ClientHandshakeContext_def Let_def cfg[symmetric]
    using val h1 h2 h3 h6 by (simp add: bindIO_def wrapIO_def)
  moreover have "fst (clientToVerify g cenv s) = Inr (signedBytes a cfg m spem)"
    using clientToVerify_Inr[OF h1[unfolded cfg] h2[unfolded cfg] h3(1)[unfolded cfg] h3(2)] e1 ts0(1)
    by (simp add: extends_def signedBytes_def cfg split del: if_split)
  moreover have "tx (hs_net s7) = tx (hs_net s) @ ?ch @ sealStream (ag_client a) (flight cm)" "rx (hs_net s7) = rest" "wr (hs_net s7) = []"
    using l5(1) linked_done[OF l5(1)] by (simp_all add: linked_def)
  ultimately show ?thesis using h8 by auto
qed

section \<open>The run of the server\<close>

lemma serverReadHello_run:
  assumes ag: "agreement g cenv senv a"
    and rx: "rx (hs_net s) = plainRecord (3, 3) (encodeHandshakeMsg HandshakeTypeClientHello (helloOfClient a cfg)) @ rest"
  shows "serverReadHello g s = (Inr (ag_cr a, sk_pub (ag_cpriv a), cf_VerifyMutualAttestation cfg,
      transcriptWrite emptyTranscript HandshakeTypeClientHello (helloOfClient a cfg)), s\<lparr>hs_net := (hs_net s)\<lparr>rx := rest\<rparr>\<rparr>)"
proof -
  note h = hello_fields[OF ag]
  have "readPlaintextHandshakeMsg (hs_net s) = (Inr (HandshakeTypeClientHello, helloOfClient a cfg,
      encodeHandshakeMsg HandshakeTypeClientHello (helloOfClient a cfg)), (hs_net s)\<lparr>rx := rest\<rparr>)"
    using plaintext_hello[OF rx] h(1) by simp
  moreover have "decodePublicKeySM2 g (slice (helloOfClient a cfg) 32 97) = Inr (sk_pub (ag_cpriv a))"
    using ag h(3) by (simp add: agreement_def)
  ultimately show ?thesis using h(1,2,4)
    by (simp add: serverReadHello_def bindIO_def wrapIO_def onNet_def Let_def)
qed

lemma serverSendHello_run:
  assumes ag: "agreement g cenv senv a" and wr: "wr (hs_net s) = []"
  shows "serverSendHello g senv (ag_cr a) (sk_pub (ag_cpriv a))
      (transcriptWrite emptyTranscript HandshakeTypeClientHello (helloOfClient a cfg)) s =
    (Inr (sessionOf a cfg (ag_client a) (ag_server a)),
     s\<lparr>hs_net := (hs_net s)\<lparr>tx := tx (hs_net s) @ plainRecord (3, 3) (encodeHandshakeMsg HandshakeTypeServerHello (helloOfServer a))\<rparr>\<rparr>)"
proof -
  obtain r where r: "hx_rand senv 32 = Inr r" "ag_sr a = copy_at (replicate 32 0) 0 r"
    and k: "sm2_GenerateKey g (hx_key senv) = Inr (ag_spriv a)" "encodePublicKeySM2 (sk_pub (ag_spriv a)) = Some (ag_spub a)"
    and keys: "sessionKeys g (sk_pub (ag_cpriv a)) (ag_spriv a) (ag_cr a) (ag_sr a) = Inr (ag_secret a, ag_keys a, ag_server a, ag_client a)"
    using ag by (auto simp: agreement_def)
  have "4 + length (helloOfServer a) \<le> 16384" using hello_fields(5)[OF ag] by simp
  from plainRecord_writes[OF wr this] r k keys show ?thesis
    by (simp add: serverSendHello_def ephemeralKey_def helloRandom_def bindIO_def wrapIO_def Let_def onNet_def helloOfServer_def sessionOf_def)
qed

lemma serverSendFlight_run:
  assumes l: "linked rc base [] pend rest se s" and sm: "sm = serverMsgs g a cfg m pem sig"
    and se: "ts_buf (se_ts se) = tsOf (hellosOf a cfg)" "se_keys se = ag_keys a"
    and sign: "sm2_Sign g priv (tsOf (hellosOf a cfg @ [(HandshakeTypeEncryptedExtensions, if m then [1] else [0]),
        (HandshakeTypeCertificate, pem)])) (hx_sign env) = Inr sig"
    and small: "length (tsOf sm) \<le> maxHandshakeBufferSize"
  shows "\<exists>se' s'. serverSendFlight g env m pem priv se s = (Inr se', s') \<and> linked rc base sm pend rest se' s' \<and>
    extends se sm se' \<and> hs_cfg s' = hs_cfg s"
proof -
  let ?ee = "(HandshakeTypeEncryptedExtensions, if m then [1] else [0 :: byte])"
  let ?K = "hk_ServerFinishedKey (ag_keys a)"
  let ?tag = "computeHMACSM3 g ?K (tsOf (hellosOf a cfg @ ?ee # certMsgs pem sig))"
  have sm': "sm = ?ee # certMsgs pem sig @ [(HandshakeTypeFinished, ?tag)]" by (simp add: sm serverMsgs_def finishedBy_def)
  have len: "length (if m then [1] else [0 :: byte]) = 1" by simp
  obtain se1 s1 where h1: "sendMsg HandshakeTypeEncryptedExtensions ''teetls: send EncryptedExtensions'' (snd ?ee) se s = (Inr se1, s1)"
    "linked rc base [?ee] pend rest se1 s1" "extends se [?ee] se1" "hs_cfg s1 = hs_cfg s"
    using linked_send[OF l, of HandshakeTypeEncryptedExtensions "snd ?ee" "''teetls: send EncryptedExtensions''"] len by auto
  have sg: "sm2_Sign g priv (ts_buf (se_ts se1) @ encodeHandshakeMsg HandshakeTypeCertificate pem) (hx_sign env) = Inr sig"
    using sign h1(3) se(1) by (simp add: extends_def)
  obtain se2 s2 where h2: "sendCertificate g env ''teetls: send server Certificate'' ''teetls: sign server transcript''
       ''teetls: send server CertificateVerify'' pem priv se1 s1 = (Inr se2, s2)"
    "linked rc base (?ee # certMsgs pem sig) pend rest se2 s2" "extends se1 (certMsgs pem sig) se2" "hs_cfg s2 = hs_cfg s1"
    using sendCertificate_run[OF h1(2) sg, of "''teetls: send server Certificate''" "''teetls: sign server transcript''"
       "''teetls: send server CertificateVerify''"] small unfolding sm' by (auto simp: certMsgs_def)
  have e2: "extends se (?ee # certMsgs pem sig) se2" using extends_trans[OF h1(3) h2(3)] by simp
  then have k2: "se_keys se2 = ag_keys a" and tag: "?tag = computeHMACSM3 g ?K (ts_buf (se_ts se2))"
    using se by (simp_all add: extends_def)
  obtain se3 s3 where h3: "sendFinished g ?K ''teetls: send Server Finished'' se2 s2 = (Inr se3, s3)"
    "linked rc base sm pend rest se3 s3" "extends se2 [(HandshakeTypeFinished, ?tag)] se3" "hs_cfg s3 = hs_cfg s2"
    using sendFinished_run[OF h2(2) tag, of "''teetls: send Server Finished''"] small unfolding sm' by auto
  have "serverSendFlight g env m pem priv se s = (Inr se3, s3)"
    using h1(1) h2(1) h3(1) k2 by (simp add: serverSendFlight_def bindIO_def)
  moreover have "extends se sm se3" using extends_trans[OF e2 h3(3)] unfolding sm' by simp
  ultimately show ?thesis using h3(2,4) h2(4) h1(4) by auto
qed

text \<open>The client's flight, with its certificate when mutual attestation is negotiated.\<close>

lemma server_flight_in:
  assumes l: "linked rc base sent (tsOf cm) rest se s" and cm: "cm = clientMsgs g a before own"
    and se: "ts_buf (se_ts se) = tsOf before" "se_keys se = ag_keys a"
    and fits: "length (tsOf cm) \<le> maxHandshakeBufferSize"
    and peer: "if m then \<exists>sig gc. own = certMsgs pem sig \<and> c = Some gc \<and> acceptsPeer g env cfg (tsOf before) pem sig ev gc
      else own = [] \<and> pem = [] \<and> ev = None \<and> c = None"
  shows "\<exists>se1 s1 se2 s2. serverReadCertificate g env cfg m se s = (Inr (pem, ev, c, se1), s1) \<and>
    readFinished g (hk_ClientFinishedKey (se_keys se1)) ''teetls: read Client Finished''
      ''teetls: client finished HMAC verification failed''
      ''teetls: unexpected trailing handshake data after client Finished'' se1 s1 = (Inr se2, s2) \<and>
    linked rc base sent [] rest se2 s2 \<and> extends se cm se2"
proof -
  let ?L = "hk_ClientFinishedKey (ag_keys a)"
  let ?tag = "computeHMACSM3 g ?L (tsOf (before @ own))"
  have cm': "cm = own @ [(HandshakeTypeFinished, ?tag)]" by (simp add: cm clientMsgs_def finishedBy_def)
  have "\<exists>se1 s1. serverReadCertificate g env cfg m se s = (Inr (pem, ev, c, se1), s1) \<and>
      linked rc base sent (encodeHandshakeMsg HandshakeTypeFinished ?tag) rest se1 s1 \<and> extends se own se1"
  proof (cases m)
    case True
    with peer obtain sig gc pub where o: "own = certMsgs pem sig" "c = Some gc"
      and p: "VerifyPeerCertificateAndEvidence g (hx_fs env) (hx_verifyNow env) pem (Some cfg) = Inr ev"
        "gx509_ReadCertificateFromPem g pem = Inr gc" "extractSM2PublicKey (gc_PublicKey gc) = Inr pub"
        "sm2_Verify g pub (ts_buf (se_ts se) @ encodeHandshakeMsg HandshakeTypeCertificate pem) sig"
      using se(1) by (auto simp: acceptsPeer_def)
    have "linked rc base sent (tsOf [(HandshakeTypeCertificate, pem), (HandshakeTypeCertificateVerify, sig)] @
        encodeHandshakeMsg HandshakeTypeFinished ?tag) rest se s" using l unfolding cm' o(1) by (simp add: certMsgs_def)
    from readPeerCertificate_run[OF this _ p, of serverPeerLabels] fits True o show ?thesis
      unfolding cm' by (auto simp: serverReadCertificate_def bindIO_def certMsgs_def)
  qed (use l peer in \<open>auto simp: cm' serverReadCertificate_def\<close>)
  then obtain se1 s1 where h: "serverReadCertificate g env cfg m se s = (Inr (pem, ev, c, se1), s1)"
    "linked rc base sent (encodeHandshakeMsg HandshakeTypeFinished ?tag) rest se1 s1" "extends se own se1" by blast
  have k: "se_keys se1 = ag_keys a" and tag: "?tag = computeHMACSM3 g ?L (ts_buf (se_ts se1))"
    using h(3) se by (simp_all add: extends_def)
  obtain se2 s2 where f: "readFinished g ?L ''teetls: read Client Finished'' ''teetls: client finished HMAC verification failed''
      ''teetls: unexpected trailing handshake data after client Finished'' se1 s1 = (Inr se2, s2)"
    "linked rc base sent [] rest se2 s2" "extends se1 [(HandshakeTypeFinished, ?tag)] se2"
    using readFinished_run[OF h(2) _ tag, of "''teetls: read Client Finished''" "''teetls: client finished HMAC verification failed''"
      "''teetls: unexpected trailing handshake data after client Finished''"] fits unfolding cm' by auto
  have "extends se cm se2" using extends_trans[OF h(3) f(3)] unfolding cm' by simp
  with h(1) f(1,2) k show ?thesis by metis
qed

lemma deferred_deadline [simp]:
  "tx (hs_net (snd (onNet (setDeadline t) s))) = tx (hs_net s)" "rx (hs_net (snd (onNet (setDeadline t) s))) = rx (hs_net s)"
  "wr (hs_net (snd (onNet (setDeadline t) s))) = wr (hs_net s)"
  by (simp_all add: onNet_def setDeadline_def split: option.splits)

lemma server_run:
  assumes ag: "agreement g cenv senv a" and cfg: "scfg = cfgOf s" and val: "Validate scfg = Inr ()"
    and line: "wr (hs_net s) = []" "dl_err (hs_net s) = None"
    and rx: "rx (hs_net s) = plainRecord (3, 3) (encodeHandshakeMsg HandshakeTypeClientHello (helloOfClient a ccfg)) @
      sealStream (ag_client a) (flight cm) @ rest"
    and m: "m = (cf_VerifyMutualAttestation scfg \<or> cf_VerifyMutualAttestation ccfg)"
    and sm: "sm = serverMsgs g a ccfg m spem ssig" and cm: "cm = clientMsgs g a (hellosOf a ccfg @ sm) own"
    and fits: "length (tsOf sm) \<le> maxHandshakeBufferSize" "length (tsOf cm) \<le> maxHandshakeBufferSize"
    and cert: "ownCertificate g senv (case ctxp of None \<Rightarrow> contextBackground | Some x \<Rightarrow> x) scfg
        (tsOf (hellosOf a ccfg @ [(HandshakeTypeEncryptedExtensions, if m then [1] else [0])])) spem ssig"
    and peer: "if m then \<exists>sig gc. own = certMsgs pem sig \<and> c = Some gc \<and>
        acceptsPeer g senv scfg (tsOf (hellosOf a ccfg @ sm)) pem sig ev gc else own = [] \<and> pem = [] \<and> ev = None \<and> c = None"
    and app: "appCiphers g (ag_secret a) (tsOf (hellosOf a ccfg @ sm @ cm)) cc sc"
  shows "\<exists>s'. ServerHandshakeContext g senv ctxp s = (Inr \<lparr>hr_InCipher = cc, hr_OutCipher = sc, hr_PeerCertPEM = pem,
        hr_PeerEvidence = ev, hr_PeerCertificate = c\<rparr>, s') \<and>
    tx (hs_net s') = tx (hs_net s) @ plainRecord (3, 3) (encodeHandshakeMsg HandshakeTypeServerHello (helloOfServer a)) @
      sealStream (ag_server a) (flight sm) \<and>
    rx (hs_net s') = rest \<and> wr (hs_net s') = [] \<and> fst (serverToSign g senv ctxp s) = Inr (signedBytes a ccfg m spem)"
proof -
  let ?ctx = "case ctxp of None \<Rightarrow> contextBackground | Some x \<Rightarrow> x" and ?t = "hx_now senv + timeout scfg"
  let ?sh = "plainRecord (3, 3) (encodeHandshakeMsg HandshakeTypeServerHello (helloOfServer a))"
  let ?n0 = "(hs_net s)\<lparr>deadline := ?t, wdeadline := ?t\<rparr>" and ?in = "sealStream (ag_client a) (flight cm) @ rest"
  let ?n2 = "?n0\<lparr>rx := ?in, tx := tx (hs_net s) @ ?sh\<rparr>" and ?se0 = "sessionOf a ccfg (ag_client a) (ag_server a)"
  note ciphers = agreement_ciphers[OF ag]
  obtain priv where priv: "credential g senv ?ctx scfg spem priv"
    and sign: "sm2_Sign g priv (tsOf (hellosOf a ccfg @ [(HandshakeTypeEncryptedExtensions, if m then [1] else [0]),
        (HandshakeTypeCertificate, spem)])) (hx_sign senv) = Inr ssig"
    using cert by (auto simp: ownCertificate_def)
  have "credential g senv ?ctx (cfgOf (s\<lparr>hs_net := ?n0\<rparr>)) spem priv" using priv by (simp add: cfg cfgOf_def)
  from prepareCertificate_run[OF this] obtain c1 where
    h0: "prepareCertificate g senv ?ctx (s\<lparr>hs_net := ?n0\<rparr>) = (Inr (spem, priv), s\<lparr>hs_net := ?n0, hs_cfg := c1\<rparr>)" by auto
  let ?s1 = "s\<lparr>hs_net := ?n0, hs_cfg := c1\<rparr>" and ?s3 = "s\<lparr>hs_net := ?n2, hs_cfg := c1\<rparr>"
  have h1: "serverReadHello g ?s1 = (Inr (ag_cr a, sk_pub (ag_cpriv a), cf_VerifyMutualAttestation ccfg,
      transcriptWrite emptyTranscript HandshakeTypeClientHello (helloOfClient a ccfg)), s\<lparr>hs_net := ?n0\<lparr>rx := ?in\<rparr>, hs_cfg := c1\<rparr>)"
    using serverReadHello_run[OF ag, of ?s1 ccfg ?in] rx by simp
  have h2: "serverSendHello g senv (ag_cr a) (sk_pub (ag_cpriv a))
      (transcriptWrite emptyTranscript HandshakeTypeClientHello (helloOfClient a ccfg)) (s\<lparr>hs_net := ?n0\<lparr>rx := ?in\<rparr>, hs_cfg := c1\<rparr>) =
      (Inr ?se0, ?s3)"
    using serverSendHello_run[OF ag, of "s\<lparr>hs_net := ?n0\<lparr>rx := ?in\<rparr>, hs_cfg := c1\<rparr>" ccfg] line(1) by simp
  have "linked (ag_server a) (tx ?n2) [] (tsOf cm) rest ?se0 (s\<lparr>hs_net := ?n2\<rparr>)"
    by (rule linked_start) (use line(1) ciphers fits(2) in simp_all)
  then have l0: "linked (ag_server a) (tx ?n2) [] (tsOf cm) rest ?se0 ?s3" by simp
  have ts0: "ts_buf (se_ts ?se0) = tsOf (hellosOf a ccfg)" "se_keys ?se0 = ag_keys a" by simp_all
  obtain se1 s4 where h3: "serverSendFlight g senv m spem priv ?se0 ?s3 = (Inr se1, s4)"
    and l1: "linked (ag_server a) (tx ?n2) sm (tsOf cm) rest se1 s4" "extends ?se0 sm se1"
    using serverSendFlight_run[OF l0 sm ts0 sign fits(1)] by blast
  have ts1: "ts_buf (se_ts se1) = tsOf (hellosOf a ccfg @ sm)" "se_keys se1 = ag_keys a"
    using l1(2) by (simp_all add: extends_def)
  obtain se2 s5 se3 s6 where h4: "serverReadCertificate g senv scfg m se1 s4 = (Inr (pem, ev, c, se2), s5)"
      "readFinished g (hk_ClientFinishedKey (se_keys se2)) ''teetls: read Client Finished''
        ''teetls: client finished HMAC verification failed''
        ''teetls: unexpected trailing handshake data after client Finished'' se2 s5 = (Inr se3, s6)"
    and l3: "linked (ag_server a) (tx ?n2) sm [] rest se3 s6" "extends se1 cm se3"
    using server_flight_in[OF l1(1) cm ts1 fits(2) peer] by blast
  let ?res = "\<lparr>hr_InCipher = cc, hr_OutCipher = sc, hr_PeerCertPEM = pem, hr_PeerEvidence = ev, hr_PeerCertificate = c\<rparr>"
  have h5: "serverResult g pem ev c se3 s6 = (Inr ?res, s6)"
    unfolding serverResult_Inr using l3(2) l1(2) ts1 app by (auto simp: extends_def)
  have "serverExchange g senv ?ctx scfg (s\<lparr>hs_net := ?n0\<rparr>) = (Inr ?res, s6)"
    unfolding serverExchange_def Let_def using h0 h1 h2 h3 h4 h5 m by (simp add: bindIO_def wrapIO_def)
  then have "ServerHandshakeContext g senv ctxp s = (Inr ?res, snd (onNet (setDeadline 0) s6))"
    unfolding ServerHandshakeContext_def Let_def cfg[symmetric]
    using val line(2) by (simp add: bindIO_def wrapIO_def onNet_step[of "setDeadline ?t" s "Inr ()" ?n0] setDeadline_def)
  moreover have "fst (serverToSign g senv ctxp s) = Inr (signedBytes a ccfg m spem)"
    unfolding serverToSign_def Let_def cfg[symmetric]
    using exchangeToSign_Inr[OF h0 h1 h2 h3[unfolded m]] ts0(1) m line(2)
    by (simp add: bindIO_def wrapIO_def onNet_step[of "setDeadline ?t" s "Inr ()" ?n0] setDeadline_def signedBytes_def split del: if_split)
  moreover have "tx (hs_net s6) = tx (hs_net s) @ ?sh @ sealStream (ag_server a) (flight sm)" "rx (hs_net s6) = rest" "wr (hs_net s6) = []"
    using l3(1) linked_done[OF l3(1)] by (simp_all add: linked_def)
  ultimately show ?thesis by auto
qed

section \<open>Two honest endpoints\<close>

text \<open>
  What a completed run needs of the packages outside the repository, all of it documented: generated SM2 keys are
  points of the curve with 256-bit coordinates, scalar multiplication commutes on them (the Diffie-Hellman equation),
  HKDF delivers at least the 120 bytes that are read, SM4 takes every 16-byte key and SM3 digests have 32 bytes.
\<close>

definition suiteDocumented :: "gmsm \<Rightarrow> bool" where
  "suiteDocumented g \<longleftrightarrow>
     (\<forall>r k. sm2_GenerateKey g r = Inr k \<longrightarrow> pk_X (sk_pub k) < 2 ^ 256 \<and> pk_Y (sk_pub k) < 2 ^ 256 \<and>
        sm2_IsOnCurve g (pk_X (sk_pub k)) (pk_Y (sk_pub k))) \<and>
     (\<forall>r k r' k'. sm2_GenerateKey g r = Inr k \<and> sm2_GenerateKey g r' = Inr k' \<longrightarrow>
        (\<exists>x < 2 ^ 256. sm2_ScalarMult g (pk_X (sk_pub k)) (pk_Y (sk_pub k)) (bigBytes (sk_D k')) = Some x \<and>
           sm2_ScalarMult g (pk_X (sk_pub k')) (pk_Y (sk_pub k')) (bigBytes (sk_D k)) = Some x)) \<and>
     (\<forall>secret salt info. 120 \<le> length (hkdf_Stream g secret salt info)) \<and>
     (\<forall>key. length key = 16 \<longrightarrow> (\<exists>E. sm4_NewCipher g key = Inr E)) \<and>
     (\<forall>x. length (sm3_Sum g x) = 32)"

lemma NewRecordCipher_total: "suiteDocumented g \<Longrightarrow> length key = 16 \<Longrightarrow> length iv = 12 \<Longrightarrow> \<exists>rc. NewRecordCipher g key iv = Inr rc"
  by (auto simp: NewRecordCipher_Inr suiteDocumented_def)

lemma appCiphers_total:
  assumes "suiteDocumented g"
  shows "\<exists>cc sc. appCiphers g secret ts cc sc"
proof -
  let ?st = "hkdf_Stream g secret (sm3_Sum g ts) (stringBytes ''tls13-rfc8998-sm4-gcm-sm3-application'')"
  have l: "120 \<le> length ?st" using assms by (simp add: suiteDocumented_def)
  obtain ak where ak: "deriveApplicationTrafficKeys g secret (sm3_Sum g ts) = Inr ak"
    "ak = \<lparr>ak_ClientWriteKey = slice ?st 0 16, ak_ClientWriteIV = slice ?st 16 28,
              ak_ServerWriteKey = slice ?st 28 44, ak_ServerWriteIV = slice ?st 44 56\<rparr>"
    using l by (simp add: deriveApplicationTrafficKeys_Inr)
  show ?thesis unfolding appCiphers_def using ak l
    NewRecordCipher_total[OF assms, of "slice ?st 0 16" "slice ?st 16 28"] NewRecordCipher_total[OF assms, of "slice ?st 28 44" "slice ?st 44 56"]
    by auto
qed

lemma sessionKeys_total:
  assumes doc: "suiteDocumented g" and sx: "sx < 2 ^ 256"
  shows "\<exists>secret keys sc cc. \<forall>pub priv. sm2_ScalarMult g (pk_X pub) (pk_Y pub) (bigBytes (sk_D priv)) = Some sx \<longrightarrow>
    sessionKeys g pub priv cr sr = Inr (secret, keys, sc, cc)"
proof -
  let ?b = "bigBytes sx"
  have lb: "length ?b \<le> 32" using length_bigBytes_le[of sx 32] sx by simp
  let ?secret = "copy_at (replicate 32 0) (32 - length ?b) ?b"
  let ?st = "hkdf_Stream g ?secret (cr @ sr) (stringBytes ''tls13-rfc8998-sm4-gcm-sm3-handshake'')"
  have l: "120 \<le> length ?st" using doc by (simp add: suiteDocumented_def)
  then obtain keys where keys: "deriveHandshakeTrafficKeys g ?secret cr sr = Inr keys"
    "keys = \<lparr>hk_ClientWriteKey = slice ?st 0 16, hk_ClientWriteIV = slice ?st 16 28,
              hk_ServerWriteKey = slice ?st 28 44, hk_ServerWriteIV = slice ?st 44 56,
              hk_ServerFinishedKey = slice ?st 56 88, hk_ClientFinishedKey = slice ?st 88 120\<rparr>"
    by (simp add: deriveHandshakeTrafficKeys_Inr)
  obtain sc cc where c: "NewRecordCipher g (hk_ServerWriteKey keys) (hk_ServerWriteIV keys) = Inr sc"
    "NewRecordCipher g (hk_ClientWriteKey keys) (hk_ClientWriteIV keys) = Inr cc"
    using NewRecordCipher_total[OF doc, of "slice ?st 28 44" "slice ?st 44 56"]
      NewRecordCipher_total[OF doc, of "slice ?st 0 16" "slice ?st 16 28"] l keys(2) by auto
  show ?thesis
    using keys(1) c lb by (intro exI[of _ ?secret] exI[of _ keys] exI[of _ sc] exI[of _ cc])
      (simp add: sessionKeys_Inr computeECDHESharedSecret_def Let_def)
qed

lemma agreement_exists:
  assumes doc: "suiteDocumented g" and keys: "sm2_GenerateKey g (hx_key cenv) = Inr ck" "sm2_GenerateKey g (hx_key senv) = Inr sk"
    and rand: "hx_rand cenv 32 = Inr cr" "hx_rand senv 32 = Inr sr"
  shows "\<exists>a. agreement g cenv senv a"
proof -
  have point: "\<exists>raw. encodePublicKeySM2 (sk_pub k) = Some raw \<and> decodePublicKeySM2 g raw = Inr (sk_pub k)"
    if "sm2_GenerateKey g r = Inr k" for r k
  proof -
    have "pk_X (sk_pub k) < 2 ^ 256" "pk_Y (sk_pub k) < 2 ^ 256" "sm2_IsOnCurve g (pk_X (sk_pub k)) (pk_Y (sk_pub k))"
      using doc that by (auto simp: suiteDocumented_def)
    then show ?thesis by (cases "sk_pub k") (simp add: encodePublicKeySM2_eq decodePublicKeySM2_Inr)
  qed
  obtain cpub spub where pub: "encodePublicKeySM2 (sk_pub ck) = Some cpub" "decodePublicKeySM2 g cpub = Inr (sk_pub ck)"
    "encodePublicKeySM2 (sk_pub sk) = Some spub" "decodePublicKeySM2 g spub = Inr (sk_pub sk)"
    using point[OF keys(1)] point[OF keys(2)] by blast
  obtain sx where sx: "sx < 2 ^ 256" "sm2_ScalarMult g (pk_X (sk_pub ck)) (pk_Y (sk_pub ck)) (bigBytes (sk_D sk)) = Some sx"
    "sm2_ScalarMult g (pk_X (sk_pub sk)) (pk_Y (sk_pub sk)) (bigBytes (sk_D ck)) = Some sx"
    using doc keys unfolding suiteDocumented_def by blast
  let ?cr = "copy_at (replicate 32 0) 0 cr" and ?sr = "copy_at (replicate 32 0) 0 sr"
  obtain secret hk sc cc where "sessionKeys g (sk_pub sk) ck ?cr ?sr = Inr (secret, hk, sc, cc)"
    "sessionKeys g (sk_pub ck) sk ?cr ?sr = Inr (secret, hk, sc, cc)"
    using sessionKeys_total[OF doc sx(1), of ?cr ?sr] sx(2,3) by blast
  then have "agreement g cenv senv \<lparr>ag_cpriv = ck, ag_spriv = sk, ag_cpub = cpub, ag_spub = spub, ag_cr = ?cr, ag_sr = ?sr,
      ag_secret = secret, ag_keys = hk, ag_server = sc, ag_client = cc\<rparr>"
    unfolding agreement_def using keys rand pub by simp
  then show ?thesis ..
qed

text \<open>
  The certificate and key an endpoint produces from its own configuration are recognised by its peer: the peer's
  verifier accepts the certificate, the signatures of the key verify under the key of the certificate, and the sizes
  are those of a certificate and of a signature.
\<close>

definition recognised ::
    "gmsm \<Rightarrow> hsEnv \<Rightarrow> gocontext option \<Rightarrow> Config \<Rightarrow> hsEnv \<Rightarrow> Config \<Rightarrow> bytes \<Rightarrow> CSVEvidenceExtension option \<Rightarrow> gcert \<Rightarrow> bool" where
  "recognised g env ctxp cfg penv pcfg pem ev c \<longleftrightarrow>
     (\<exists>priv pub. credential g env (case ctxp of None \<Rightarrow> contextBackground | Some x \<Rightarrow> x) cfg pem priv \<and>
        VerifyPeerCertificateAndEvidence g (hx_fs penv) (hx_verifyNow penv) pem (Some pcfg) = Inr ev \<and>
        gx509_ReadCertificateFromPem g pem = Inr c \<and> extractSM2PublicKey (gc_PublicKey c) = Inr pub \<and>
        length pem \<le> 2 ^ 20 \<and>
        (\<forall>msg. \<exists>sig. sm2_Sign g priv msg (hx_sign env) = Inr sig \<and> sm2_Verify g pub msg sig \<and> length sig \<le> 1024))"

lemma recognised_run:
  assumes "recognised g env ctxp cfg penv pcfg pem ev c"
  shows "\<exists>sig. ownCertificate g env (case ctxp of None \<Rightarrow> contextBackground | Some x \<Rightarrow> x) cfg ts pem sig \<and>
    acceptsPeer g penv pcfg ts pem sig ev c \<and> length (tsOf (certMsgs pem sig)) \<le> 2 ^ 20 + 1032"
proof -
  obtain priv pub where r: "credential g env (case ctxp of None \<Rightarrow> contextBackground | Some x \<Rightarrow> x) cfg pem priv"
    "VerifyPeerCertificateAndEvidence g (hx_fs penv) (hx_verifyNow penv) pem (Some pcfg) = Inr ev"
    "gx509_ReadCertificateFromPem g pem = Inr c" "extractSM2PublicKey (gc_PublicKey c) = Inr pub" "length pem \<le> 2 ^ 20"
    "\<forall>msg. \<exists>sig. sm2_Sign g priv msg (hx_sign env) = Inr sig \<and> sm2_Verify g pub msg sig \<and> length sig \<le> 1024"
    using assms unfolding recognised_def by blast
  from r(6)[THEN spec, of "ts @ encodeHandshakeMsg HandshakeTypeCertificate pem"] obtain sig where
    "sm2_Sign g priv (ts @ encodeHandshakeMsg HandshakeTypeCertificate pem) (hx_sign env) = Inr sig"
    "sm2_Verify g pub (ts @ encodeHandshakeMsg HandshakeTypeCertificate pem) sig" "length sig \<le> 1024" by blast
  with r(1-5) show ?thesis unfolding ownCertificate_def acceptsPeer_def
    by (intro exI[of _ sig]) (auto simp: certMsgs_def)
qed

lemma credential_provider:
  "credential g env ctx cfg pem priv \<Longrightarrow> cf_EvidenceProvider cfg \<noteq> None \<or> cf_CertPEM cfg \<noteq> [] \<and> cf_KeyPEM cfg \<noteq> []"
  by (auto simp: credential_def GetOrGenerateCertificateContext_def split: if_splits)

lemma client_part:
  assumes "m \<Longrightarrow> recognised g env ctxp cfg penv pcfg pem0 ev0 c0"
  shows "\<exists>own pem ev c. length (tsOf own) \<le> 2 ^ 20 + 1032 \<and>
    (if m then \<exists>p sig. own = certMsgs p sig \<and> ownCertificate g env (case ctxp of None \<Rightarrow> contextBackground | Some x \<Rightarrow> x) cfg ts p sig
     else own = []) \<and>
    (if m then \<exists>sig gc. own = certMsgs pem sig \<and> c = Some gc \<and> acceptsPeer g penv pcfg ts pem sig ev gc
     else own = [] \<and> pem = [] \<and> ev = None \<and> c = None) \<and>
    (if m then pem = pem0 \<and> ev = ev0 \<and> c = Some c0 else pem = [] \<and> ev = None \<and> c = None)"
proof (cases m)
  case True
  from recognised_run[OF assms[OF this], of ts] obtain sig where
    "ownCertificate g env (case ctxp of None \<Rightarrow> contextBackground | Some x \<Rightarrow> x) cfg ts pem0 sig"
    "acceptsPeer g penv pcfg ts pem0 sig ev0 c0" "length (tsOf (certMsgs pem0 sig)) \<le> 2 ^ 20 + 1032" by blast
  with True show ?thesis
    by (intro exI[of _ "certMsgs pem0 sig"] exI[of _ pem0] exI[of _ ev0] exI[of _ "Some c0"]) auto
qed auto

text \<open>
  The messages of a run of two endpoints that recognise each other: a key agreement \<open>a\<close>, the server's signature, and the client's part
  with what the server takes from it. Everything is small enough for the handshake buffers.
\<close>

definition honestMsgs ::
    "gmsm \<Rightarrow> hsEnv \<Rightarrow> gocontext \<Rightarrow> Config \<Rightarrow> hsEnv \<Rightarrow> gocontext \<Rightarrow> Config \<Rightarrow> bool \<Rightarrow> agreed \<Rightarrow>
       bytes \<times> bytes \<times> CSVEvidenceExtension option \<times> gcert \<Rightarrow>
       (byte \<times> bytes) list \<times> bytes \<times> CSVEvidenceExtension option \<times> gcert option \<Rightarrow> bool" where
  "honestMsgs g cenv cctx ccfg senv sctx scfg m a server client \<longleftrightarrow>
     (case (server, client) of ((spem, ssig, sev, sc), (own, ppem, pev, pc)) \<Rightarrow>
        let ts = tsOf (hellosOf a ccfg @ [(HandshakeTypeEncryptedExtensions, if m then [1] else [0])]);
            full = tsOf (hellosOf a ccfg @ serverMsgs g a ccfg m spem ssig)
        in agreement g cenv senv a \<and>
           ownCertificate g senv sctx scfg ts spem ssig \<and> acceptsPeer g cenv ccfg ts spem ssig sev sc \<and>
           length (tsOf (certMsgs spem ssig)) \<le> 2 ^ 20 + 1032 \<and> length (tsOf own) \<le> 2 ^ 20 + 1032 \<and>
           (if m then \<exists>p sig. own = certMsgs p sig \<and> ownCertificate g cenv cctx ccfg full p sig else own = []) \<and>
           (if m then \<exists>sig gc. own = certMsgs ppem sig \<and> pc = Some gc \<and> acceptsPeer g senv scfg full ppem sig pev gc
            else own = [] \<and> ppem = [] \<and> pev = None \<and> pc = None))"

lemma tag_length: "suiteDocumented g \<Longrightarrow> length (computeHMACSM3 g k d) = 32"
  unfolding computeHMACSM3_def by (intro length_hmacSum) (simp add: suiteDocumented_def)

lemma honestMsgs_exist:
  assumes doc: "suiteDocumented g" and keys: "sm2_GenerateKey g (hx_key cenv) = Inr ck" "sm2_GenerateKey g (hx_key senv) = Inr sk"
    and rand: "hx_rand cenv 32 = Inr cr" "hx_rand senv 32 = Inr sr"
    and server: "recognised g senv sctx scfg cenv ccfg spem sev sc"
    and client: "m \<Longrightarrow> recognised g cenv cctx ccfg senv scfg cpem cev cc"
  shows "\<exists>a ssig own ppem pev pc.
    honestMsgs g cenv (case cctx of None \<Rightarrow> contextBackground | Some x \<Rightarrow> x) ccfg
      senv (case sctx of None \<Rightarrow> contextBackground | Some x \<Rightarrow> x) scfg m a (spem, ssig, sev, sc) (own, ppem, pev, pc) \<and>
    (if m then ppem = cpem \<and> pev = cev \<and> pc = Some cc else ppem = [] \<and> pev = None \<and> pc = None)"
proof -
  obtain a where ag: "agreement g cenv senv a" using agreement_exists[OF doc keys rand] ..
  obtain ssig where s: "ownCertificate g senv (case sctx of None \<Rightarrow> contextBackground | Some x \<Rightarrow> x) scfg
      (tsOf (hellosOf a ccfg @ [(HandshakeTypeEncryptedExtensions, if m then [1] else [0])])) spem ssig"
    "acceptsPeer g cenv ccfg (tsOf (hellosOf a ccfg @ [(HandshakeTypeEncryptedExtensions, if m then [1] else [0])])) spem ssig sev sc"
    "length (tsOf (certMsgs spem ssig)) \<le> 2 ^ 20 + 1032"
    using recognised_run[OF server] by blast
  from client_part[OF client, of m "tsOf (hellosOf a ccfg @ serverMsgs g a ccfg m spem ssig)"] s ag show ?thesis
    unfolding honestMsgs_def Let_def prod.case by blast
qed

text \<open>
  A completed run on both sides of one line: what each endpoint wrote is what the other read, and the client verified the server's
  signature over the bytes that the server signed.
\<close>

definition completes ::
    "gmsm \<Rightarrow> hsEnv \<Rightarrow> gocontext option \<Rightarrow> hsState \<Rightarrow> hsEnv \<Rightarrow> gocontext option \<Rightarrow> hsState \<Rightarrow>
       HandshakeResult \<Rightarrow> HandshakeResult \<Rightarrow> bool" where
  "completes g cenv cctx cs senv sctx ss cres sres \<longleftrightarrow>
     (\<exists>c2s s2c cs' ss'.
        ClientHandshakeContext g cenv cctx (cs\<lparr>hs_net := (hs_net cs)\<lparr>rx := s2c\<rparr>\<rparr>) = (Inr cres, cs') \<and>
        ServerHandshakeContext g senv sctx (ss\<lparr>hs_net := (hs_net ss)\<lparr>rx := c2s\<rparr>\<rparr>) = (Inr sres, ss') \<and>
        tx (hs_net cs') = tx (hs_net cs) @ c2s \<and> tx (hs_net ss') = tx (hs_net ss) @ s2c \<and>
        rx (hs_net cs') = [] \<and> rx (hs_net ss') = [] \<and> wr (hs_net cs') = [] \<and> wr (hs_net ss') = [] \<and>
        fst (clientToVerify g cenv (cs\<lparr>hs_net := (hs_net cs)\<lparr>rx := s2c\<rparr>\<rparr>)) =
          fst (serverToSign g senv sctx (ss\<lparr>hs_net := (hs_net ss)\<lparr>rx := c2s\<rparr>\<rparr>)))"

lemma handshake_completes:
  assumes doc: "suiteDocumented g" and keys: "sm2_GenerateKey g (hx_key cenv) = Inr ck" "sm2_GenerateKey g (hx_key senv) = Inr sk"
    and rand: "hx_rand cenv 32 = Inr cr" "hx_rand senv 32 = Inr sr"
    and val: "Validate (cfgOf cs) = Inr ()" "Validate (cfgOf ss) = Inr ()"
    and line: "wr (hs_net cs) = []" "wr (hs_net ss) = []" "dl_err (hs_net ss) = None"
    and server: "recognised g senv sctx (cfgOf ss) cenv (cfgOf cs) spem sev sc"
    and client: "cf_VerifyMutualAttestation (cfgOf ss) \<or> cf_VerifyMutualAttestation (cfgOf cs) \<Longrightarrow>
      recognised g cenv cctx (cfgOf cs) senv (cfgOf ss) cpem cev cc"
  shows "\<exists>cres sres. completes g cenv cctx cs senv sctx ss cres sres \<and>
    hr_InCipher cres = hr_OutCipher sres \<and> hr_OutCipher cres = hr_InCipher sres \<and>
    rcInv (hr_InCipher cres) \<and> rcInv (hr_OutCipher cres) \<and> rc_seq (hr_InCipher cres) = 0 \<and> rc_seq (hr_OutCipher cres) = 0 \<and>
    hr_PeerCertPEM cres = spem \<and> hr_PeerEvidence cres = sev \<and> hr_PeerCertificate cres = Some sc \<and>
    (if cf_VerifyMutualAttestation (cfgOf ss) \<or> cf_VerifyMutualAttestation (cfgOf cs)
     then hr_PeerCertPEM sres = cpem \<and> hr_PeerEvidence sres = cev \<and> hr_PeerCertificate sres = Some cc
     else hr_PeerCertPEM sres = [] \<and> hr_PeerEvidence sres = None \<and> hr_PeerCertificate sres = None)"
proof -
  let ?ccfg = "cfgOf cs" and ?scfg = "cfgOf ss"
  let ?cx = "case cctx of None \<Rightarrow> contextBackground | Some x \<Rightarrow> x" and ?sx = "case sctx of None \<Rightarrow> contextBackground | Some x \<Rightarrow> x"
  define m where "m = (cf_VerifyMutualAttestation ?scfg \<or> cf_VerifyMutualAttestation ?ccfg)"
  obtain a ssig own ppem pev pc where
    h: "honestMsgs g cenv ?cx ?ccfg senv ?sx ?scfg m a (spem, ssig, sev, sc) (own, ppem, pev, pc)"
    and got: "if m then ppem = cpem \<and> pev = cev \<and> pc = Some cc else ppem = [] \<and> pev = None \<and> pc = None"
    using honestMsgs_exist[OF doc keys rand server client[folded m_def]] by blast
  define sm where "sm = serverMsgs g a ?ccfg m spem ssig"
  note msgs = h[unfolded honestMsgs_def Let_def prod.case, folded sm_def]
  have ag: "agreement g cenv senv a" and len: "length (tsOf (certMsgs spem ssig)) \<le> 2 ^ 20 + 1032" "length (tsOf own) \<le> 2 ^ 20 + 1032"
    using msgs by blast+
  have s: "ownCertificate g senv ?sx ?scfg (tsOf (hellosOf a ?ccfg @ [(HandshakeTypeEncryptedExtensions, if m then [1] else [0])])) spem ssig"
    "acceptsPeer g cenv ?ccfg (tsOf (hellosOf a ?ccfg @ [(HandshakeTypeEncryptedExtensions, if m then [1] else [0])])) spem ssig sev sc"
    and own: "if m then \<exists>p sig. own = certMsgs p sig \<and> ownCertificate g cenv ?cx ?ccfg (tsOf (hellosOf a ?ccfg @ sm)) p sig else own = []"
    and peer: "if m then \<exists>sig gc. own = certMsgs ppem sig \<and> pc = Some gc \<and>
        acceptsPeer g senv ?scfg (tsOf (hellosOf a ?ccfg @ sm)) ppem sig pev gc else own = [] \<and> ppem = [] \<and> pev = None \<and> pc = None"
    using msgs by blast+
  define cm where "cm = clientMsgs g a (hellosOf a ?ccfg @ sm) own"
  have fits: "length (tsOf sm) \<le> maxHandshakeBufferSize" "length (tsOf cm) \<le> maxHandshakeBufferSize"
    using len tag_length[OF doc] by (simp_all add: sm_def cm_def serverMsgs_def clientMsgs_def finishedBy_def)
  have need: "cf_VerifyMutualAttestation ?ccfg \<or> cf_EvidenceProvider ?ccfg \<noteq> None \<or> cf_CertPEM ?ccfg \<noteq> [] \<and> cf_KeyPEM ?ccfg \<noteq> []" if m
    using client[folded m_def] that credential_provider unfolding recognised_def by blast
  obtain ac as where app: "appCiphers g (ag_secret a) (tsOf (hellosOf a ?ccfg @ sm @ cm)) ac as"
    using appCiphers_total[OF doc] by blast
  have inv: "rcInv ac" "rcInv as" "rc_seq ac = 0" "rc_seq as = 0" using app NewRecordCipher_inv by (auto simp: appCiphers_def)
  define c2s where "c2s = plainRecord (3, 3) (encodeHandshakeMsg HandshakeTypeClientHello (helloOfClient a ?ccfg)) @ sealStream (ag_client a) (flight cm)"
  define s2c where "s2c = plainRecord (3, 3) (encodeHandshakeMsg HandshakeTypeServerHello (helloOfServer a)) @ sealStream (ag_server a) (flight sm)"
  let ?cs = "cs\<lparr>hs_net := (hs_net cs)\<lparr>rx := s2c\<rparr>\<rparr>" and ?ss = "ss\<lparr>hs_net := (hs_net ss)\<lparr>rx := c2s\<rparr>\<rparr>"
  have cfgs: "?ccfg = cfgOf ?cs" "?scfg = cfgOf ?ss" by (simp_all add: cfgOf_def)
  have "\<exists>s'. ClientHandshakeContext g cenv cctx ?cs = (Inr \<lparr>hr_InCipher = as, hr_OutCipher = ac, hr_PeerCertPEM = spem,
        hr_PeerEvidence = sev, hr_PeerCertificate = Some sc\<rparr>, s') \<and> tx (hs_net s') = tx (hs_net ?cs) @ c2s \<and> rx (hs_net s') = [] \<and> wr (hs_net s') = [] \<and>
      fst (clientToVerify g cenv ?cs) = Inr (signedBytes a ?ccfg m spem)"
    unfolding c2s_def
    by (rule client_run[OF ag cfgs(1) val(1) _ _ sm_def cm_def fits _ need s(2) own app]) (use line m_def in \<open>simp_all add: s2c_def\<close>)
  moreover have "\<exists>s'. ServerHandshakeContext g senv sctx ?ss = (Inr \<lparr>hr_InCipher = ac, hr_OutCipher = as, hr_PeerCertPEM = ppem,
        hr_PeerEvidence = pev, hr_PeerCertificate = pc\<rparr>, s') \<and> tx (hs_net s') = tx (hs_net ?ss) @ s2c \<and> rx (hs_net s') = [] \<and> wr (hs_net s') = [] \<and>
      fst (serverToSign g senv sctx ?ss) = Inr (signedBytes a ?ccfg m spem)"
    unfolding s2c_def
    by (rule server_run[OF ag cfgs(2) val(2) _ _ _ m_def sm_def cm_def fits s(1) peer app]) (use line in \<open>simp_all add: c2s_def\<close>)
  ultimately have "completes g cenv cctx cs senv sctx ss
      \<lparr>hr_InCipher = as, hr_OutCipher = ac, hr_PeerCertPEM = spem, hr_PeerEvidence = sev, hr_PeerCertificate = Some sc\<rparr>
      \<lparr>hr_InCipher = ac, hr_OutCipher = as, hr_PeerCertPEM = ppem, hr_PeerEvidence = pev, hr_PeerCertificate = pc\<rparr>"
    unfolding completes_def by (elim exE conjE, intro exI[of _ c2s] exI[of _ s2c] exI conjI) (assumption | simp)+
  with inv got show ?thesis unfolding m_def[symmetric] by (cases m) (simp_all, fastforce+)
qed

end
