(* ===== verification/Authentication.thy ===== *)
theory Authentication
  imports Honest_Run
begin

text \<open>
  What a completed handshake means for each role, and that honest endpoints complete it. The witnesses run the
  handshake between two endpoints with mock evidence on a small concrete cryptographic suite.
\<close>

section \<open>A concrete pair of endpoints\<close>

definition demoPeer :: Config where
  "demoPeer = demoConfig\<lparr>cf_EvidenceProvider := Some demoProvider, cf_VerifyMutualAttestation := True\<rparr>"

definition demoSide :: "byte \<Rightarrow> hsEnv" where
  "demoSide k = \<lparr>hx_key = [k], hx_rand = (\<lambda>n. Inr (replicate n k)), hx_sign = [], hx_entropy = demoEntropy,
     hx_clk = (\<lambda>i. demoNow), hx_now = demoNow, hx_verifyNow = demoNow, hx_fs = noFiles\<rparr>"

definition demoEnd :: "Config \<Rightarrow> hsState" where
  "demoEnd cfg = \<lparr>hs_net = quietNet, hs_cfg = Some cfg\<rparr>"

lemma demoPeer_simps [simp]:
  "cf_InsecureSkipAttestationVerify demoPeer = False" "cf_VerifyMutualAttestation demoPeer" "mode demoPeer = ModeStrict"
  "cf_ExpectedMeasurements demoPeer = [DefaultMockMeasurementHex]" "cf_EvidenceProvider demoPeer = Some demoProvider"
  "cf_CertPEM demoPeer = []" "cf_cachedCertPEM demoPeer = []" "cf_HRKCertPath demoPeer = []" "cf_CertDir demoPeer = []"
  by (simp_all add: demoPeer_def demoConfig_def zeroConfig_def mode_def)

lemma demoPeer_normalized: "normalizedVerifyConfig (Some demoPeer) = Inr (demoPeer\<lparr>cf_Mode := ModeStrict\<rparr>)"
  using demo_measurement_valid demo_anchor
  by (simp add: normalizedVerifyConfig_def demoPeer_def demoConfig_def zeroConfig_def Let_def)

lemma demoPeer_valid: "Validate demoPeer = Inr ()"
  using demo_measurement_valid by (simp add: Validate_def demoPeer_def demoConfig_def zeroConfig_def Let_def)

lemma demoPki_suite: "suiteDocumented demoPki"
proof -
  have gen: "sm2_GenerateKey demoPki r = Inr (demoKey (nat_of_be (take 8 r)))" for r by (simp add: demoPki_def demoGmsm_def)
  have "goodKey demoPki (demoKey (nat_of_be (take 8 r)))" for r using demoPki_sm2 gen by (auto simp: sm2Documented_def)
  then have "pk_X (sk_pub (demoKey (nat_of_be (take 8 r)))) < 2 ^ 256 \<and> pk_Y (sk_pub (demoKey (nat_of_be (take 8 r)))) < 2 ^ 256" for r
    by (simp add: goodKey_def)
  then show ?thesis unfolding suiteDocumented_def
    by (auto simp: gen) (simp_all add: demoPki_def demoGmsm_def demoKey_def mult.commute)
qed

lemma marshalEvidence_short:
  assumes "validEvidence ev"
  shows "length (marshalEvidence ev) \<le> 20000"
proof -
  have v: "ev_Version ev = 1" "length (ev_Report ev) = 2548" "ev_HRKCert ev = [] \<or> length (ev_HRKCert ev) = 832"
    "ev_HSKCekCert ev = [] \<or> length (ev_HSKCekCert ev) = 2916"
    using assms by (simp_all add: validEvidence_def)
  show ?thesis using v by (auto simp: marshalEvidence_def length_derField)
qed

lemma demo_generated:
  assumes "GenerateSM2CertificateWithEvidenceContext demoPki demoEntropy demoNow (Some contextBackground)
     (Some demoProvider) = Inr (certPEM, keyPEM)"
  shows "gx509_ReadPrivateKeyFromPem demoPki keyPEM = Inr (demoKey 9)" "length certPEM \<le> 2 ^ 20"
    "\<exists>c. gx509_ReadCertificateFromPem demoPki certPEM = Inr c \<and> extractSM2PublicKey (gc_PublicKey c) = Inr (sk_pub (demoKey 9))"
proof -
  have nine: "nat_of_be [9] = 9" by code_simp
  have k9: "sm2_GenerateKey demoPki [9] = Inr (demoKey 9)" by (simp add: demoPki_def demoGmsm_def nine)
  obtain ev ext where e: "EncodeCSVEvidence ev = Inr ext"
    "gx509_CreateCertificateToPem demoPki (certTemplateFor 1 demoNow ext) (sk_pub (demoKey 9)) (demoKey 9) [] = Inr certPEM"
    "gx509_WritePrivateKeyToPem demoPki (demoKey 9) = Inr keyPEM"
    using assms k9 by (auto simp: GenerateSM2CertificateWithEvidenceContext_def demoEntropy_def bindRes_Inr)
  show "gx509_ReadPrivateKeyFromPem demoPki keyPEM = Inr (demoKey 9)" by (rule demo_key_pem[OF e(3)])
  have "length (ext_Value ext) \<le> 20000"
    using e(1) marshalEvidence_short
    by (auto simp: EncodeCSVEvidence_def Let_def bindRes_Inr validateEvidenceExtension_Inr split: option.splits if_splits)
  then show "length certPEM \<le> 2 ^ 20"
    using e(2) by (auto simp: demoPki_def demoCreate_def certTemplateFor_def split: if_splits)
  obtain c where "gx509_ReadCertificateFromPem demoPki certPEM = Inr c"
      "gc_PublicKey c \<in> {SM2Key (sk_pub (demoKey 9)), ECDSAKey (pk_X (sk_pub (demoKey 9))) (pk_Y (sk_pub (demoKey 9)))}"
    using demoPki_x509 e(2) unfolding x509Documented_def by blast
  then show "\<exists>c. gx509_ReadCertificateFromPem demoPki certPEM = Inr c \<and> extractSM2PublicKey (gc_PublicKey c) = Inr (sk_pub (demoKey 9))"
    by (auto simp: extractSM2PublicKey_def demoKey_def)
qed

lemma demo_recognised: "\<exists>pem ev c. recognised demoPki (demoSide k) None demoPeer (demoSide k') demoPeer pem (Some ev) c"
proof -
  obtain pem key where gen: "GenerateSM2CertificateWithEvidenceContext demoPki demoEntropy demoNow (Some contextBackground)
     (Some demoProvider) = Inr (pem, key)" using demo_certificate by blast
  note g = demo_generated[OF gen]
  obtain c where c: "gx509_ReadCertificateFromPem demoPki pem = Inr c" "extractSM2PublicKey (gc_PublicKey c) = Inr (sk_pub (demoKey 9))"
    using g(3) by blast
  have "\<exists>ev. VerifyPeerCertificateAndEvidence demoPki noFiles demoNow pem (Some demoPeer) = Inr (Some ev)"
    by (rule mock_certificate_ok[OF demoPki_sm2 demoPki_x509 gen[unfolded demoProvider_def demoMock_def] _ _ demoPeer_normalized])
      (simp_all add: demoMock_def demoPeer_def demoConfig_def zeroConfig_def mode_def)
  then obtain ev where ev: "VerifyPeerCertificateAndEvidence demoPki noFiles demoNow pem (Some demoPeer) = Inr (Some ev)" ..
  have "credential demoPki (demoSide k) contextBackground demoPeer pem (demoKey 9)"
    using gen g(1) c(1)
    by (auto simp: credential_def GetOrGenerateCertificateContext_def demoSide_def cachedCertificateValidLocked_def
        ParseCertificatePEM_def bindRes_def)
  moreover have "\<exists>sig. sm2_Sign demoPki (demoKey 9) msg [] = Inr sig \<and> sm2_Verify demoPki (sk_pub (demoKey 9)) msg sig \<and>
      length sig \<le> 1024" for msg
    using length_bigBytes_le[of 9 1] by (simp add: demoPki_def demoGmsm_def demoKey_def)
  ultimately show ?thesis using c ev g(2)
    by (intro exI[of _ pem] exI[of _ ev] exI[of _ c]) (auto simp: recognised_def demoSide_def intro!: exI[of _ "demoKey 9"])
qed

section \<open>Liveness\<close>

text \<open>
  Two honest endpoints complete the handshake. Whatever keys and random bytes they draw, if both configurations
  are valid, the server's certificate is recognised by the client, and, when either side asks for mutual attestation,
  the client's certificate is recognised by the server, then the client and the server, each reading exactly what the
  other wrote, both return a result, with nothing left on the line. The client's receiving cipher is the server's
  sending cipher and the other way round, both at sequence number 0; each side has the other's certificate and
  evidence, the server none when mutual attestation is not negotiated.
\<close>

theorem honest_handshake_completes:
  assumes "suiteDocumented g" and "sm2_GenerateKey g (hx_key cenv) = Inr ck" "sm2_GenerateKey g (hx_key senv) = Inr sk"
    and "hx_rand cenv 32 = Inr cr" "hx_rand senv 32 = Inr sr"
    and "Validate (cfgOf cs) = Inr ()" "Validate (cfgOf ss) = Inr ()"
    and "wr (hs_net cs) = []" "wr (hs_net ss) = []" "dl_err (hs_net ss) = None"
    and "recognised g senv sctx (cfgOf ss) cenv (cfgOf cs) spem sev sc"
    and "cf_VerifyMutualAttestation (cfgOf ss) \<or> cf_VerifyMutualAttestation (cfgOf cs) \<Longrightarrow>
      recognised g cenv cctx (cfgOf cs) senv (cfgOf ss) cpem cev cc"
  shows "\<exists>cres sres c2s s2c cs' ss'.
    ClientHandshakeContext g cenv cctx (cs\<lparr>hs_net := (hs_net cs)\<lparr>rx := s2c\<rparr>\<rparr>) = (Inr cres, cs') \<and>
    ServerHandshakeContext g senv sctx (ss\<lparr>hs_net := (hs_net ss)\<lparr>rx := c2s\<rparr>\<rparr>) = (Inr sres, ss') \<and>
    tx (hs_net cs') = tx (hs_net cs) @ c2s \<and> tx (hs_net ss') = tx (hs_net ss) @ s2c \<and>
    rx (hs_net cs') = [] \<and> rx (hs_net ss') = [] \<and>
    hr_InCipher cres = hr_OutCipher sres \<and> hr_OutCipher cres = hr_InCipher sres \<and>
    rc_seq (hr_InCipher cres) = 0 \<and> rc_seq (hr_OutCipher cres) = 0 \<and>
    hr_PeerCertPEM cres = spem \<and> hr_PeerEvidence cres = sev \<and>
    (if cf_VerifyMutualAttestation (cfgOf ss) \<or> cf_VerifyMutualAttestation (cfgOf cs)
     then hr_PeerCertPEM sres = cpem \<and> hr_PeerEvidence sres = cev
     else hr_PeerCertPEM sres = [] \<and> hr_PeerEvidence sres = None)"
proof -
  from handshake_completes[OF assms] obtain cres sres where r: "completes g cenv cctx cs senv sctx ss cres sres"
    "hr_InCipher cres = hr_OutCipher sres" "hr_OutCipher cres = hr_InCipher sres"
    "rc_seq (hr_InCipher cres) = 0" "rc_seq (hr_OutCipher cres) = 0" "hr_PeerCertPEM cres = spem" "hr_PeerEvidence cres = sev"
    "if cf_VerifyMutualAttestation (cfgOf ss) \<or> cf_VerifyMutualAttestation (cfgOf cs)
     then hr_PeerCertPEM sres = cpem \<and> hr_PeerEvidence sres = cev
     else hr_PeerCertPEM sres = [] \<and> hr_PeerEvidence sres = None"
    by (auto split: if_splits)
  then show ?thesis unfolding completes_def by blast
qed

lemma demo_draws:
  "\<exists>k. sm2_GenerateKey demoPki (hx_key (demoSide b)) = Inr k" "\<exists>r. hx_rand (demoSide b) 32 = Inr r"
  by (simp_all add: demoSide_def demoPki_def demoGmsm_def)

lemma demoEnd_simps [simp]:
  "cfgOf (demoEnd cfg) = cfg" "wr (hs_net (demoEnd cfg)) = []" "dl_err (hs_net (demoEnd cfg)) = None" "tx (hs_net (demoEnd cfg)) = []"
  by (simp_all add: demoEnd_def cfgOf_def quietNet_def)

lemma quietNet_simps: "wr quietNet = []" "dl_err quietNet = None" "tx quietNet = []"
  by (simp_all add: quietNet_def)

theorem honest_handshake_completes_witness:
  "\<exists>cres sres c2s s2c cs' ss'.
     ClientHandshakeContext demoPki (demoSide 3) None ((demoEnd demoPeer)\<lparr>hs_net := quietNet\<lparr>rx := s2c\<rparr>\<rparr>) = (Inr cres, cs') \<and>
     ServerHandshakeContext demoPki (demoSide 5) None ((demoEnd demoPeer)\<lparr>hs_net := quietNet\<lparr>rx := c2s\<rparr>\<rparr>) = (Inr sres, ss') \<and>
     tx (hs_net cs') = c2s \<and> tx (hs_net ss') = s2c \<and> hr_OutCipher cres = hr_InCipher sres \<and>
     hr_PeerEvidence cres \<noteq> None \<and> hr_PeerEvidence sres \<noteq> None"
proof -
  obtain spem sev sc cpem cev cc where r: "recognised demoPki (demoSide 5) None demoPeer (demoSide 3) demoPeer spem (Some sev) sc"
    "recognised demoPki (demoSide 3) None demoPeer (demoSide 5) demoPeer cpem (Some cev) cc"
    using demo_recognised by metis
  obtain ck sk cr sr where d: "sm2_GenerateKey demoPki (hx_key (demoSide 3)) = Inr ck" "sm2_GenerateKey demoPki (hx_key (demoSide 5)) = Inr sk"
    "hx_rand (demoSide 3) 32 = Inr cr" "hx_rand (demoSide 5) 32 = Inr sr" using demo_draws by metis
  have q: "hs_net (demoEnd demoPeer) = quietNet" by (simp add: demoEnd_def)
  from honest_handshake_completes[OF demoPki_suite d, of "demoEnd demoPeer" "demoEnd demoPeer" None spem "Some sev" sc None cpem "Some cev" cc]
    r demoPeer_valid show ?thesis by (simp add: q quietNet_def) blast
qed

section \<open>Authentication\<close>

lemma demoEnd_net: "hs_net (demoEnd cfg) = quietNet"
  by (simp add: demoEnd_def)

lemma demo_completes: "\<exists>cres sres. completes demoPki (demoSide 3) None (demoEnd demoPeer) (demoSide 5) None (demoEnd demoPeer) cres sres"
proof -
  obtain spem sev sc cpem cev cc where r: "recognised demoPki (demoSide 5) None demoPeer (demoSide 3) demoPeer spem (Some sev) sc"
    "recognised demoPki (demoSide 3) None demoPeer (demoSide 5) demoPeer cpem (Some cev) cc"
    using demo_recognised by metis
  obtain ck sk cr sr where d: "sm2_GenerateKey demoPki (hx_key (demoSide 3)) = Inr ck" "sm2_GenerateKey demoPki (hx_key (demoSide 5)) = Inr sk"
    "hx_rand (demoSide 3) 32 = Inr cr" "hx_rand (demoSide 5) 32 = Inr sr" using demo_draws by metis
  from handshake_completes[OF demoPki_suite d, of "demoEnd demoPeer" "demoEnd demoPeer" None spem "Some sev" sc None cpem "Some cev" cc]
    r demoPeer_valid show ?thesis by simp blast
qed

lemma demo_run:
  "\<exists>cres sres c2s s2c cs' ss'.
     ClientHandshakeContext demoPki (demoSide 3) None ((demoEnd demoPeer)\<lparr>hs_net := quietNet\<lparr>rx := s2c\<rparr>\<rparr>) = (Inr cres, cs') \<and>
     ServerHandshakeContext demoPki (demoSide 5) None ((demoEnd demoPeer)\<lparr>hs_net := quietNet\<lparr>rx := c2s\<rparr>\<rparr>) = (Inr sres, ss')"
  using demo_completes unfolding completes_def demoEnd_net by blast

lemma demoEnd_cfg [simp]: "cfgOf ((demoEnd cfg)\<lparr>hs_net := n\<rparr>) = cfg"
  by (simp add: demoEnd_def cfgOf_def)

lemma client_attested:
  assumes v: "clientView g env ctx cfg res ch sh ee sig own" and skip: "\<not> cf_InsecureSkipAttestationVerify cfg"
  shows "\<exists>vcfg ev. normalizedVerifyConfig (Some cfg) = Inr vcfg \<and> hr_PeerEvidence res = Some ev \<and>
    peerAttested g (hx_fs env) (hx_verifyNow env) (hr_PeerCertPEM res) vcfg ev \<and>
    (mode cfg = ModeStrict \<longrightarrow> (\<exists>m \<in> set (cf_ExpectedMeasurements cfg). hexDecode m = Some (digestOf (ev_Report ev))))"
proof -
  have "VerifyPeerCertificateAndEvidence g (hx_fs env) (hx_verifyNow env) (hr_PeerCertPEM res) (Some cfg) = Inr (hr_PeerEvidence res)"
    using v unfolding clientView_def Let_def by blast
  from accepted_attested[OF this skip] show ?thesis .
qed

text \<open>
  C2: what a client has after a successful handshake, unless its configuration skips attestation. The server sent a
  certificate with evidence that satisfies the attestation policy of the client's configuration, and a signature of
  the certificate's key over the transcript of both hellos, the extensions and the certificate; the server's Finished
  was the keyed hash of the transcript under keys that both hellos determine; and the application ciphers are derived
  from the shared secret and the hash of the complete transcript. If the client asked for mutual attestation, the
  server confirmed it in its encrypted extensions and the client has sent its certificate and signature, so that
  clearing the flag of the plaintext ClientHello cannot go unnoticed.
\<close>

theorem client_handshake_authenticates:
  assumes "ClientHandshakeContext g env ctxp s = (Inr res, s')" and "\<not> cf_InsecureSkipAttestationVerify (cfgOf s)"
  shows "\<exists>ch sh ee sig own vcfg ev. 
    clientView g env (case ctxp of None \<Rightarrow> contextBackground | Some c \<Rightarrow> c) (cfgOf s) res ch sh ee sig own \<and>
    normalizedVerifyConfig (Some (cfgOf s)) = Inr vcfg \<and> hr_PeerEvidence res = Some ev \<and>
    peerAttested g (hx_fs env) (hx_verifyNow env) (hr_PeerCertPEM res) vcfg ev \<and>
    (mode (cfgOf s) = ModeStrict \<longrightarrow>
       (\<exists>m \<in> set (cf_ExpectedMeasurements (cfgOf s)). hexDecode m = Some (digestOf (ev_Report ev)))) \<and>
    (cf_VerifyMutualAttestation (cfgOf s) \<longrightarrow> ee \<noteq> [] \<and> ee ! 0 = 1 \<and>
       (\<exists>pem sg priv. own = [(HandshakeTypeCertificate, pem), (HandshakeTypeCertificateVerify, sg)] \<and>
          credential g env (case ctxp of None \<Rightarrow> contextBackground | Some c \<Rightarrow> c) (cfgOf s) pem priv))"
proof -
  let ?ctx = "case ctxp of None \<Rightarrow> contextBackground | Some c \<Rightarrow> c"
  obtain ch sh ee sig own where v: "clientView g env ?ctx (cfgOf s) res ch sh ee sig own"
    and m: "cf_VerifyMutualAttestation (cfgOf s) \<longrightarrow> ee \<noteq> [] \<and> ee ! 0 = 1"
    using ClientHandshakeContext_view[OF assms(1)] by blast
  obtain ts where part: "ownPart g env ?ctx (cfgOf s) (ee \<noteq> [] \<and> ee ! 0 = 1) ts own" using v unfolding clientView_def Let_def by blast
  have "cf_VerifyMutualAttestation (cfgOf s) \<longrightarrow> ee \<noteq> [] \<and> ee ! 0 = 1 \<and>
       (\<exists>pem sg priv. own = [(HandshakeTypeCertificate, pem), (HandshakeTypeCertificateVerify, sg)] \<and> credential g env ?ctx (cfgOf s) pem priv)"
    using m part unfolding ownPart_def by (simp split: if_splits) blast
  with v client_attested[OF v assms(2)] show ?thesis by blast
qed

theorem client_handshake_authenticates_witness:
  "\<exists>s2c res s' vcfg ev. ClientHandshakeContext demoPki (demoSide 3) None ((demoEnd demoPeer)\<lparr>hs_net := quietNet\<lparr>rx := s2c\<rparr>\<rparr>) = (Inr res, s') \<and>
     peerAttested demoPki noFiles demoNow (hr_PeerCertPEM res) vcfg ev \<and> hr_PeerEvidence res = Some ev \<and>
     hexDecode DefaultMockMeasurementHex = Some (digestOf (ev_Report ev))"
proof -
  obtain s2c res s' where run: "ClientHandshakeContext demoPki (demoSide 3) None ((demoEnd demoPeer)\<lparr>hs_net := quietNet\<lparr>rx := s2c\<rparr>\<rparr>) = (Inr res, s')"
    using demo_run by blast
  from client_handshake_authenticates[OF run] run show ?thesis by (auto simp: demoSide_def)
qed

lemma server_attested:
  assumes v: "serverView g env ctx cfg res ch mutual sh cert sig peer" and mutual and skip: "\<not> cf_InsecureSkipAttestationVerify cfg"
  shows "\<exists>vcfg ev. normalizedVerifyConfig (Some cfg) = Inr vcfg \<and> hr_PeerEvidence res = Some ev \<and>
    peerAttested g (hx_fs env) (hx_verifyNow env) (hr_PeerCertPEM res) vcfg ev \<and>
    (mode cfg = ModeStrict \<longrightarrow> (\<exists>m \<in> set (cf_ExpectedMeasurements cfg). hexDecode m = Some (digestOf (ev_Report ev))))"
proof -
  have "VerifyPeerCertificateAndEvidence g (hx_fs env) (hx_verifyNow env) (hr_PeerCertPEM res) (Some cfg) = Inr (hr_PeerEvidence res)"
    using v \<open>mutual\<close> unfolding serverView_def peerPart_def Let_def by auto
  from accepted_attested[OF this skip] show ?thesis .
qed

text \<open>
  C4: what a server has after a successful handshake. It has sent its certificate with a signature over the
  transcript and its Finished; the client's Finished was the keyed hash of the transcript; the application ciphers are
  derived from the shared secret and the hash of the complete transcript. Mutual attestation was performed exactly if
  the server's configuration or the ClientHello asked for it; then, unless the configuration skips attestation, the
  client's evidence satisfies the server's policy and its signature covers the transcript up to its certificate.
  Otherwise the result names no peer.
\<close>

theorem server_handshake_authenticates:
  assumes "ServerHandshakeContext g env ctxp s = (Inr res, s')" and "\<not> cf_InsecureSkipAttestationVerify (cfgOf s)"
  shows "\<exists>ch mutual sh cert sig peer.
    serverView g env (case ctxp of None \<Rightarrow> contextBackground | Some c \<Rightarrow> c) (cfgOf s) res ch mutual sh cert sig peer \<and>
    (cf_VerifyMutualAttestation (cfgOf s) \<longrightarrow> mutual) \<and> (hr_PeerEvidence res \<noteq> None \<longleftrightarrow> mutual) \<and>
    (mutual \<longrightarrow> (\<exists>vcfg ev. normalizedVerifyConfig (Some (cfgOf s)) = Inr vcfg \<and> hr_PeerEvidence res = Some ev \<and>
       peerAttested g (hx_fs env) (hx_verifyNow env) (hr_PeerCertPEM res) vcfg ev \<and>
       (mode (cfgOf s) = ModeStrict \<longrightarrow>
          (\<exists>m \<in> set (cf_ExpectedMeasurements (cfgOf s)). hexDecode m = Some (digestOf (ev_Report ev))))))"
proof -
  obtain ch mutual sh cert sig peer where
    v: "serverView g env (case ctxp of None \<Rightarrow> contextBackground | Some c \<Rightarrow> c) (cfgOf s) res ch mutual sh cert sig peer"
    using ServerHandshakeContext_view[OF assms(1)] by blast
  have m: "mutual = (cf_VerifyMutualAttestation (cfgOf s) \<or> 97 < length ch \<and> ch ! 97 = 1)"
    using v unfolding serverView_def by blast
  show ?thesis
  proof (cases mutual)
    case True
    from server_attested[OF v True assms(2)] v m True show ?thesis by fastforce
  next
    case False
    then have "hr_PeerEvidence res = None" using v unfolding serverView_def peerPart_def Let_def by auto
    with v m False show ?thesis by blast
  qed
qed

theorem server_handshake_authenticates_witness:
  "\<exists>c2s res s' vcfg ev. ServerHandshakeContext demoPki (demoSide 5) None ((demoEnd demoPeer)\<lparr>hs_net := quietNet\<lparr>rx := c2s\<rparr>\<rparr>) = (Inr res, s') \<and>
     peerAttested demoPki noFiles demoNow (hr_PeerCertPEM res) vcfg ev \<and> hr_PeerEvidence res = Some ev"
proof -
  obtain c2s res s' where run: "ServerHandshakeContext demoPki (demoSide 5) None ((demoEnd demoPeer)\<lparr>hs_net := quietNet\<lparr>rx := c2s\<rparr>\<rparr>) = (Inr res, s')"
    using demo_run by blast
  from server_handshake_authenticates[OF run] run show ?thesis by (auto simp: demoSide_def)
qed

end
