(* ===== verification/Go_Steps.thy ===== *)
theory Go_Steps
  imports Main
begin

text \<open>
  Step relations: reachable states, invariants and simulations. Connections, servers and concurrent calls are described by a relation
  between states; what holds in every reachable state is proved from one step, and this theory has the contracts under which
  that is enough.
\<close>

inductive reach :: "('s \<Rightarrow> 's \<Rightarrow> bool) \<Rightarrow> 's \<Rightarrow> 's \<Rightarrow> bool" for step s0 where
  start: "reach step s0 s0"
| next_step: "reach step s0 s \<Longrightarrow> step s s' \<Longrightarrow> reach step s0 s'"

lemma reach_trans: "reach step s1 s2 \<Longrightarrow> reach step s0 s1 \<Longrightarrow> reach step s0 s2"
  by (induction rule: reach.induct) (auto intro: reach.next_step)

lemma reach_one: "step s s' \<Longrightarrow> reach step s s'"
  by (rule reach.next_step[OF reach.start])

text \<open>An invariant: what one step keeps, every run keeps.\<close>

locale step_invariant =
  fixes step :: "'s \<Rightarrow> 's \<Rightarrow> bool" and inv :: "'s \<Rightarrow> bool"
  assumes keeps_inv: "step s s' \<Longrightarrow> inv s \<Longrightarrow> inv s'"
begin

lemma reach_inv: "reach step s0 s \<Longrightarrow> inv s0 \<Longrightarrow> inv s"
  by (induction rule: reach.induct) (auto intro: keeps_inv)

end

text \<open>
  A simulation under an invariant: as long as one step can be followed by the abstract side, every reachable state has an abstract
  counterpart.
\<close>

locale step_simulation = step_invariant +
  fixes rel :: "'s \<Rightarrow> 'a \<Rightarrow> bool"
  assumes follows: "step s s' \<Longrightarrow> inv s \<Longrightarrow> rel s a \<Longrightarrow> \<exists>a'. rel s' a'"
begin

lemma reach_related:
  assumes "reach step s0 s" "inv s0" "rel s0 a0"
  shows "inv s \<and> (\<exists>a. rel s a)"
  using assms
proof (induction rule: reach.induct)
  case (next_step s s')
  then show ?case using keeps_inv follows by blast
qed blast

end

text \<open>Steps that bring a measure down: no run goes on for ever, and a run that cannot go on is reached from every state.\<close>

locale step_progress = step_invariant +
  fixes togo :: "'s \<Rightarrow> nat"
  assumes decreases: "step s s' \<Longrightarrow> togo s' < togo s"
begin

lemma no_infinite_run: "\<not> (\<forall>n. step (f n) (f (Suc n)))"
proof
  assume "\<forall>n. step (f n) (f (Suc n))"
  then have "(f (Suc n), f n) \<in> measure togo" for n unfolding in_measure using decreases by blast
  then show False using wf_measure[of togo] unfolding wf_iff_no_infinite_down_chain by blast
qed

lemma reaches_end: "inv s \<Longrightarrow> \<exists>s'. reach step s s' \<and> inv s' \<and> \<not> (\<exists>t. step s' t)"
proof (induction "togo s" arbitrary: s rule: less_induct)
  case less
  show ?case
  proof (cases "\<exists>t. step s t")
    case True
    then obtain t where t: "step s t" by blast
    from less(1)[OF decreases[OF t] keeps_inv[OF t less(2)]] obtain s' where "reach step t s'" "inv s' \<and> \<not> (\<exists>t. step s' t)" by blast
    moreover from reach_trans[OF this(1) reach_one[of step, OF t]] have "reach step s s'" .
    ultimately show ?thesis by blast
  next
    case False
    with less(2) show ?thesis using reach.start[of step s] by blast
  qed
qed

end

end
