(* ===== verification/Conn.thy ===== *)
theory Conn
  imports Authentication Go_Steps
begin

text \<open>
  The secured connection (\<^verbatim>\<open>conn.go\<close>): a \<^verbatim>\<open>net.Conn\<close> that performs the handshake on first use and then exchanges
  application data under the negotiated ciphers. A connection is a record, and each method is a function on it. The
  mutexes of the source make the methods behave like this under concurrent calls; \<open>Handshake_Once\<close> and \<open>Conn_Locks\<close> prove it.
\<close>

section \<open>The connection\<close>

text \<open>
  \<open>cn_cfg\<close> is the configuration behind the pointer, whose certificate cache a handshake may fill. A nil cipher is
  \<open>None\<close>. \<open>cn_closed\<close> tells whether \<^verbatim>\<open>closeOnce\<close> has run. What a method draws from outside is an argument: the
  packages, the draws of a handshake, the time.
\<close>

record Conn =
  cn_rawConn :: net
  cn_cfg :: "Config option"
  cn_isServer :: bool
  cn_handshakeDone :: bool
  cn_handshakeErr :: "goerr option"
  cn_inCipher :: "RecordCipher option"
  cn_outCipher :: "RecordCipher option"
  cn_peerCertPEM :: bytes
  cn_peerEvidence :: "CSVEvidenceExtension option"
  cn_peerCertificate :: "x509cert option"
  cn_readBuf :: bytes
  cn_closeNotifyReceived :: bool
  cn_closed :: bool
  cn_closeErr :: "goerr option"

definition newConn :: "bool \<Rightarrow> net \<Rightarrow> Config option \<Rightarrow> Conn" where
  "newConn isServer rawConn cfg =
     \<lparr>cn_rawConn = rawConn, cn_cfg = cfg, cn_isServer = isServer, cn_handshakeDone = False, cn_handshakeErr = None,
      cn_inCipher = None, cn_outCipher = None, cn_peerCertPEM = [], cn_peerEvidence = None, cn_peerCertificate = None,
      cn_readBuf = [], cn_closeNotifyReceived = False, cn_closed = False, cn_closeErr = None\<rparr>"

definition NewClientConn :: "net \<Rightarrow> Config option \<Rightarrow> Conn" where
  "NewClientConn rawConn cfg = newConn False rawConn cfg"

definition NewServerConn :: "net \<Rightarrow> Config option \<Rightarrow> Conn" where
  "NewServerConn rawConn cfg = newConn True rawConn cfg"

definition cloneEvidence :: "CSVEvidenceExtension option \<Rightarrow> CSVEvidenceExtension option" where
  "cloneEvidence evp =
     (case evp of
        None \<Rightarrow> None
      | Some ev \<Rightarrow> Some \<lparr>ev_Version = ev_Version ev, ev_Report = [] @ ev_Report ev, ev_HRKCert = [] @ ev_HRKCert ev,
                         ev_HSKCekCert = [] @ ev_HSKCekCert ev\<rparr>)"

section \<open>Handshake\<close>

text \<open>A panic unwinds through the caller and is never stored.\<close>

fun isPanic :: "goerr \<Rightarrow> bool" where
  "isPanic (Panic m) = True"
| "isPanic (ErrWrap m e) = isPanic e"
| "isPanic _ = False"

definition handshake :: "gmsm \<Rightarrow> hsEnv \<Rightarrow> gocontext option \<Rightarrow> Conn \<Rightarrow> goerr option \<times> Conn" where
  "handshake g env ctxp c =
     (let ctx = (case ctxp of None \<Rightarrow> contextBackground | Some x \<Rightarrow> x)
      in if cn_handshakeDone c then (None, c)
         else case cn_handshakeErr c of
           Some e \<Rightarrow> (Some e, c)
         | None \<Rightarrow>
             let s = \<lparr>hs_net = cn_rawConn c, hs_cfg = cn_cfg c\<rparr>
             in case (if cn_isServer c then ServerHandshakeContext g env (Some ctx) s
                      else ClientHandshakeContext g env (Some ctx) s) of
                  (Inl err, s') \<Rightarrow>
                    let c1 = c\<lparr>cn_rawConn := hs_net s', cn_cfg := hs_cfg s'\<rparr>
                    in (Some err, if isPanic err then c1 else c1\<lparr>cn_handshakeErr := Some err\<rparr>)
                | (Inr res, s') \<Rightarrow>
                    (None, c\<lparr>cn_rawConn := hs_net s', cn_cfg := hs_cfg s', cn_inCipher := Some (hr_InCipher res),
                       cn_outCipher := Some (hr_OutCipher res), cn_peerCertPEM := [] @ hr_PeerCertPEM res,
                       cn_peerEvidence := cloneEvidence (hr_PeerEvidence res),
                       cn_peerCertificate := (case hr_PeerCertificate res of
                          None \<Rightarrow> cn_peerCertificate c | Some gc \<Rightarrow> Some (gc_X509 gc)),
                       cn_handshakeDone := True\<rparr>))"

definition Conn_Handshake :: "gmsm \<Rightarrow> hsEnv \<Rightarrow> Conn \<Rightarrow> goerr option \<times> Conn" where
  "Conn_Handshake g env c = handshake g env (Some contextBackground) c"

section \<open>Read\<close>

text \<open>One turn of the loop: the plaintext of the next application data record, or the error \<^verbatim>\<open>Read\<close> returns.\<close>

definition isEOF :: "goerr \<Rightarrow> bool" where
  "isEOF e \<longleftrightarrow> errorsIs e IoEOF \<or> errorsIs e IoErrUnexpectedEOF"

definition receiveAlert :: "bytes \<Rightarrow> Conn \<Rightarrow> goerr \<times> Conn" where
  "receiveAlert plaintext c =
     (if length plaintext \<noteq> 2 then (ErrNew ''teetls: malformed alert length'', c)
      else if plaintext ! 0 = 1 \<and> plaintext ! 1 = 0 then (IoEOF, c\<lparr>cn_closeNotifyReceived := True\<rparr>)
      else (ErrNew ''teetls: received alert'', c))"

definition receivePayload :: "bytes \<Rightarrow> Conn \<Rightarrow> bytes result \<times> Conn" where
  "receivePayload fullRecord c =
     (case cn_inCipher c of
        None \<Rightarrow> (Inl (Panic ''nil pointer dereference''), c)
      | Some rc \<Rightarrow>
          (case Unseal fullRecord rc of
             (Inl err, rc1) \<Rightarrow> (Inl (ErrWrap ''teetls: unseal record'' err), c\<lparr>cn_inCipher := Some rc1\<rparr>)
           | (Inr (recType, plaintext), rc1) \<Rightarrow>
               let c1 = c\<lparr>cn_inCipher := Some rc1\<rparr>
               in if recType = RecordTypeAlert then (case receiveAlert plaintext c1 of (e, c2) \<Rightarrow> (Inl e, c2))
                  else if recType \<noteq> RecordTypeApplicationData
                  then (Inl (ErrNew ''teetls: unexpected post-handshake record type''), c1)
                  else (Inr plaintext, c1)))"

definition receiveRecord :: "Conn \<Rightarrow> bytes result \<times> Conn" where
  "receiveRecord c =
     (case readFull RecordHeaderLen (cn_rawConn c) of
        (Inl err, n) \<Rightarrow>
          (Inl (if isEOF err then
                  (if cn_closeNotifyReceived c then IoEOF
                   else ErrWrap ''teetls: connection closed without close_notify'' IoErrUnexpectedEOF)
                else err), c\<lparr>cn_rawConn := n\<rparr>)
      | (Inr header, n) \<Rightarrow>
          let c1 = c\<lparr>cn_rawConn := n\<rparr>;
              payloadLen = unat (BigEndian_Uint16 (slice header 3 5))
          in if header ! 0 \<noteq> RecordTypeApplicationData then (Inl ErrInvalidRecordHeader, c1)
             else if payloadLen \<le> 0 \<or> payloadLen > MaxCiphertextLength then (Inl ErrCiphertextTooLarge, c1)
             else
               (case readFull payloadLen n of
                  (Inl err, n2) \<Rightarrow>
                    (Inl (if isEOF err then ErrWrap ''teetls: truncated TLS record without close_notify'' IoErrUnexpectedEOF
                          else err), c\<lparr>cn_rawConn := n2\<rparr>)
                | (Inr payload, n2) \<Rightarrow> receivePayload (header @ payload) (c\<lparr>cn_rawConn := n2\<rparr>)))"

text \<open>Every turn takes bytes off the connection, or fails.\<close>

lemma receivePayload_raw: "receivePayload rec c = (r, c') \<Longrightarrow> cn_rawConn c' = cn_rawConn c"
  by (auto simp: receivePayload_def receiveAlert_def Let_def split: option.splits prod.splits sum.splits if_splits)

lemma receiveRecord_shrinks:
  assumes "receiveRecord c = (Inr p, c')"
  shows "length (rx (cn_rawConn c')) < length (rx (cn_rawConn c))"
proof -
  obtain header n where h: "readFull 5 (cn_rawConn c) = (Inr header, n)"
    using assms by (auto simp: receiveRecord_def split: prod.splits sum.splits)
  then obtain payload n2 k where p: "readFull k n = (Inr payload, n2)"
    "receivePayload (header @ payload) (c\<lparr>cn_rawConn := n2\<rparr>) = (Inr p, c')"
    using assms by (auto simp: receiveRecord_def Let_def split: prod.splits sum.splits if_splits)
  have "cn_rawConn c' = n2" using receivePayload_raw[OF p(2)] by simp
  with h p(1) show ?thesis by (auto simp: readFull_Inr)
qed

text \<open>A call of \<^verbatim>\<open>Read\<close> with a buffer of \<open>n\<close> bytes gives the bytes it has put there and the error.\<close>

function readLoop :: "nat \<Rightarrow> Conn \<Rightarrow> (bytes \<times> goerr option) \<times> Conn" where
  "readLoop n c =
     (case receiveRecord c of
        (Inl err, c1) \<Rightarrow> (([], Some err), c1)
      | (Inr plaintext, c1) \<Rightarrow>
          if length plaintext = 0 then readLoop n c1
          else ((take n plaintext, None),
                if min n (length plaintext) < length plaintext then c1\<lparr>cn_readBuf := drop n plaintext\<rparr> else c1))"
  by pat_completeness auto
termination
  by (relation "measure (\<lambda>(n, c). length (rx (cn_rawConn c)))") (auto dest: receiveRecord_shrinks[OF sym])

declare readLoop.simps [simp del]

definition Conn_Read :: "gmsm \<Rightarrow> hsEnv \<Rightarrow> nat \<Rightarrow> Conn \<Rightarrow> (bytes \<times> goerr option) \<times> Conn" where
  "Conn_Read g env n c =
     (case Conn_Handshake g env c of
        (Some err, c1) \<Rightarrow> (([], Some err), c1)
      | (None, c1) \<Rightarrow>
          if n = 0 then (([], None), c1)
          else if length (cn_readBuf c1) > 0
          then ((take n (cn_readBuf c1), None), c1\<lparr>cn_readBuf := drop n (cn_readBuf c1)\<rparr>)
          else readLoop n c1)"

section \<open>Write\<close>

function writeLoop :: "bytes \<Rightarrow> nat \<Rightarrow> Conn \<Rightarrow> (nat \<times> goerr option) \<times> Conn" where
  "writeLoop b totalSent c =
     (if \<not> length b > 0 then ((totalSent, None), c)
      else
        let chunkSize = (if length b > MaxPlaintextLength then MaxPlaintextLength else length b);
            chunk = take chunkSize b
        in case cn_outCipher c of
             None \<Rightarrow> ((totalSent, Some (Panic ''nil pointer dereference'')), c)
           | Some rc \<Rightarrow>
               (case Seal RecordTypeApplicationData chunk rc of
                  (Inl err, rc1) \<Rightarrow>
                    ((totalSent, Some (ErrWrap ''teetls: seal record'' err)), c\<lparr>cn_outCipher := Some rc1\<rparr>)
                | (Inr record, rc1) \<Rightarrow>
                    (case writeFull record (cn_rawConn c) of
                       (Inl err, n) \<Rightarrow> ((totalSent, Some err), c\<lparr>cn_outCipher := Some rc1, cn_rawConn := n\<rparr>)
                     | (Inr _, n) \<Rightarrow>
                         writeLoop (drop chunkSize b) (totalSent + chunkSize)
                           (c\<lparr>cn_outCipher := Some rc1, cn_rawConn := n\<rparr>))))"
  by pat_completeness auto
termination
  by (relation "measure (\<lambda>(b, t, c). length b)") (auto split: if_splits)

declare writeLoop.simps [simp del]

definition Conn_Write :: "gmsm \<Rightarrow> hsEnv \<Rightarrow> bytes \<Rightarrow> Conn \<Rightarrow> (nat \<times> goerr option) \<times> Conn" where
  "Conn_Write g env b c =
     (case Conn_Handshake g env c of
        (Some err, c1) \<Rightarrow> ((0, Some err), c1)
      | (None, c1) \<Rightarrow> writeLoop b 0 c1)"

section \<open>Close\<close>

text \<open>
  \<^verbatim>\<open>errors.Join\<close> of two: nil errors are dropped, and one error alone is joined under its own text.
\<close>

definition errorsJoin :: "goerr option \<Rightarrow> goerr option \<Rightarrow> goerr option" where
  "errorsJoin a b =
     (case (a, b) of
        (None, None) \<Rightarrow> None
      | (Some e, None) \<Rightarrow> Some (ErrWrap [] e)
      | (None, Some e) \<Rightarrow> Some (ErrWrap [] e)
      | (Some e, Some e') \<Rightarrow> Some (ErrJoin e e'))"

definition sendCloseNotify :: "gotime \<Rightarrow> RecordCipher \<Rightarrow> Conn \<Rightarrow> goerr option \<times> Conn" where
  "sendCloseNotify now rc c =
     (case Seal RecordTypeAlert [1, 0] rc of
        (Inl err, rc1) \<Rightarrow> (Some (ErrWrap ''teetls: seal close_notify'' err), c\<lparr>cn_outCipher := Some rc1\<rparr>)
      | (Inr record, rc1) \<Rightarrow>
          (case setWriteDeadline (now + 500 * nsMillisecond) (cn_rawConn c) of
             (Inl err, n) \<Rightarrow> (Some (ErrWrap ''teetls: set close_notify deadline'' err), c\<lparr>cn_outCipher := Some rc1, cn_rawConn := n\<rparr>)
           | (Inr _, n) \<Rightarrow>
               (case writeFull record n of
                  (Inl err, n2) \<Rightarrow> (Some (ErrWrap ''teetls: write close_notify'' err), c\<lparr>cn_outCipher := Some rc1, cn_rawConn := n2\<rparr>)
                | (Inr _, n2) \<Rightarrow> (None, c\<lparr>cn_outCipher := Some rc1, cn_rawConn := n2\<rparr>))))"

definition Conn_Close :: "gotime \<Rightarrow> Conn \<Rightarrow> goerr option \<times> Conn" where
  "Conn_Close now c =
     (if cn_closed c then (cn_closeErr c, c)
      else
        let (alertErr, c1) = (case (cn_handshakeDone c, cn_outCipher c) of
               (True, Some rc) \<Rightarrow> sendCloseNotify now rc c
             | _ \<Rightarrow> (None, c));
            (rawErr, n) = netClose (cn_rawConn c1);
            err = errorsJoin alertErr rawErr
        in (err, c1\<lparr>cn_rawConn := n, cn_closed := True, cn_closeErr := err\<rparr>))"

section \<open>The other methods\<close>

definition Conn_LocalAddr :: "Conn \<Rightarrow> string" where
  "Conn_LocalAddr c = laddr (cn_rawConn c)"

definition Conn_RemoteAddr :: "Conn \<Rightarrow> string" where
  "Conn_RemoteAddr c = raddr (cn_rawConn c)"

definition onRaw :: "(net, unit) io \<Rightarrow> Conn \<Rightarrow> goerr option \<times> Conn" where
  "onRaw act c = (case act (cn_rawConn c) of (r, n) \<Rightarrow> (case r of Inl e \<Rightarrow> Some e | Inr _ \<Rightarrow> None, c\<lparr>cn_rawConn := n\<rparr>))"

definition Conn_SetDeadline :: "gotime \<Rightarrow> Conn \<Rightarrow> goerr option \<times> Conn" where
  "Conn_SetDeadline t c = onRaw (setDeadline t) c"

definition Conn_SetReadDeadline :: "gotime \<Rightarrow> Conn \<Rightarrow> goerr option \<times> Conn" where
  "Conn_SetReadDeadline t c = onRaw (setReadDeadline t) c"

definition Conn_SetWriteDeadline :: "gotime \<Rightarrow> Conn \<Rightarrow> goerr option \<times> Conn" where
  "Conn_SetWriteDeadline t c = onRaw (setWriteDeadline t) c"

definition Conn_PeerEvidence :: "Conn \<Rightarrow> CSVEvidenceExtension option" where
  "Conn_PeerEvidence c = cloneEvidence (cn_peerEvidence c)"

text \<open>The deep copy of a certificate, over the fields the model has.\<close>

definition Conn_PeerCertificate :: "Conn \<Rightarrow> x509cert option" where
  "Conn_PeerCertificate c =
     (case cn_peerCertificate c of
        None \<Rightarrow> None
      | Some p \<Rightarrow> Some (p\<lparr>crt_RawSubjectPublicKeyInfo := [] @ crt_RawSubjectPublicKeyInfo p,
                          crt_Extensions := [] @ crt_Extensions p\<rparr>))"

definition Conn_PeerCertPEM :: "Conn \<Rightarrow> bytes" where
  "Conn_PeerCertPEM c = [] @ cn_peerCertPEM c"

section \<open>Results of a handshake\<close>

lemma appCiphers_inv: "appCiphers g secret ts cc sc \<Longrightarrow> rcInv cc \<and> rcInv sc \<and> rc_seq cc = 0 \<and> rc_seq sc = 0"
  by (auto simp: appCiphers_def dest: NewRecordCipher_inv)

lemma clientView_ciphers: "clientView g env ctx cfg res ch sh ee sig own \<Longrightarrow> \<exists>secret ts. appCiphers g secret ts (hr_OutCipher res) (hr_InCipher res)"
  unfolding clientView_def Let_def by blast

lemma serverView_ciphers: "serverView g env ctx cfg res ch m sh cert sig peer \<Longrightarrow> \<exists>secret ts. appCiphers g secret ts (hr_InCipher res) (hr_OutCipher res)"
  unfolding serverView_def Let_def by blast

lemma client_result_ciphers:
  "ClientHandshakeContext g env ctxp s = (Inr res, s') \<Longrightarrow> \<exists>secret ts. appCiphers g secret ts (hr_OutCipher res) (hr_InCipher res)"
  using ClientHandshakeContext_view clientView_ciphers by blast

lemma server_result_ciphers:
  "ServerHandshakeContext g env ctxp s = (Inr res, s') \<Longrightarrow> \<exists>secret ts. appCiphers g secret ts (hr_InCipher res) (hr_OutCipher res)"
  using ServerHandshakeContext_view serverView_ciphers by blast

lemma setDeadline_closed: "onNet (setDeadline t) s = (r, s') \<Longrightarrow> net_closed (hs_net s') = net_closed (hs_net s)"
  by (auto simp: onNet_def setDeadline_def split: option.splits)

lemma ServerHandshakeContext_closed:
  assumes "ServerHandshakeContext g env ctxp s = (r, s')"
  shows "net_closed (hs_net s') = net_closed (hs_net s)"
proof (cases "Validate (cfgOf s)")
  case (Inl e)
  with assms show ?thesis by (simp add: ServerHandshakeContext_def Let_def bindIO_def wrapIO_def)
next
  case v: (Inr u)
  let ?ctx = "case ctxp of None \<Rightarrow> contextBackground | Some c \<Rightarrow> c"
  obtain r1 s1 where d: "onNet (setDeadline (hx_now env + timeout (cfgOf s))) s = (r1, s1)" by fastforce
  obtain r2 s2 where x: "serverExchange g env ?ctx (cfgOf s) s1 = (r2, s2)" by fastforce
  obtain r3 s3 where z: "onNet (setDeadline 0) s2 = (r3, s3)" by fastforce
  have "net_closed (hs_net s2) = net_closed (hs_net s1)"
    using keepsD[OF keeps_serverExchange x] by (simp add: lineState_def)
  then show ?thesis
    using assms v d x z setDeadline_closed[OF d] setDeadline_closed[OF z]
    by (cases r1) (auto simp: ServerHandshakeContext_def Let_def bindIO_def wrapIO_def)
qed

lemma ClientHandshakeContext_closed:
  "ClientHandshakeContext g env ctxp s = (r, s') \<Longrightarrow> net_closed (hs_net s') = net_closed (hs_net s)"
  using ClientHandshakeContext_line by (fastforce simp: lineState_def)

text \<open>The outcomes of \<^verbatim>\<open>handshake\<close>.\<close>

lemma handshake_cases:
  assumes "handshake g env ctxp c = (r, c')"
  obtains (already) "cn_handshakeDone c" "r = None" "c' = c"
    | (failed) e where "\<not> cn_handshakeDone c" "cn_handshakeErr c = Some e" "r = Some e" "c' = c"
    | (error) e n cfg where "\<not> cn_handshakeDone c" "cn_handshakeErr c = None" "r = Some e" "net_closed n = net_closed (cn_rawConn c)"
        "c' = (if isPanic e then c\<lparr>cn_rawConn := n, cn_cfg := cfg\<rparr> else c\<lparr>cn_rawConn := n, cn_cfg := cfg, cn_handshakeErr := Some e\<rparr>)"
    | (ok) res :: HandshakeResult and n cfg cert where "\<not> cn_handshakeDone c" "cn_handshakeErr c = None" "r = None"
        "net_closed n = net_closed (cn_rawConn c)" "rcInv (hr_InCipher res)" "rcInv (hr_OutCipher res)"
        "rc_seq (hr_InCipher res) = 0" "rc_seq (hr_OutCipher res) = 0"
        "c' = c\<lparr>cn_rawConn := n, cn_cfg := cfg, cn_inCipher := Some (hr_InCipher res),
           cn_outCipher := Some (hr_OutCipher res), cn_peerCertPEM := hr_PeerCertPEM res,
           cn_peerEvidence := cloneEvidence (hr_PeerEvidence res), cn_peerCertificate := cert, cn_handshakeDone := True\<rparr>"
proof -
  let ?s = "\<lparr>hs_net = cn_rawConn c, hs_cfg = cn_cfg c\<rparr>"
  let ?ctx = "Some (case ctxp of None \<Rightarrow> contextBackground | Some x \<Rightarrow> x)"
  let ?run = "if cn_isServer c then ServerHandshakeContext g env ?ctx ?s else ClientHandshakeContext g env ?ctx ?s"
  obtain q s' where run: "?run = (q, s')" by fastforce
  have cl: "net_closed (hs_net s') = net_closed (cn_rawConn c)"
    using run ServerHandshakeContext_closed[of g env ?ctx ?s q s'] ClientHandshakeContext_closed[of g env ?ctx ?s q s']
    by (auto split: if_splits)
  consider "cn_handshakeDone c" | e where "\<not> cn_handshakeDone c" "cn_handshakeErr c = Some e"
    | e where "\<not> cn_handshakeDone c" "cn_handshakeErr c = None" "q = Inl e"
    | res where "\<not> cn_handshakeDone c" "cn_handshakeErr c = None" "q = Inr res"
    by (cases "cn_handshakeErr c"; cases q) blast+
  then show thesis
  proof cases
    case 1
    then show ?thesis using assms by (intro already) (auto simp: handshake_def Let_def)
  next
    case (2 e)
    then show ?thesis using assms by (intro failed[of e]) (auto simp: handshake_def Let_def)
  next
    case (3 e)
    then show ?thesis using assms run cl by (intro error[where e = e and n = "hs_net s'" and cfg = "hs_cfg s'"]) (auto simp: handshake_def Let_def)
  next
    case (4 res)
    have "\<exists>secret ts. appCiphers g secret ts (hr_OutCipher res) (hr_InCipher res) \<or> appCiphers g secret ts (hr_InCipher res) (hr_OutCipher res)"
      using run 4(3) server_result_ciphers[of g env ?ctx ?s res s'] client_result_ciphers[of g env ?ctx ?s res s']
      by (auto split: if_splits)
    then have "rcInv (hr_InCipher res) \<and> rcInv (hr_OutCipher res) \<and> rc_seq (hr_InCipher res) = 0 \<and> rc_seq (hr_OutCipher res) = 0"
      using appCiphers_inv by blast
    with 4 show ?thesis using assms run cl
      by (intro ok[where n = "hs_net s'" and res = res and cfg = "hs_cfg s'" and
            cert = "case hr_PeerCertificate res of None \<Rightarrow> cn_peerCertificate c | Some gc \<Rightarrow> Some (gc_X509 gc)"])
        (auto simp: handshake_def Let_def)
  qed
qed

text \<open>
  The handshake of a connection runs once. A second call of \<^verbatim>\<open>handshake\<close>, under any context, draws and clock,
  gives the outcome of the first, success or error, and changes nothing; only a panic is not remembered.
\<close>

theorem handshake_runs_once:
  assumes "handshake g env ctxp c = (r, c')" and "\<forall>e. r = Some e \<longrightarrow> \<not> isPanic e"
  shows "handshake g env' ctxp' c' = (r, c')"
  using assms(1)
proof (cases rule: handshake_cases)
  case already
  then show ?thesis by (simp add: handshake_def)
next
  case (failed e)
  then show ?thesis by (simp add: handshake_def)
next
  case (error e n cfg)
  with assms(2) show ?thesis by (simp add: handshake_def)
next
  case (ok res n cfg cert)
  then show ?thesis by (simp add: handshake_def)
qed

lemma demo_refused:
  "\<exists>e c'. handshake demoPki (demoSide 3) None (NewServerConn quietNet None) = (Some e, c') \<and> \<not> isPanic e"
  by (simp add: handshake_def NewServerConn_def newConn_def ServerHandshakeContext_def serverExchange_def prepareCertificate_def
      GetOrGenerateCertificateContext_def Validate_def cfgOf_def zeroConfig_def onNet_def onCfg_def
      setDeadline_def quietNet_def bindIO_def wrapIO_def Let_def)

theorem handshake_runs_once_witness:
  "\<exists>e c'. handshake demoPki (demoSide 3) None (NewServerConn quietNet None) = (Some e, c') \<and>
     handshake demoPki (demoSide 5) None c' = (Some e, c')"
proof -
  obtain e c' where r: "handshake demoPki (demoSide 3) None (NewServerConn quietNet None) = (Some e, c')" "\<not> isPanic e"
    using demo_refused by blast
  from handshake_runs_once[OF r(1)] r show ?thesis by simp
qed

section \<open>The life of a connection\<close>

text \<open>
  The steps of a connection: the methods, under any draws, and the peer, whose bytes arrive at any time. A connection is
  reachable when steps lead to it from one of the constructors.
\<close>

inductive connStep :: "gmsm \<Rightarrow> Conn \<Rightarrow> Conn \<Rightarrow> bool" for g where
  step_handshake: "handshake g env ctxp c = (r, c') \<Longrightarrow> connStep g c c'"
| step_read: "Conn_Read g env n c = (r, c') \<Longrightarrow> connStep g c c'"
| step_write: "Conn_Write g env b c = (w, c') \<Longrightarrow> connStep g c c'"
| step_close: "Conn_Close now c = (r, c') \<Longrightarrow> connStep g c c'"
| step_deadline: "Conn_SetDeadline t c = (r, c') \<Longrightarrow> connStep g c c'"
| step_read_deadline: "Conn_SetReadDeadline t c = (r, c') \<Longrightarrow> connStep g c c'"
| step_write_deadline: "Conn_SetWriteDeadline t c = (r, c') \<Longrightarrow> connStep g c c'"
| step_arrival: "connStep g c (c\<lparr>cn_rawConn := (cn_rawConn c)\<lparr>rx := rx (cn_rawConn c) @ bs, rx_end := e\<rparr>\<rparr>)"

abbreviation connReach :: "gmsm \<Rightarrow> Conn \<Rightarrow> Conn \<Rightarrow> bool" where
  "connReach g \<equiv> reach (connStep g)"

definition connInv :: "Conn \<Rightarrow> bool" where
  "connInv c \<longleftrightarrow>
     (if cn_handshakeDone c
      then cn_handshakeErr c = None \<and> (\<exists>i. cn_inCipher c = Some i \<and> rcInv i) \<and> (\<exists>rc. cn_outCipher c = Some rc \<and> rcInv rc)
      else cn_inCipher c = None \<and> cn_outCipher c = None \<and> cn_readBuf c = [] \<and> \<not> cn_closeNotifyReceived c \<and>
           cn_peerCertPEM c = [] \<and> cn_peerEvidence c = None) \<and>
     (cn_closed c \<longrightarrow> net_closed (cn_rawConn c))"

lemma newConn_inv: "connInv (newConn b n cfg)"
  by (simp add: connInv_def newConn_def)

lemma handshake_inv:
  assumes "connInv c" "handshake g env ctxp c = (r, c')"
  shows "connInv c'" and "r = None \<Longrightarrow> cn_handshakeDone c'"
proof -
  have "connInv c' \<and> (r = None \<longrightarrow> cn_handshakeDone c')"
    using assms(2) by (cases rule: handshake_cases) (use assms(1) in \<open>auto simp: connInv_def split: if_splits\<close>)
  then show "connInv c'" and "r = None \<Longrightarrow> cn_handshakeDone c'" by auto
qed

text \<open>What a read and what a write may change of a connection whose handshake is done.\<close>

definition readOnly :: "Conn \<Rightarrow> Conn \<Rightarrow> bool" where
  "readOnly c c' \<longleftrightarrow> c' = c\<lparr>cn_rawConn := (cn_rawConn c)\<lparr>rx := rx (cn_rawConn c')\<rparr>, cn_inCipher := cn_inCipher c',
     cn_readBuf := cn_readBuf c', cn_closeNotifyReceived := cn_closeNotifyReceived c'\<rparr>"

definition writeOnly :: "Conn \<Rightarrow> Conn \<Rightarrow> bool" where
  "writeOnly c c' \<longleftrightarrow> c' = c\<lparr>cn_rawConn := (cn_rawConn c)\<lparr>tx := tx (cn_rawConn c'), wr := wr (cn_rawConn c')\<rparr>,
     cn_outCipher := cn_outCipher c'\<rparr>"

lemma readOnly_refl [simp]: "readOnly c c" and writeOnly_refl [simp]: "writeOnly c c"
  by (simp_all add: readOnly_def writeOnly_def)

lemma net_rx_trans: "n1 = n\<lparr>rx := a\<rparr> \<Longrightarrow> n2 = n1\<lparr>rx := b\<rparr> \<Longrightarrow> n2 = n\<lparr>rx := b\<rparr>"
  by simp

lemma readOnly_trans: "readOnly c c1 \<Longrightarrow> readOnly c1 c2 \<Longrightarrow> readOnly c c2"
  unfolding readOnly_def by (cases c; cases c1; cases c2) (clarsimp, metis net_rx_trans)

lemma net_tx_trans: "n1 = n\<lparr>tx := a, wr := w\<rparr> \<Longrightarrow> n2 = n1\<lparr>tx := b, wr := v\<rparr> \<Longrightarrow> n2 = n\<lparr>tx := b, wr := v\<rparr>"
  by simp

lemma writeOnly_trans: "writeOnly c c1 \<Longrightarrow> writeOnly c1 c2 \<Longrightarrow> writeOnly c c2"
  unfolding writeOnly_def by (cases c; cases c1; cases c2) (clarsimp, metis net_tx_trans)

lemma receivePayload_readOnly:
  "receivePayload rec c = (r, c') \<Longrightarrow> readOnly c c' \<and> ((\<exists>k. cn_inCipher c = Some k \<and> rcInv k) \<longrightarrow> (\<exists>k. cn_inCipher c' = Some k \<and> rcInv k))"
  by (auto simp: receivePayload_def receiveAlert_def readOnly_def Let_def split: option.splits prod.splits sum.splits if_splits
      dest: Unseal_inv)

lemma readFull_rx: "readFull k n = (r, n') \<Longrightarrow> n' = n\<lparr>rx := rx n'\<rparr>"
  by (auto simp: readFull_def split: if_splits)

text \<open>A connection that is ready to receive, with the cipher it has.\<close>

abbreviation inReady :: "Conn \<Rightarrow> bool" where
  "inReady c \<equiv> \<exists>k. cn_inCipher c = Some k \<and> rcInv k"

abbreviation outReady :: "Conn \<Rightarrow> bool" where
  "outReady c \<equiv> \<exists>k. cn_outCipher c = Some k \<and> rcInv k"

lemma receiveRecord_readOnly:
  assumes "receiveRecord c = (r, c')"
  shows "readOnly c c' \<and> (inReady c \<longrightarrow> inReady c')"
proof -
  obtain h n where h: "readFull RecordHeaderLen (cn_rawConn c) = (h, n)" by fastforce
  have n: "n = (cn_rawConn c)\<lparr>rx := rx n\<rparr>" by (rule readFull_rx[OF h])
  show ?thesis
  proof (cases "\<exists>header. h = Inr header \<and> header ! 0 = RecordTypeApplicationData \<and>
      0 < unat (BigEndian_Uint16 (slice header 3 5)) \<and> unat (BigEndian_Uint16 (slice header 3 5)) \<le> MaxCiphertextLength")
    case False
    then have "c' = c\<lparr>cn_rawConn := n\<rparr>" using assms h by (auto simp: receiveRecord_def Let_def split: sum.splits if_splits)
    then show ?thesis using n by (simp add: readOnly_def)
  next
    case True
    then obtain header where hd: "h = Inr header" "header ! 0 = RecordTypeApplicationData"
      "0 < unat (BigEndian_Uint16 (slice header 3 5))" "unat (BigEndian_Uint16 (slice header 3 5)) \<le> MaxCiphertextLength" by blast
    obtain p n2 where p: "readFull (unat (BigEndian_Uint16 (slice header 3 5))) n = (p, n2)" by fastforce
    have n2: "n2 = (cn_rawConn c)\<lparr>rx := rx n2\<rparr>" using net_rx_trans[OF n readFull_rx[OF p]] .
    let ?c2 = "c\<lparr>cn_rawConn := n2\<rparr>"
    have r2: "readOnly c ?c2" using n2 by (simp add: readOnly_def)
    show ?thesis
    proof (cases p)
      case (Inl e)
      then have "c' = ?c2" using assms h hd p by (simp add: receiveRecord_def)
      with r2 show ?thesis by simp
    next
      case (Inr payload)
      then have "receivePayload (header @ payload) ?c2 = (r, c')" using assms h hd p by (simp add: receiveRecord_def)
      from receivePayload_readOnly[OF this] readOnly_trans[OF r2] show ?thesis by simp
    qed
  qed
qed

lemma readLoop_readOnly: "readLoop n c = (r, c') \<Longrightarrow> readOnly c c' \<and> (inReady c \<longrightarrow> inReady c')"
proof (induction n c arbitrary: r c' rule: readLoop.induct)
  case (1 n c)
  obtain q c1 where q: "receiveRecord c = (q, c1)" by fastforce
  note f = receiveRecord_readOnly[OF q]
  show ?case
  proof (cases q)
    case (Inl e)
    with 1(2) q f show ?thesis by (simp add: readLoop.simps[of n c])
  next
    case (Inr p)
    show ?thesis
    proof (cases "p = []")
      case True
      then have "readLoop n c1 = (r, c')" using 1(2) q Inr by (simp add: readLoop.simps[of n c])
      from 1(1)[OF q[symmetric] Inr _ this] True f readOnly_trans show ?thesis by fastforce
    next
      case False
      then have "readOnly c1 c'" "cn_inCipher c' = cn_inCipher c1"
        using 1(2) q Inr by (auto simp: readLoop.simps[of n c] readOnly_def split: if_splits)
      with f readOnly_trans show ?thesis by fastforce
    qed
  qed
qed

lemma writeFull_tx: "writeFull p n = (r, n') \<Longrightarrow> n' = n\<lparr>tx := tx n', wr := wr n'\<rparr>"
  by (auto simp: writeFull_def connWrite_def split: list.splits option.splits prod.splits if_splits)

lemma writeLoop_step:
  "b \<noteq> [] \<Longrightarrow> writeLoop b t c =
     (case cn_outCipher c of
        None \<Rightarrow> ((t, Some (Panic ''nil pointer dereference'')), c)
      | Some rc \<Rightarrow>
          (case Seal RecordTypeApplicationData (take 16384 b) rc of
             (Inl err, rc1) \<Rightarrow> ((t, Some (ErrWrap ''teetls: seal record'' err)), c\<lparr>cn_outCipher := Some rc1\<rparr>)
           | (Inr record, rc1) \<Rightarrow>
               (case writeFull record (cn_rawConn c) of
                  (Inl err, n) \<Rightarrow> ((t, Some err), c\<lparr>cn_outCipher := Some rc1, cn_rawConn := n\<rparr>)
                | (Inr _, n) \<Rightarrow> writeLoop (drop 16384 b) (t + min 16384 (length b)) (c\<lparr>cn_outCipher := Some rc1, cn_rawConn := n\<rparr>))))"
proof -
  assume ne: "b \<noteq> []"
  have "take (if length b > 16384 then 16384 else length b) b = take 16384 b"
    "drop (if length b > 16384 then 16384 else length b) b = drop 16384 b"
    "(if length b > 16384 then 16384 else length b) = min 16384 (length b)" by auto
  with ne show ?thesis
    by (subst writeLoop.simps) (simp only: MaxPlaintextLength_def Let_def length_greater_0_conv not_True_eq_False not_False_eq_True if_False)
qed

lemma writeLoop_done [simp]: "writeLoop [] t c = ((t, None), c)"
  by (simp add: writeLoop.simps)

lemma writeLoop_writeOnly: "writeLoop b t c = (w, c') \<Longrightarrow> writeOnly c c' \<and> (outReady c \<longrightarrow> outReady c')"
proof (induction b arbitrary: t c w c' rule: maxChunks.induct)
  case (1 b)
  show ?case
  proof (cases "b = [] \<or> cn_outCipher c = None")
    case True
    with "1.prems" show ?thesis by (cases "b = []") (auto simp: writeLoop_step)
  next
    case False
    then obtain rc where ne: "b \<noteq> []" and rc: "cn_outCipher c = Some rc" by auto
    obtain q rc1 where q: "Seal RecordTypeApplicationData (take 16384 b) rc = (q, rc1)" by fastforce
    have inv: "rcInv rc \<Longrightarrow> rcInv rc1" using Seal_inv[OF _ q] .
    show ?thesis
    proof (cases q)
      case (Inl e)
      with "1.prems" ne rc q inv show ?thesis by (auto simp: writeLoop_step writeOnly_def)
    next
      case (Inr rec)
      obtain u n where u: "writeFull rec (cn_rawConn c) = (u, n)" by fastforce
      let ?c1 = "c\<lparr>cn_outCipher := Some rc1, cn_rawConn := n\<rparr>"
      have w1: "writeOnly c ?c1" using writeFull_tx[OF u] by (simp add: writeOnly_def)
      show ?thesis
      proof (cases u)
        case (Inl e)
        with "1.prems" ne rc q \<open>q = Inr rec\<close> u inv w1 show ?thesis by (auto simp: writeLoop_step)
      next
        case (Inr v)
        then have "writeLoop (drop 16384 b) (t + min 16384 (length b)) ?c1 = (w, c')"
          using "1.prems" ne rc q \<open>q = Inr rec\<close> u by (simp add: writeLoop_step)
        from "1.IH"[OF ne this] w1 inv rc writeOnly_trans show ?thesis by fastforce
      qed
    qed
  qed
qed

section \<open>The invariant\<close>

lemma readOnly_inv: "connInv c \<Longrightarrow> cn_handshakeDone c \<Longrightarrow> readOnly c c' \<Longrightarrow> inReady c' \<Longrightarrow> connInv c'"
  unfolding readOnly_def connInv_def by (cases c; cases c') (clarsimp, metis net.select_convs(9) net.surjective net.update_convs(1))

lemma writeOnly_inv: "connInv c \<Longrightarrow> cn_handshakeDone c \<Longrightarrow> writeOnly c c' \<Longrightarrow> outReady c' \<Longrightarrow> connInv c'"
  unfolding writeOnly_def connInv_def by (cases c; cases c') (clarsimp, metis net.select_convs(9) net.surjective net.update_convs(3,4))

lemma connInv_ready: "connInv c \<Longrightarrow> cn_handshakeDone c \<Longrightarrow> inReady c \<and> outReady c"
  by (auto simp: connInv_def)

lemma Conn_Read_inv:
  assumes inv: "connInv c" and run: "Conn_Read g env n c = (r, c')"
  shows "connInv c'"
proof -
  obtain h c1 where h: "Conn_Handshake g env c = (h, c1)" by fastforce
  have i1: "connInv c1" "h = None \<Longrightarrow> cn_handshakeDone c1"
    using handshake_inv[OF inv] h unfolding Conn_Handshake_def by blast+
  show ?thesis
  proof (cases h)
    case None
    have "readOnly c1 c' \<and> inReady c'"
    proof (cases "n = 0 \<or> cn_readBuf c1 \<noteq> []")
      case True
      with run h None connInv_ready[OF i1(1) i1(2)[OF None]] show ?thesis by (auto simp: Conn_Read_def readOnly_def split: if_splits)
    next
      case False
      then have "readLoop n c1 = (r, c')" using run h None by (simp add: Conn_Read_def)
      from readLoop_readOnly[OF this] connInv_ready[OF i1(1) i1(2)[OF None]] show ?thesis by blast
    qed
    then show ?thesis using readOnly_inv[OF i1(1) i1(2)[OF None]] by blast
  qed (use run h i1 in \<open>simp add: Conn_Read_def\<close>)
qed

lemma Conn_Write_inv:
  assumes inv: "connInv c" and run: "Conn_Write g env b c = (w, c')"
  shows "connInv c'"
proof -
  obtain h c1 where h: "Conn_Handshake g env c = (h, c1)" by fastforce
  have i1: "connInv c1" "h = None \<Longrightarrow> cn_handshakeDone c1"
    using handshake_inv[OF inv] h unfolding Conn_Handshake_def by blast+
  show ?thesis
  proof (cases h)
    case None
    then have "writeLoop b 0 c1 = (w, c')" using run h by (simp add: Conn_Write_def)
    from writeLoop_writeOnly[OF this] connInv_ready[OF i1(1) i1(2)[OF None]] writeOnly_inv[OF i1(1) i1(2)[OF None]]
    show ?thesis by blast
  qed (use run h i1 in \<open>simp add: Conn_Write_def\<close>)
qed

lemma writeFull_closed: "writeFull p n = (r, n') \<Longrightarrow> net_closed n' = net_closed n"
  by (auto simp: writeFull_def connWrite_def split: list.splits option.splits prod.splits if_splits)

lemma sendCloseNotify_frame:
  assumes "sendCloseNotify now rc c = (r, c')"
  shows "\<exists>rc1 n. c' = c\<lparr>cn_outCipher := Some rc1, cn_rawConn := n\<rparr> \<and> (rcInv rc \<longrightarrow> rcInv rc1) \<and> net_closed n = net_closed (cn_rawConn c) \<and> rx n = rx (cn_rawConn c)"
proof -
  obtain q rc1 where q: "Seal RecordTypeAlert [1, 0] rc = (q, rc1)" by fastforce
  have inv: "rcInv rc \<longrightarrow> rcInv rc1" using Seal_inv[OF _ q] by blast
  show ?thesis using assms q inv
    by (intro exI[of _ rc1] exI[of _ "cn_rawConn c'"]) (auto simp: sendCloseNotify_def setWriteDeadline_def writeFull_def connWrite_def
        split: sum.splits option.splits list.splits prod.splits if_splits)
qed

lemma Conn_Close_inv:
  assumes inv: "connInv c" and run: "Conn_Close now c = (r, c')"
  shows "connInv c'"
proof (cases "cn_closed c \<or> \<not> cn_handshakeDone c")
  case True
  with inv run show ?thesis by (cases "cn_closed c") (auto simp: Conn_Close_def connInv_def netClose_def Let_def)
next
  case False
  then obtain rc where rc: "cn_outCipher c = Some rc" "rcInv rc" using connInv_ready[OF inv] by blast
  obtain e c1 where s: "sendCloseNotify now rc c = (e, c1)" by fastforce
  obtain rc1 n where c1: "c1 = c\<lparr>cn_outCipher := Some rc1, cn_rawConn := n\<rparr>" "rcInv rc1"
    using sendCloseNotify_frame[OF s] rc(2) by blast
  with inv run False rc(1) s show ?thesis by (auto simp: Conn_Close_def connInv_def netClose_def Let_def)
qed

lemma deadlines_closed:
  "setDeadline t n = (r, n') \<Longrightarrow> net_closed n' = net_closed n" "setReadDeadline t n = (r, n') \<Longrightarrow> net_closed n' = net_closed n"
  "setWriteDeadline t n = (r, n') \<Longrightarrow> net_closed n' = net_closed n"
  by (auto simp: setDeadline_def setReadDeadline_def setWriteDeadline_def split: option.splits)

lemma deadlines_inv:
  "connInv c \<Longrightarrow> Conn_SetDeadline t c = (r, c') \<Longrightarrow> connInv c'" "connInv c \<Longrightarrow> Conn_SetReadDeadline t c = (r, c') \<Longrightarrow> connInv c'"
  "connInv c \<Longrightarrow> Conn_SetWriteDeadline t c = (r, c') \<Longrightarrow> connInv c'"
  by (auto simp: Conn_SetDeadline_def Conn_SetReadDeadline_def Conn_SetWriteDeadline_def onRaw_def connInv_def
      dest: deadlines_closed split: prod.splits)

lemma connStep_inv: "connStep g c c' \<Longrightarrow> connInv c \<Longrightarrow> connInv c'"
proof (induction rule: connStep.induct)
  case (step_handshake env ctxp c r c')
  then show ?case using handshake_inv(1) by blast
next
  case (step_read env n c r c')
  then show ?case using Conn_Read_inv by blast
next
  case (step_write env b c w c')
  then show ?case using Conn_Write_inv by blast
next
  case (step_close now c r c')
  then show ?case using Conn_Close_inv by blast
next
  case (step_deadline t c r c')
  then show ?case using deadlines_inv(1) by blast
next
  case (step_read_deadline t c r c')
  then show ?case using deadlines_inv(2) by blast
next
  case (step_write_deadline t c r c')
  then show ?case using deadlines_inv(3) by blast
next
  case (step_arrival c bs e)
  then show ?case by (simp add: connInv_def)
qed

interpretation conn_steps: step_invariant "connStep g" connInv for g
  by unfold_locales (rule connStep_inv)

section \<open>The outcome of the handshake is final\<close>

text \<open>The part of a connection that only its handshake sets.\<close>

definition identity :: "Conn \<Rightarrow> Config option \<times> bool \<times> bool \<times> goerr option \<times> bytes \<times> CSVEvidenceExtension option \<times> x509cert option" where
  "identity c = (cn_cfg c, cn_isServer c, cn_handshakeDone c, cn_handshakeErr c, cn_peerCertPEM c, cn_peerEvidence c, cn_peerCertificate c)"

lemma readOnly_identity: "readOnly c c' \<Longrightarrow> identity c' = identity c"
  and writeOnly_identity: "writeOnly c c' \<Longrightarrow> identity c' = identity c"
proof -
  show "readOnly c c' \<Longrightarrow> identity c' = identity c" by (cases c; cases c') (simp add: readOnly_def identity_def)
  show "writeOnly c c' \<Longrightarrow> identity c' = identity c" by (cases c; cases c') (simp add: writeOnly_def identity_def)
qed

text \<open>Every call is a handshake, or none, followed by something that keeps the identity.\<close>

definition handshaken :: "gmsm \<Rightarrow> Conn \<Rightarrow> Conn \<Rightarrow> bool" where
  "handshaken g c c' \<longleftrightarrow> (\<exists>c1. (c1 = c \<or> (\<exists>env ctxp r. handshake g env ctxp c = (r, c1))) \<and> identity c' = identity c1)"

lemma handshakenI: "identity c' = identity c \<Longrightarrow> handshaken g c c'"
  "handshake g env ctxp c = (r, c1) \<Longrightarrow> identity c' = identity c1 \<Longrightarrow> handshaken g c c'"
  unfolding handshaken_def by blast+

lemma Conn_Read_handshaken:
  assumes "Conn_Read g env n c = (r, c')"
  shows "handshaken g c c'"
proof -
  obtain e c1 where h: "handshake g env (Some contextBackground) c = (e, c1)" by fastforce
  have "identity c' = identity c1"
    using assms h readLoop_readOnly[of n c1 r c'] readOnly_identity
    by (auto simp: Conn_Read_def Conn_Handshake_def identity_def split: option.splits if_splits)
  with h show ?thesis by (rule handshakenI(2))
qed

lemma Conn_Write_handshaken:
  assumes "Conn_Write g env b c = (w, c')"
  shows "handshaken g c c'"
proof -
  obtain e c1 where h: "handshake g env (Some contextBackground) c = (e, c1)" by fastforce
  have "identity c' = identity c1"
    using assms h writeLoop_writeOnly[of b 0 c1 w c'] writeOnly_identity
    by (auto simp: Conn_Write_def Conn_Handshake_def split: option.splits)
  with h show ?thesis by (rule handshakenI(2))
qed

lemma Conn_Close_identity: "Conn_Close now c = (r, c') \<Longrightarrow> identity c' = identity c"
  by (auto simp: Conn_Close_def sendCloseNotify_def identity_def Let_def split: if_splits prod.splits sum.splits option.splits bool.splits)

lemma onRaw_identity: "onRaw act c = (r, c') \<Longrightarrow> identity c' = identity c"
  by (auto simp: onRaw_def identity_def split: prod.splits)

lemma connStep_handshaken: "connStep g c c' \<Longrightarrow> handshaken g c c'"
proof (induction rule: connStep.induct)
  case (step_handshake env ctxp c r c')
  then show ?case using handshakenI(2) by blast
next
  case (step_arrival c bs e)
  then show ?case by (intro handshakenI(1)) (simp add: identity_def)
qed (auto intro: handshakenI(1) Conn_Read_handshaken Conn_Write_handshaken
      dest: Conn_Close_identity onRaw_identity simp: Conn_SetDeadline_def Conn_SetReadDeadline_def Conn_SetWriteDeadline_def)

text \<open>A connection whose handshake has an outcome, success or a recorded error, keeps it through every step.\<close>

definition decided :: "Conn \<Rightarrow> bool" where
  "decided c \<longleftrightarrow> cn_handshakeDone c \<or> cn_handshakeErr c \<noteq> None"

lemma handshake_decided: "decided c \<Longrightarrow> handshake g env ctxp c = (if cn_handshakeDone c then None else cn_handshakeErr c, c)"
  by (auto simp: handshake_def decided_def)

lemma connStep_decided: "connStep g c c' \<Longrightarrow> decided c \<Longrightarrow> identity c' = identity c"
  using connStep_handshaken[of g c c'] by (auto simp: handshaken_def handshake_decided)

lemma decided_identity: "identity c' = identity c \<Longrightarrow> decided c' = decided c"
  by (simp add: identity_def decided_def)

interpretation decided_steps: step_invariant "connStep g" "\<lambda>c. decided c \<and> identity c = i" for g i
  by unfold_locales (auto dest: connStep_decided decided_identity)

lemma decided_reach:
  assumes "connReach g c c2" "decided c"
  shows "decided c2" "cn_handshakeDone c2 = cn_handshakeDone c" "cn_handshakeErr c2 = cn_handshakeErr c"
    "cn_peerCertPEM c2 = cn_peerCertPEM c" "cn_peerEvidence c2 = cn_peerEvidence c" "cn_peerCertificate c2 = cn_peerCertificate c"
  using decided_steps.reach_inv[OF assms(1), of "identity c"] assms(2) by (simp_all add: identity_def)

lemma failed_calls:
  assumes "\<not> cn_handshakeDone c" "cn_handshakeErr c = Some e"
  shows "handshake g env ctxp c = (Some e, c)" "Conn_Read g env n c = (([], Some e), c)" "Conn_Write g env b c = ((0, Some e), c)"
  using assms by (simp_all add: handshake_decided decided_def Conn_Read_def Conn_Write_def Conn_Handshake_def)

text \<open>
  C16: the invariant of a connection, in every state \<open>c\<close> that any sequence of calls, failing ones included, and arriving bytes lead to
  from a new client or server connection. Once the handshake is done both ciphers are there and well formed, so that no method
  dereferences a nil cipher, and no handshake error is recorded; before that there is neither a cipher nor a buffered plaintext
  nor a peer certificate or evidence. A closed connection has closed its transport. The outcome of the handshake is final: in every state
  \<open>c2\<close> reachable from \<open>c\<close>, a handshake that has failed with an error is still failed with that error, and \<^verbatim>\<open>Handshake\<close>, \<^verbatim>\<open>Read\<close> and
  \<^verbatim>\<open>Write\<close> return it and change nothing; a handshake that is done stays done, with the same peer certificate and evidence.
\<close>

theorem connection_invariant:
  assumes "connReach g c0 c" and "c0 = NewClientConn n cfg \<or> c0 = NewServerConn n cfg"
  shows "(if cn_handshakeDone c
      then cn_handshakeErr c = None \<and> (\<exists>i. cn_inCipher c = Some i \<and> rcInv i) \<and> (\<exists>rc. cn_outCipher c = Some rc \<and> rcInv rc)
      else cn_inCipher c = None \<and> cn_outCipher c = None \<and> cn_readBuf c = [] \<and> \<not> cn_closeNotifyReceived c \<and>
           Conn_PeerCertPEM c = [] \<and> Conn_PeerEvidence c = None) \<and>
     (cn_closed c \<longrightarrow> net_closed (cn_rawConn c)) \<and>
     (\<forall>e c2. cn_handshakeErr c = Some e \<and> connReach g c c2 \<longrightarrow>
        \<not> cn_handshakeDone c2 \<and> cn_handshakeErr c2 = Some e \<and> (\<forall>env ctxp. handshake g env ctxp c2 = (Some e, c2)) \<and>
        (\<forall>env m. Conn_Read g env m c2 = (([], Some e), c2)) \<and> (\<forall>env b. Conn_Write g env b c2 = ((0, Some e), c2))) \<and>
     (\<forall>c2. cn_handshakeDone c \<and> connReach g c c2 \<longrightarrow>
        cn_handshakeDone c2 \<and> (\<forall>env ctxp. handshake g env ctxp c2 = (None, c2)) \<and> Conn_PeerCertPEM c2 = Conn_PeerCertPEM c \<and>
        Conn_PeerEvidence c2 = Conn_PeerEvidence c \<and> Conn_PeerCertificate c2 = Conn_PeerCertificate c)"
proof (intro conjI allI impI)
  have "connInv c0" using assms(2) newConn_inv by (auto simp: NewClientConn_def NewServerConn_def)
  from conn_steps.reach_inv[OF assms(1) this] have inv: "connInv c" .
  then show "if cn_handshakeDone c
      then cn_handshakeErr c = None \<and> (\<exists>i. cn_inCipher c = Some i \<and> rcInv i) \<and> (\<exists>rc. cn_outCipher c = Some rc \<and> rcInv rc)
      else cn_inCipher c = None \<and> cn_outCipher c = None \<and> cn_readBuf c = [] \<and> \<not> cn_closeNotifyReceived c \<and>
           Conn_PeerCertPEM c = [] \<and> Conn_PeerEvidence c = None"
    by (simp add: connInv_def Conn_PeerCertPEM_def Conn_PeerEvidence_def cloneEvidence_def)
  from inv show "net_closed (cn_rawConn c)" if "cn_closed c" using that by (simp add: connInv_def)
  {
    fix e c2
    assume e: "cn_handshakeErr c = Some e \<and> connReach g c c2"
    then have "decided c" "\<not> cn_handshakeDone c" using inv by (auto simp: decided_def connInv_def)
    with e show failed: "\<not> cn_handshakeDone c2" "cn_handshakeErr c2 = Some e" using decided_reach[of g c c2] by simp_all
    show "handshake g env ctxp c2 = (Some e, c2)" "Conn_Read g env m c2 = (([], Some e), c2)" "Conn_Write g env b c2 = ((0, Some e), c2)"
      for env ctxp m b by (rule failed_calls[OF failed])+
  next
    fix c2
    assume d: "cn_handshakeDone c \<and> connReach g c c2"
    then have "decided c" by (simp add: decided_def)
    note r = decided_reach[OF conjunct2[OF d] this]
    from r d show "cn_handshakeDone c2" "Conn_PeerCertPEM c2 = Conn_PeerCertPEM c" "Conn_PeerEvidence c2 = Conn_PeerEvidence c"
      "Conn_PeerCertificate c2 = Conn_PeerCertificate c"
      by (simp_all add: Conn_PeerCertPEM_def Conn_PeerEvidence_def Conn_PeerCertificate_def)
    from r d show "handshake g env ctxp c2 = (None, c2)" for env ctxp by (simp add: handshake_decided)
  }
qed

theorem connection_invariant_witness:
  "\<exists>e c r c2. handshake demoPki (demoSide 3) None (NewServerConn quietNet None) = (Some e, c) \<and> Conn_Close 7 c = (r, c2) \<and>
     cn_inCipher c = None \<and> Conn_Read demoPki (demoSide 5) 4 c2 = (([], Some e), c2) \<and>
     handshake demoPki (demoSide 5) None c2 = (Some e, c2)"
proof -
  obtain e c where h: "handshake demoPki (demoSide 3) None (NewServerConn quietNet None) = (Some e, c)" "\<not> isPanic e"
    using demo_refused by blast
  obtain r c2 where cl: "Conn_Close 7 c = (r, c2)" by fastforce
  have e: "cn_handshakeErr c = Some e" "\<not> cn_handshakeDone c"
    using h(1) by (cases rule: handshake_cases; use h(2) in \<open>simp add: NewServerConn_def newConn_def\<close>)+
  have reach: "connReach demoPki (NewServerConn quietNet None) c" "connReach demoPki c c2"
    by (rule reach_one[of "connStep demoPki", OF step_handshake[OF h(1)]], rule reach_one[of "connStep demoPki", OF step_close[OF cl]])
  from connection_invariant[OF reach(1) disjI2[OF refl]] e reach(2) have "cn_inCipher c = None"
    "Conn_Read demoPki (demoSide 5) 4 c2 = (([], Some e), c2)" "handshake demoPki (demoSide 5) None c2 = (Some e, c2)" by auto
  with h(1) cl show ?thesis by blast
qed

end
