(* ===== verification/Conn_Stream.thy ===== *)
theory Conn_Stream
  imports Conn
begin

text \<open>
  What flows through a connection. \<^verbatim>\<open>Read\<close> and \<^verbatim>\<open>Write\<close> are related to streams of sealed records: every outcome of a
  call is described by the records it consumed or produced, a connection refines a first-in first-out stream of bytes,
  and the end of the stream is authenticated.
\<close>

section \<open>Write\<close>

lemma writeFull_Inl: "writeFull p n = (Inl e, n') \<Longrightarrow> \<exists>k. tx n' = tx n @ take k p"
  by (auto simp: writeFull_def connWrite_def split: list.splits option.splits prod.splits if_splits)

lemma unat64_less: "unat (x :: 64 word) < 2 ^ 64"
  using unsigned_less[of x] by simp

lemma chunkRecords_take:
  "b \<noteq> [] \<Longrightarrow> k \<le> length (drop 16384 b) \<Longrightarrow>
     chunkRecords t (take (min 16384 (length b) + k) b) = (t, take 16384 b, 0) # chunkRecords t (take k (drop 16384 b))"
proof -
  assume b: "b \<noteq> []" and k: "k \<le> length (drop 16384 b)"
  let ?b = "take (min 16384 (length b) + k) b"
  have "?b \<noteq> []" using b by simp
  moreover have "take 16384 ?b = take 16384 b" by (simp add: min_def)
  moreover have "drop 16384 ?b = take k (drop 16384 b)" using k by (cases "16384 \<le> length b") (simp_all add: drop_take min_def)
  ultimately show ?thesis using chunkRecords_step[of ?b t] by simp
qed

text \<open>
  What a run of the loop leaves behind: \<open>m\<close> bytes accepted, their records on the wire, and one of three ends. All of \<open>b\<close> is sent; or
  the sequence numbers are used up, before anything of the next record is sent; or the transport failed on the record sealed next, of
  which a prefix reached the wire and whose sequence number is spent.
\<close>

definition loopOutcome :: "RecordCipher \<Rightarrow> bytes \<Rightarrow> bytes \<Rightarrow> nat \<Rightarrow> goerr option \<Rightarrow> Conn \<Rightarrow> bool" where
  "loopOutcome rc wire b m err c' \<longleftrightarrow>
     (let rs = chunkRecords RecordTypeApplicationData (take m b); sent = wire @ sealStream rc rs; rc1 = (advance ^^ length rs) rc;
          record = sealedRecord rc1 RecordTypeApplicationData (take 16384 (drop m b)) 0
      in unat (rc_seq rc) + length rs < 2 ^ 64 \<and>
         (case err of
            None \<Rightarrow> m = length b \<and> tx (cn_rawConn c') = sent \<and> cn_outCipher c' = Some rc1
          | Some e \<Rightarrow> m < length b \<and> m mod 16384 = 0 \<and>
              (e = ErrWrap ''teetls: seal record'' ErrSequenceOverflow \<and> rc_seq rc1 = NOT 0 \<and>
                 tx (cn_rawConn c') = sent \<and> cn_outCipher c' = Some rc1 \<or>
               rc_seq rc1 \<noteq> NOT 0 \<and> cn_outCipher c' = Some (advance rc1) \<and> (\<exists>l. tx (cn_rawConn c') = sent @ take l record) \<and>
                 (\<exists>raw. tx raw = sent \<and> writeFull record raw = (Inl e, cn_rawConn c')))))"

lemma unat_advance: "rc_seq rc \<noteq> NOT 0 \<Longrightarrow> unat (rc_seq (advance rc)) = unat (rc_seq rc) + 1"
  using unatSuc[of "rc_seq rc"] by (simp add: advance_def add.commute add_eq_0_iff)

lemma loopOutcome_sent: "cn_outCipher c' = Some rc \<Longrightarrow> tx (cn_rawConn c') = wire \<Longrightarrow> loopOutcome rc wire [] 0 None c'"
  using unat64_less[of "rc_seq rc"] by (simp add: loopOutcome_def)

lemma loopOutcome_overflow:
  "cn_outCipher c' = Some rc \<Longrightarrow> tx (cn_rawConn c') = wire \<Longrightarrow> rc_seq rc = NOT 0 \<Longrightarrow> b \<noteq> [] \<Longrightarrow>
     loopOutcome rc wire b 0 (Some (ErrWrap ''teetls: seal record'' ErrSequenceOverflow)) c'"
  using unat64_less[of "rc_seq rc"] by (simp add: loopOutcome_def)

lemma loopOutcome_transport:
  assumes "cn_outCipher c' = Some (advance rc)" "rc_seq rc \<noteq> NOT 0" "b \<noteq> []"
    and "writeFull (sealedRecord rc RecordTypeApplicationData (take 16384 b) 0) raw = (Inl e, cn_rawConn c')"
  shows "loopOutcome rc (tx raw) b 0 (Some e) c'"
  using assms writeFull_Inl[OF assms(4)] unat64_less[of "rc_seq rc"] unfolding loopOutcome_def by auto

lemma loopOutcome_step:
  assumes ne: "b \<noteq> []" and "rc_seq rc \<noteq> NOT 0"
    and ih: "loopOutcome (advance rc) (wire @ sealedRecord rc RecordTypeApplicationData (take 16384 b) 0) (drop 16384 b) m err c'"
  shows "loopOutcome rc wire b (min 16384 (length b) + m) err c'"
proof -
  have m: "m \<le> length (drop 16384 b)" using ih by (auto simp: loopOutcome_def Let_def split: option.splits)
  note ch = chunkRecords_take[OF ne m, of RecordTypeApplicationData]
  have pow: "(advance ^^ Suc j) rc = (advance ^^ j) (advance rc)" for j by (simp add: funpow_swap1)
  have rest: "drop (min 16384 (length b) + m) b = drop m (drop 16384 b)" by (simp add: min_def add.commute)
  have full: "16384 \<le> length b" if "m < length (drop 16384 b)" using that by simp
  have count: "(min 16384 (length b) + m = length b) = (m = length (drop 16384 b))" using m by auto
  show ?thesis
  proof (cases err)
    case None
    with ih count show ?thesis unfolding loopOutcome_def Let_def ch by (auto simp: pow unat_advance[OF assms(2)] simp del: funpow.simps)
  next
    case (Some e)
    with ih full show ?thesis unfolding loopOutcome_def Let_def ch rest by (auto simp: pow unat_advance[OF assms(2)] simp del: funpow.simps)
  qed
qed

lemma Seal_chunk_error: "Seal t (take 16384 b) rc = (Inl e, rc1) \<Longrightarrow> e = ErrSequenceOverflow \<and> rc_seq rc = NOT 0 \<and> rc1 = rc"
  using Seal_total[of "take 16384 b" rc t] SealWithPadding_fits[of "take 16384 b" 0 t rc]
  by (auto simp: Seal_def split: if_splits)

lemma writeLoop_outcome:
  "cn_outCipher c = Some rc \<Longrightarrow> writeLoop b t c = ((k, err), c') \<Longrightarrow> \<exists>m. k = t + m \<and> loopOutcome rc (tx (cn_rawConn c)) b m err c'"
proof (induction b arbitrary: t c rc k err c' rule: maxChunks.induct)
  case (1 b)
  show ?case
  proof (cases "b = []")
    case True
    with "1.prems" loopOutcome_sent[of c rc] show ?thesis by auto
  next
    case ne: False
    obtain q rc1 where q: "Seal RecordTypeApplicationData (take 16384 b) rc = (q, rc1)" by fastforce
    show ?thesis
    proof (cases q)
      case (Inl e)
      then have "e = ErrSequenceOverflow" "rc_seq rc = NOT 0" "rc1 = rc" using Seal_chunk_error q by blast+
      then show ?thesis using "1.prems" ne q Inl loopOutcome_overflow[of c' rc] by (auto simp: writeLoop_step)
    next
      case (Inr rec)
      then have s: "rec = sealedRecord rc RecordTypeApplicationData (take 16384 b) 0" "rc1 = advance rc" "rc_seq rc \<noteq> NOT 0"
        using q by (auto simp: Seal_Inr advance_def sealable_def)
      obtain u n where u: "writeFull rec (cn_rawConn c) = (u, n)" by fastforce
      show ?thesis
      proof (cases u)
        case (Inl e)
        with "1.prems" ne q \<open>q = Inr rec\<close> u s loopOutcome_transport[of c' rc b "cn_rawConn c" e] show ?thesis by (auto simp: writeLoop_step)
      next
        case w: (Inr v)
        have tx: "tx n = tx (cn_rawConn c) @ rec" using writeFull_Inr u w by blast
        have "writeLoop (drop 16384 b) (t + min 16384 (length b)) (c\<lparr>cn_outCipher := Some rc1, cn_rawConn := n\<rparr>) = ((k, err), c')"
          using "1.prems" ne q \<open>q = Inr rec\<close> u w by (simp add: writeLoop_step)
        from "1.IH"[OF ne _ this, of "advance rc"] s(1,2) tx obtain m where "k = t + min 16384 (length b) + m"
          "loopOutcome (advance rc) (tx (cn_rawConn c) @ sealedRecord rc RecordTypeApplicationData (take 16384 b) 0) (drop 16384 b) m err c'" by auto
        with loopOutcome_step[OF ne s(3)] show ?thesis by fastforce
      qed
    qed
  qed
qed

lemma writeLoop_total:
  "wr (cn_rawConn c) = [] \<Longrightarrow> cn_outCipher c = Some rc \<Longrightarrow> streamOk rc (chunkRecords RecordTypeApplicationData b) \<Longrightarrow>
     writeLoop b t c = ((t + length b, None),
       c\<lparr>cn_outCipher := Some ((advance ^^ length (chunkRecords RecordTypeApplicationData b)) rc),
         cn_rawConn := (cn_rawConn c)\<lparr>tx := tx (cn_rawConn c) @ sealStream rc (chunkRecords RecordTypeApplicationData b)\<rparr>\<rparr>)"
proof (induction b arbitrary: t c rc rule: maxChunks.induct)
  case (1 b)
  show ?case
  proof (cases "b = []")
    case True
    then show ?thesis using "1.prems"(2) by simp
  next
    case False
    let ?rs = "chunkRecords RecordTypeApplicationData (drop 16384 b)" and ?rec = "sealedRecord rc RecordTypeApplicationData (take 16384 b) 0"
    have rs: "chunkRecords RecordTypeApplicationData b = (RecordTypeApplicationData, take 16384 b, 0) # ?rs"
      by (rule chunkRecords_step[OF False])
    have ok: "sealable rc (take 16384 b) 0" "streamOk (advance rc) ?rs" using "1.prems"(3) unfolding rs by simp_all
    have sl: "Seal RecordTypeApplicationData (take 16384 b) rc = (Inr ?rec, advance rc)"
      using ok(1) by (simp add: Seal_Inr advance_def)
    let ?n = "(cn_rawConn c)\<lparr>tx := tx (cn_rawConn c) @ ?rec\<rparr>" and ?c1 = "\<lambda>n. c\<lparr>cn_outCipher := Some (advance rc), cn_rawConn := n\<rparr>"
    have wf: "writeFull ?rec (cn_rawConn c) = (Inr (), ?n)" using "1.prems"(1) by (simp add: writeFull_def connWrite_def)
    have "writeLoop b t c = writeLoop (drop 16384 b) (t + min 16384 (length b)) (?c1 ?n)"
      using sl wf "1.prems"(2) False by (simp add: writeLoop_step)
    also have "\<dots> = ((t + min 16384 (length b) + length (drop 16384 b), None),
        c\<lparr>cn_outCipher := Some ((advance ^^ length ?rs) (advance rc)),
          cn_rawConn := (cn_rawConn c)\<lparr>tx := tx (cn_rawConn c) @ ?rec @ sealStream (advance rc) ?rs\<rparr>\<rparr>)"
      using "1.IH"[OF False, of "?c1 ?n" "advance rc"] "1.prems"(1) ok(2) by simp
    finally show ?thesis unfolding rs by (simp add: funpow_swap1)
  qed
qed

section \<open>Read\<close>

lemma errorsIs_EOF: "\<not> isEOF e \<Longrightarrow> e \<noteq> IoEOF"
  by (auto simp: isEOF_def)

text \<open>One turn of the loop: an authentic record of application data, or an error that is \<^verbatim>\<open>io.EOF\<close> only after a close_notify.\<close>

lemma receivePayload_outcome:
  assumes rc: "cn_inCipher c = Some rc" "rcInv rc" and run: "receivePayload rec c = (r, c')"
  shows "case r of
      Inr p \<Rightarrow> \<exists>k. sealable rc p k \<and> rec = sealedRecord rc RecordTypeApplicationData p k \<and>
        c' = c\<lparr>cn_inCipher := Some (advance rc)\<rparr>
    | Inl e \<Rightarrow> (e = IoEOF \<longrightarrow> cn_closeNotifyReceived c') \<and>
        (cn_closeNotifyReceived c' \<longrightarrow> cn_closeNotifyReceived c \<or> (\<exists>k. sealable rc [1, 0] k \<and> rec = sealedRecord rc RecordTypeAlert [1, 0] k))"
proof (cases "Unseal rec rc")
  case (Pair q rc1)
  show ?thesis
  proof (cases q)
    case (Inl e)
    with run rc Pair show ?thesis by (auto simp: receivePayload_def)
  next
    case (Inr tp)
    obtain t p where tp: "tp = (t, p)" by fastforce
    have un: "Unseal rec rc = (Inr (t, p), rc1)" using Pair Inr tp by simp
    obtain k where k: "sealable rc p k" "rec = sealedRecord rc t p k" "rc1 = advance rc"
      using un Unseal_Inr[OF rc(2)] by (auto simp: advance_def)
    have two: "p = [1, 0]" if "length p = 2" "p ! 0 = 1" "p ! 1 = 0"
      using that by (auto simp: length_Suc_conv numeral_2_eq_2)
    show ?thesis using run rc(1) un k two
      by (auto simp: receivePayload_def receiveAlert_def Let_def split: if_splits sum.splits)
  qed
qed

lemma readFull_split: "readFull a n = (Inr x, n1) \<Longrightarrow> rx n = x @ rx n1"
  by (auto simp: readFull_Inr)

lemma receiveRecord_outcome:
  assumes rc: "cn_inCipher c = Some rc" "rcInv rc" and run: "receiveRecord c = (r, c')"
  shows "case r of
      Inr p \<Rightarrow> \<exists>k. sealable rc p k \<and> rx (cn_rawConn c) = sealedRecord rc RecordTypeApplicationData p k @ rx (cn_rawConn c') \<and>
        c' = c\<lparr>cn_rawConn := (cn_rawConn c)\<lparr>rx := rx (cn_rawConn c')\<rparr>, cn_inCipher := Some (advance rc)\<rparr>
    | Inl e \<Rightarrow> (e = IoEOF \<longrightarrow> cn_closeNotifyReceived c') \<and> (cn_closeNotifyReceived c' \<longrightarrow> cn_closeNotifyReceived c \<or>
        (\<exists>k. sealable rc [1, 0] k \<and> rx (cn_rawConn c) = sealedRecord rc RecordTypeAlert [1, 0] k @ rx (cn_rawConn c')))"
proof -
  obtain h n where h: "readFull RecordHeaderLen (cn_rawConn c) = (h, n)" by fastforce
  show ?thesis
  proof (cases "\<exists>header. h = Inr header \<and> header ! 0 = RecordTypeApplicationData \<and>
      0 < unat (BigEndian_Uint16 (slice header 3 5)) \<and> unat (BigEndian_Uint16 (slice header 3 5)) \<le> MaxCiphertextLength")
    case False
    then obtain e where "r = Inl e" "e = IoEOF \<longrightarrow> cn_closeNotifyReceived c" "c' = c\<lparr>cn_rawConn := n\<rparr>"
      using run h errorsIs_EOF
      by (auto simp: receiveRecord_def Let_def ErrInvalidRecordHeader_def ErrCiphertextTooLarge_def split: sum.splits if_splits)
    then show ?thesis by simp
  next
    case True
    then obtain header where hd: "h = Inr header" "header ! 0 = RecordTypeApplicationData"
      "0 < unat (BigEndian_Uint16 (slice header 3 5))" "unat (BigEndian_Uint16 (slice header 3 5)) \<le> MaxCiphertextLength" by blast
    obtain p n2 where p: "readFull (unat (BigEndian_Uint16 (slice header 3 5))) n = (p, n2)" by fastforce
    show ?thesis
    proof (cases p)
      case (Inl e)
      then show ?thesis using run h hd p errorsIs_EOF[of e] by (auto simp: receiveRecord_def)
    next
      case (Inr payload)
      have rx: "rx (cn_rawConn c) = (header @ payload) @ rx n2" "n2 = (cn_rawConn c)\<lparr>rx := rx n2\<rparr>"
        using readFull_split[of RecordHeaderLen "cn_rawConn c" header n] readFull_split[OF p[unfolded Inr]]
          net_rx_trans[OF readFull_rx[OF h] readFull_rx[OF p]] h hd(1) by simp_all
      have rp: "receivePayload (header @ payload) (c\<lparr>cn_rawConn := n2\<rparr>) = (r, c')" using run h hd p Inr by (simp add: receiveRecord_def)
      have raw: "cn_rawConn c' = n2" using receivePayload_raw[OF rp] by simp
      have rc': "cn_inCipher (c\<lparr>cn_rawConn := n2\<rparr>) = Some rc" using rc(1) by simp
      from receivePayload_outcome[OF rc' rc(2) rp] rx raw show ?thesis by (cases r) auto
    qed
  qed
qed

text \<open>
  The outcome of the loop: empty records of application data are skipped, then a record of application data is handed
  out, its surplus buffered, or an error is returned.
\<close>

definition emptyRecords :: "RecordCipher \<Rightarrow> (RecordType \<times> bytes \<times> nat) list \<Rightarrow> bool" where
  "emptyRecords rc emp \<longleftrightarrow> streamOk rc emp \<and> (\<forall>(t, p, k) \<in> set emp. t = RecordTypeApplicationData \<and> p = [])"

lemma emptyRecords_Cons:
  "emptyRecords rc ((t, p, k) # emp) \<longleftrightarrow> t = RecordTypeApplicationData \<and> p = [] \<and> sealable rc [] k \<and> emptyRecords (advance rc) emp"
  by (auto simp: emptyRecords_def)

lemma emptyRecords_Nil [simp]: "emptyRecords rc []"
  by (simp add: emptyRecords_def)

definition readOutcome :: "nat \<Rightarrow> Conn \<Rightarrow> RecordCipher \<Rightarrow> bytes \<Rightarrow> goerr option \<Rightarrow> Conn \<Rightarrow> (RecordType \<times> bytes \<times> nat) list \<Rightarrow> bool" where
  "readOutcome n c rc bs err c' emp \<longleftrightarrow> emptyRecords rc emp \<and>
     (let rc1 = (advance ^^ length emp) rc
      in case err of
           None \<Rightarrow> \<exists>p k. p \<noteq> [] \<and> bs = take n p \<and> sealable rc1 p k \<and>
             rx (cn_rawConn c) = sealStream rc emp @ sealedRecord rc1 RecordTypeApplicationData p k @ rx (cn_rawConn c') \<and>
             cn_inCipher c' = Some (advance rc1) \<and> cn_readBuf c' = (if n < length p then drop n p else cn_readBuf c) \<and>
             cn_closeNotifyReceived c' = cn_closeNotifyReceived c
         | Some e \<Rightarrow> bs = [] \<and> (e = IoEOF \<longrightarrow> cn_closeNotifyReceived c') \<and>
             (cn_closeNotifyReceived c' \<longrightarrow> cn_closeNotifyReceived c \<or>
                (\<exists>k. sealable rc1 [1, 0] k \<and>
                  rx (cn_rawConn c) = sealStream rc emp @ sealedRecord rc1 RecordTypeAlert [1, 0] k @ rx (cn_rawConn c'))))"

lemma readOutcome_skip:
  assumes e: "readOutcome n c1 (advance rc) bs err c' emp" and ok: "sealable rc [] k"
    and rx: "rx (cn_rawConn c) = sealedRecord rc RecordTypeApplicationData [] k @ rx (cn_rawConn c1)"
    and f: "cn_readBuf c1 = cn_readBuf c" "cn_closeNotifyReceived c1 = cn_closeNotifyReceived c"
  shows "readOutcome n c rc bs err c' ((RecordTypeApplicationData, [], k) # emp)"
proof -
  have len: "(advance ^^ length ((RecordTypeApplicationData, [], k) # emp)) rc = (advance ^^ length emp) (advance rc)"
    by (simp add: funpow_swap1)
  have "rx (cn_rawConn c) = sealStream rc ((RecordTypeApplicationData, [], k) # emp) @ x"
    if "rx (cn_rawConn c1) = sealStream (advance rc) emp @ x" for x using rx that by simp
  then show ?thesis using e ok unfolding readOutcome_def Let_def len emptyRecords_Cons f
    by (cases err) (simp_all only: option.case, blast+)
qed

lemma readLoop_outcome:
  "cn_inCipher c = Some rc \<Longrightarrow> rcInv rc \<Longrightarrow> readLoop n c = ((bs, err), c') \<Longrightarrow> \<exists>emp. readOutcome n c rc bs err c' emp"
proof (induction n c arbitrary: rc bs err c' rule: readLoop.induct)
  case (1 n c)
  obtain q c1 where q: "receiveRecord c = (q, c1)" by fastforce
  note o = receiveRecord_outcome[OF "1.prems"(1,2) q]
  show ?case
  proof (cases q)
    case (Inl e)
    with "1.prems"(3) q o show ?thesis by (intro exI[of _ "[]"]) (auto simp: readLoop.simps[of n c] readOutcome_def Let_def)
  next
    case (Inr p)
    then obtain k where k: "sealable rc p k" "rx (cn_rawConn c) = sealedRecord rc RecordTypeApplicationData p k @ rx (cn_rawConn c1)"
      and c1: "c1 = c\<lparr>cn_rawConn := (cn_rawConn c)\<lparr>rx := rx (cn_rawConn c1)\<rparr>, cn_inCipher := Some (advance rc)\<rparr>"
      using o by auto
    have f: "cn_inCipher c1 = Some (advance rc)" "cn_readBuf c1 = cn_readBuf c" "cn_closeNotifyReceived c1 = cn_closeNotifyReceived c"
      by (subst c1, simp)+
    show ?thesis
    proof (cases "p = []")
      case True
      have "readLoop n c1 = ((bs, err), c')" using "1.prems"(3) q Inr True by (simp add: readLoop.simps[of n c])
      with "1.IH"[OF q[symmetric] Inr, of "advance rc" bs err c'] True f(1) "1.prems"(2) obtain emp where
        e: "readOutcome n c1 (advance rc) bs err c' emp" by auto
      from readOutcome_skip[OF e] k True f(2,3) have "readOutcome n c rc bs err c' ((RecordTypeApplicationData, [], k) # emp)" by blast
      then show ?thesis by blast
    next
      case False
      have "bs = take n p" "err = None" and c': "c' = (if min n (length p) < length p then c1\<lparr>cn_readBuf := drop n p\<rparr> else c1)"
        using "1.prems"(3) q Inr False by (simp_all add: readLoop.simps[of n c])
      moreover have "rx (cn_rawConn c') = rx (cn_rawConn c1)" "cn_inCipher c' = Some (advance rc)"
        "cn_readBuf c' = (if n < length p then drop n p else cn_readBuf c)" "cn_closeNotifyReceived c' = cn_closeNotifyReceived c"
        using f by (simp_all add: c')
      ultimately have "readOutcome n c rc bs err c' []" unfolding readOutcome_def Let_def
        using k False by (simp only: option.case list.size(3) funpow_0 sealStream.simps append_Nil emptyRecords_Nil) blast
      then show ?thesis by blast
    qed
  qed
qed

lemma Conn_Handshake_done: "cn_handshakeDone c \<Longrightarrow> Conn_Handshake g env c = (None, c)"
  by (simp add: Conn_Handshake_def handshake_def)

section \<open>Properties of the calls\<close>

lemma unat_advance_pow:
  assumes "unat (rc_seq rc) + j < 2 ^ 64"
  shows "unat (rc_seq ((advance ^^ j) rc)) = unat (rc_seq rc) + j"
proof -
  have "unat (of_nat j :: 64 word) = j" using assms by (simp add: unat_of_nat)
  then show ?thesis using assms by (simp add: advance_pow_seq unat_word_ariths)
qed

lemma advance_pow_same: "(advance ^^ j) rc = rc\<lparr>rc_seq := rc_seq ((advance ^^ j) rc)\<rparr>"
  by (simp add: advance_pow_seq)

text \<open>
  C22: the outcome of \<^verbatim>\<open>Write\<close> on every branch of its loop, on a connection whose handshake is done. The call returns the number \<open>k\<close> of
  bytes accepted, and the records \<open>rs\<close> that seal them at consecutive sequence numbers, without wrap-around, are on the wire. Without an error
  all of the data is accepted, nothing else is sent and the cipher stands right behind the last record. With an error \<open>k\<close> is a
  multiple of the record size below the length of the data, and there are two ways. Either the sequence numbers are used up: nothing else is
  sent and the cipher stays where it is. Or the transport fails on the next record, with the error \<^verbatim>\<open>Write\<close> returns: what follows on the wire is a
  prefix of that sealed record and nothing else, and its sequence number is spent, so that no later call seals other data under it.
\<close>

theorem write_outcome:
  assumes "connInv c" "cn_handshakeDone c" "Conn_Write g env b c = ((k, err), c')"
  shows "\<exists>rc rs sent rc1 record. cn_outCipher c = Some rc \<and> rs = chunkRecords RecordTypeApplicationData (take k b) \<and>
    sent = tx (cn_rawConn c) @ sealStream rc rs \<and> rc1 = rc\<lparr>rc_seq := rc_seq rc1\<rparr> \<and> unat (rc_seq rc1) = unat (rc_seq rc) + length rs \<and>
    record = sealedRecord rc1 RecordTypeApplicationData (take MaxPlaintextLength (drop k b)) 0 \<and>
    (case err of
       None \<Rightarrow> k = length b \<and> tx (cn_rawConn c') = sent \<and> cn_outCipher c' = Some rc1
     | Some e \<Rightarrow> k < length b \<and> k mod MaxPlaintextLength = 0 \<and>
         (e = ErrWrap ''teetls: seal record'' ErrSequenceOverflow \<and> rc_seq rc1 = NOT 0 \<and>
            tx (cn_rawConn c') = sent \<and> cn_outCipher c' = Some rc1 \<or>
          cn_outCipher c' = Some (rc1\<lparr>rc_seq := rc_seq rc1 + 1\<rparr>) \<and> unat (rc_seq rc1 + 1) = unat (rc_seq rc1) + 1 \<and>
            (\<exists>l. tx (cn_rawConn c') = sent @ take l record) \<and> (\<exists>raw. tx raw = sent \<and> writeFull record raw = (Inl e, cn_rawConn c'))))"
proof -
  obtain rc where rc: "cn_outCipher c = Some rc" using connInv_ready[OF assms(1,2)] by blast
  have run: "writeLoop b 0 c = ((k, err), c')" using assms(2,3) by (simp add: Conn_Write_def Conn_Handshake_done)
  let ?rs = "chunkRecords RecordTypeApplicationData (take k b)"
  let ?rc1 = "(advance ^^ length ?rs) rc"
  have w: "loopOutcome rc (tx (cn_rawConn c)) b k err c'" using writeLoop_outcome[OF rc run] by simp
  then have seq: "unat (rc_seq ?rc1) = unat (rc_seq rc) + length ?rs"
    unfolding loopOutcome_def Let_def by (intro unat_advance_pow) blast
  have adv: "unat (rc_seq ?rc1 + 1) = unat (rc_seq ?rc1) + 1" if "rc_seq ?rc1 \<noteq> NOT 0"
    using unat_advance[OF that] by (simp add: advance_def)
  show ?thesis
    by (rule exI[of _ rc], rule exI[of _ ?rs], rule exI[of _ "tx (cn_rawConn c) @ sealStream rc ?rs"], rule exI[of _ ?rc1],
        rule exI[of _ "sealedRecord ?rc1 RecordTypeApplicationData (take MaxPlaintextLength (drop k b)) 0"],
        intro conjI rc refl advance_pow_same seq)
      (use w adv in \<open>auto simp: loopOutcome_def Let_def advance_def split: option.splits\<close>)
qed

text \<open>
  C9: what \<^verbatim>\<open>Read\<close> hands out is authentic and so is the end of the stream. On a connection whose handshake is done, with
  an empty buffer, a call that succeeds returns a non-empty prefix of the plaintext of one application data record that
  the peer sealed at the expected sequence number, reached over empty records only, and keeps the rest in the buffer. A call
  that fails hands out nothing, and it reports \<^verbatim>\<open>io.EOF\<close> only when a close_notify alert sealed by the peer has been received, now
  or before: a cut connection is never taken for the end of the data. The flag that remembers the alert is set by a call only when that
  call consumed a sealed close_notify at the expected sequence number, and by no other alert.
\<close>

theorem read_authentic:
  assumes "connInv c" "cn_handshakeDone c" "cn_readBuf c = []" "0 < n" "Conn_Read g env n c = ((bs, err), c')"
  shows "\<exists>rc emp rc1. cn_inCipher c = Some rc \<and> emptyRecords rc emp \<and> rc1 = rc\<lparr>rc_seq := rc_seq rc + of_nat (length emp)\<rparr> \<and>
    (case err of
       None \<Rightarrow> \<exists>p k. bs \<noteq> [] \<and> bs @ cn_readBuf c' = p \<and> length bs \<le> n \<and> sealable rc1 p k \<and> cn_inCipher c' = Some (advance rc1) \<and>
         rx (cn_rawConn c) = sealStream rc emp @ sealedRecord rc1 RecordTypeApplicationData p k @ rx (cn_rawConn c') \<and>
         cn_closeNotifyReceived c' = cn_closeNotifyReceived c
     | Some e \<Rightarrow> bs = [] \<and> (e = IoEOF \<longrightarrow> cn_closeNotifyReceived c') \<and>
         (cn_closeNotifyReceived c' \<longrightarrow> cn_closeNotifyReceived c \<or>
            (\<exists>k. sealable rc1 [1, 0] k \<and>
              rx (cn_rawConn c) = sealStream rc emp @ sealedRecord rc1 RecordTypeAlert [1, 0] k @ rx (cn_rawConn c'))))"
proof -
  obtain rc where rc: "cn_inCipher c = Some rc" "rcInv rc" using connInv_ready[OF assms(1,2)] by blast
  have "readLoop n c = ((bs, err), c')" using assms(2-5) by (simp add: Conn_Read_def Conn_Handshake_done)
  from readLoop_outcome[OF rc this] obtain emp where o: "readOutcome n c rc bs err c' emp" ..
  let ?rc1 = "rc\<lparr>rc_seq := rc_seq rc + of_nat (length emp)\<rparr>"
  note o' = o[unfolded readOutcome_def Let_def advance_pow_seq]
  show ?thesis
  proof (rule exI[of _ rc], rule exI[of _ emp], rule exI[of _ ?rc1], intro conjI refl rc(1))
    show "emptyRecords rc emp" using o' by blast
    show "case err of
       None \<Rightarrow> \<exists>p k. bs \<noteq> [] \<and> bs @ cn_readBuf c' = p \<and> length bs \<le> n \<and> sealable ?rc1 p k \<and> cn_inCipher c' = Some (advance ?rc1) \<and>
         rx (cn_rawConn c) = sealStream rc emp @ sealedRecord ?rc1 RecordTypeApplicationData p k @ rx (cn_rawConn c') \<and>
         cn_closeNotifyReceived c' = cn_closeNotifyReceived c
     | Some e \<Rightarrow> bs = [] \<and> (e = IoEOF \<longrightarrow> cn_closeNotifyReceived c') \<and>
         (cn_closeNotifyReceived c' \<longrightarrow> cn_closeNotifyReceived c \<or>
            (\<exists>k. sealable ?rc1 [1, 0] k \<and>
              rx (cn_rawConn c) = sealStream rc emp @ sealedRecord ?rc1 RecordTypeAlert [1, 0] k @ rx (cn_rawConn c')))"
    proof (cases err)
      case None
      with o' obtain p k where p: "p \<noteq> []" "bs = take n p" "cn_readBuf c' = (if n < length p then drop n p else cn_readBuf c)"
        and rest: "sealable ?rc1 p k" "cn_inCipher c' = Some (advance ?rc1)" "cn_closeNotifyReceived c' = cn_closeNotifyReceived c"
          "rx (cn_rawConn c) = sealStream rc emp @ sealedRecord ?rc1 RecordTypeApplicationData p k @ rx (cn_rawConn c')" by auto
      have "bs \<noteq> []" "bs @ cn_readBuf c' = p" "length bs \<le> n" using p assms(3,4) by auto
      with None rest show ?thesis by (simp only: option.case) blast
    qed (use o' in simp)
  qed
qed

section \<open>A connection as a stream of bytes\<close>

text \<open>
  The contract of an \<^verbatim>\<open>io.Reader\<close> that its clients rely on: while data is pending, a call with room delivers a non-empty
  prefix of it, and the rest stays pending.
\<close>

locale byte_source =
  fixes rd :: "nat \<Rightarrow> 's \<Rightarrow> (bytes \<times> goerr option) \<times> 's"
    and pend :: "'s \<Rightarrow> bytes \<Rightarrow> bool"
  assumes progress: "pend s data \<Longrightarrow> data \<noteq> [] \<Longrightarrow> 0 < n \<Longrightarrow>
    \<exists>k s'. 0 < k \<and> k \<le> n \<and> k \<le> length data \<and> rd n s = ((take k data, None), s') \<and> pend s' (drop k data)"

text \<open>
  \<^verbatim>\<open>io.ReadFull\<close> with a buffer of \<open>m\<close> bytes, over any reader: it calls the reader for what is missing until the buffer is
  full or there is an error. \<open>None\<close> is a loop that never ends, which a reader without progress would cause.
\<close>

partial_function (option) ioReadFull ::
    "(nat \<Rightarrow> 's \<Rightarrow> (bytes \<times> goerr option) \<times> 's) \<Rightarrow> nat \<Rightarrow> 's \<Rightarrow> ((bytes \<times> goerr option) \<times> 's) option" where
  "ioReadFull rd m s =
     (if m = 0 then Some (([], None), s)
      else case rd m s of
        ((bs, Some e), s') \<Rightarrow> Some ((bs, Some e), s')
      | ((bs, None), s') \<Rightarrow>
          Option.bind (ioReadFull rd (m - length bs) s') (\<lambda>((more, e), s''). Some ((bs @ more, e), s'')))"

context byte_source
begin

lemma readFull_delivers:
  "pend s data \<Longrightarrow> m \<le> length data \<Longrightarrow> \<exists>s'. ioReadFull rd m s = Some ((take m data, None), s') \<and> pend s' (drop m data)"
proof (induction m arbitrary: s data rule: less_induct)
  case (less m)
  show ?case
  proof (cases "m = 0")
    case True
    have "ioReadFull rd 0 s = Some (([], None), s)" by (subst ioReadFull.simps) simp
    with True less.prems(1) show ?thesis by simp
  next
    case False
    then obtain k s1 where k: "0 < k" "k \<le> m" "k \<le> length data" "rd m s = ((take k data, None), s1)" "pend s1 (drop k data)"
      using progress[OF less.prems(1), of m] less.prems(2) by fastforce
    have "\<exists>s'. ioReadFull rd (m - k) s1 = Some ((take (m - k) (drop k data), None), s') \<and> pend s' (drop (m - k) (drop k data))"
      using k False less.prems(2) by (intro less.IH) auto
    then obtain s' where "ioReadFull rd (m - k) s1 = Some ((take (m - k) (drop k data), None), s')" "pend s' (drop m data)"
      using k(2) by auto
    moreover have "take k data @ take (m - k) (drop k data) = take m data" using k(2) by (metis le_add_diff_inverse take_add)
    ultimately show ?thesis using k False by (simp add: ioReadFull.simps[of rd m s] min_absorb2)
  qed
qed

end

text \<open>
  The data a connection still has to deliver: what is buffered, then the application data records at the head of the
  transport, which are followed by \<open>rest\<close>. Records may be empty, but the last one is not. \<open>fin\<close> is the receiving cipher after them.
\<close>

definition connPending :: "RecordCipher \<Rightarrow> bytes \<Rightarrow> Conn \<Rightarrow> bytes \<Rightarrow> bool" where
  "connPending fin rest c data \<longleftrightarrow> cn_handshakeDone c \<and>
     (\<exists>rc rs. cn_inCipher c = Some rc \<and> rcInv rc \<and> streamOk rc rs \<and>
        (\<forall>(t, p, k) \<in> set rs. t = RecordTypeApplicationData) \<and> (rs = [] \<or> fst (snd (last rs)) \<noteq> []) \<and>
        fin = (advance ^^ length rs) rc \<and> rx (cn_rawConn c) = sealStream rc rs @ rest \<and> cn_readBuf c @ payloads rs = data)"

lemma connPending_done:
  assumes "connPending fin rest c []"
  shows "cn_handshakeDone c \<and> cn_inCipher c = Some fin \<and> rx (cn_rawConn c) = rest \<and> cn_readBuf c = []"
proof -
  obtain rc rs where p: "cn_handshakeDone c" "cn_inCipher c = Some rc" "rs = [] \<or> fst (snd (last rs)) \<noteq> []" "fin = (advance ^^ length rs) rc"
    "rx (cn_rawConn c) = sealStream rc rs @ rest" "cn_readBuf c = []" "payloads rs = []"
    using assms by (auto simp: connPending_def)
  have "rs = []"
  proof (rule ccontr)
    assume "rs \<noteq> []"
    then obtain ini t q k where "rs = ini @ [(t, q, k)]" by (metis append_butlast_last_id prod_cases3)
    with p(3,7) show False by simp
  qed
  with p show ?thesis by simp
qed

lemma receiveRecord_sealed:
  assumes rc: "cn_inCipher c = Some rc" "rcInv rc" and ok: "sealable rc p k"
    and rx: "rx (cn_rawConn c) = sealedRecord rc t p k @ rest" and t: "validInnerType t"
  shows "receiveRecord c = receivePayload (sealedRecord rc t p k) (c\<lparr>cn_rawConn := (cn_rawConn c)\<lparr>rx := rest\<rparr>\<rparr>)"
proof -
  from sealedRecord_on_wire[OF rc(2) ok rx] obtain header payload where w:
    "readFull 5 (cn_rawConn c) = (Inr header, (cn_rawConn c)\<lparr>rx := payload @ rest\<rparr>)"
    "header @ payload = sealedRecord rc t p k" "header ! 0 = RecordTypeApplicationData"
    "unat (BigEndian_Uint16 (slice header 3 5)) = length payload" "0 < length payload" "length payload \<le> 16640"
    "readFull (length payload) ((cn_rawConn c)\<lparr>rx := payload @ rest\<rparr>) = (Inr payload, (cn_rawConn c)\<lparr>rx := rest\<rparr>)" by metis
  then show ?thesis by (simp add: receiveRecord_def)
qed

lemma Unseal_advance: "rcInv rc \<Longrightarrow> sealable rc p k \<Longrightarrow> validInnerType t \<Longrightarrow> Unseal (sealedRecord rc t p k) rc = (Inr (t, p), advance rc)"
  using Unseal_sealedRecord by (simp add: advance_def)

lemma receiveRecord_data:
  assumes "cn_inCipher c = Some rc" "rcInv rc" "sealable rc p k"
    and "rx (cn_rawConn c) = sealedRecord rc RecordTypeApplicationData p k @ rest"
  shows "receiveRecord c = (Inr p, c\<lparr>cn_rawConn := (cn_rawConn c)\<lparr>rx := rest\<rparr>, cn_inCipher := Some (advance rc)\<rparr>)"
  using receiveRecord_sealed[OF assms] Unseal_advance[OF assms(2,3), of RecordTypeApplicationData] assms(1)
  by (simp add: validInnerType_def receivePayload_def)

lemma receiveRecord_notify:
  assumes "cn_inCipher c = Some rc" "rcInv rc" "sealable rc [1, 0] k"
    and "rx (cn_rawConn c) = sealedRecord rc RecordTypeAlert [1, 0] k @ rest"
  shows "receiveRecord c = (Inl IoEOF, c\<lparr>cn_rawConn := (cn_rawConn c)\<lparr>rx := rest\<rparr>, cn_inCipher := Some (advance rc), cn_closeNotifyReceived := True\<rparr>)"
  using receiveRecord_sealed[OF assms] Unseal_advance[OF assms(2,3), of RecordTypeAlert] assms(1)
  by (simp add: validInnerType_def receivePayload_def receiveAlert_def)

lemma readLoop_pending:
  "cn_handshakeDone c \<Longrightarrow> cn_inCipher c = Some rc \<Longrightarrow> rcInv rc \<Longrightarrow> streamOk rc rs \<Longrightarrow>
   (\<forall>(t, p, k) \<in> set rs. t = RecordTypeApplicationData) \<Longrightarrow> rs \<noteq> [] \<Longrightarrow> fst (snd (last rs)) \<noteq> [] \<Longrightarrow>
   rx (cn_rawConn c) = sealStream rc rs @ rest \<Longrightarrow> cn_readBuf c = [] \<Longrightarrow> 0 < n \<Longrightarrow>
   \<exists>k c'. 0 < k \<and> k \<le> n \<and> k \<le> length (payloads rs) \<and> readLoop n c = ((take k (payloads rs), None), c') \<and>
     connPending ((advance ^^ length rs) rc) rest c' (drop k (payloads rs))"
proof (induction rs arbitrary: c rc)
  case Nil
  then show ?case by simp
next
  case (Cons r rs)
  obtain p k where r: "r = (RecordTypeApplicationData, p, k)" using Cons.prems(5) by (cases r) auto
  let ?c1 = "c\<lparr>cn_rawConn := (cn_rawConn c)\<lparr>rx := sealStream (advance rc) rs @ rest\<rparr>, cn_inCipher := Some (advance rc)\<rparr>"
  have one: "receiveRecord c = (Inr p, ?c1)"
    using Cons.prems(2,3,4,8) unfolding r by (intro receiveRecord_data) simp_all
  have pow: "(advance ^^ length (r # rs)) rc = (advance ^^ length rs) (advance rc)" by (simp add: funpow_swap1)
  show ?case
  proof (cases "p = []")
    case True
    then have ne: "rs \<noteq> []" "fst (snd (last rs)) \<noteq> []" using Cons.prems(7) r by (auto split: if_splits)
    have "\<exists>k c'. 0 < k \<and> k \<le> n \<and> k \<le> length (payloads rs) \<and> readLoop n ?c1 = ((take k (payloads rs), None), c') \<and>
        connPending ((advance ^^ length rs) (advance rc)) rest c' (drop k (payloads rs))"
      by (rule Cons.IH) (use Cons.prems ne r in auto)
    moreover have "readLoop n c = readLoop n ?c1" using one True by (simp add: readLoop.simps[of n c])
    ultimately show ?thesis using True r pow by simp
  next
    case False
    let ?k = "min n (length p)"
    let ?c2 = "if ?k < length p then ?c1\<lparr>cn_readBuf := drop n p\<rparr> else ?c1"
    have buf: "cn_readBuf ?c2 = drop n p" using Cons.prems(9) by (auto simp: min_def)
    have "connPending ((advance ^^ length rs) (advance rc)) rest ?c2 (drop ?k (p @ payloads rs))"
      unfolding connPending_def
      using Cons.prems(1,3,4,5,7) r buf
      by (intro conjI exI[of _ "advance rc"] exI[of _ rs]) (auto simp: min_def split: if_splits)
    moreover have "readLoop n c = ((take ?k (p @ payloads rs), None), ?c2)"
      using one False by (simp add: readLoop.simps[of n c] min_def)
    ultimately show ?thesis using False Cons.prems(10) r pow by (intro exI[of _ ?k] exI[of _ ?c2]) simp
  qed
qed

lemma Conn_Read_pending:
  assumes pend: "connPending fin rest c data" and data: "data \<noteq> []" and n: "0 < n"
  shows "\<exists>k c'. 0 < k \<and> k \<le> n \<and> k \<le> length data \<and> Conn_Read g env n c = ((take k data, None), c') \<and> connPending fin rest c' (drop k data)"
proof -
  obtain rc rs where p: "cn_handshakeDone c" "cn_inCipher c = Some rc" "rcInv rc" "streamOk rc rs"
    "\<forall>(t, p, k) \<in> set rs. t = RecordTypeApplicationData" "rs = [] \<or> fst (snd (last rs)) \<noteq> []" "fin = (advance ^^ length rs) rc"
    "rx (cn_rawConn c) = sealStream rc rs @ rest" "cn_readBuf c @ payloads rs = data"
    using pend by (auto simp: connPending_def)
  show ?thesis
  proof (cases "cn_readBuf c = []")
    case True
    then have "rs \<noteq> []" using p(9) data by auto
    with True p n readLoop_pending[OF p(1-5), of rest n] show ?thesis
      by (simp add: Conn_Read_def Conn_Handshake_done)
  next
    case False
    let ?k = "min n (length (cn_readBuf c))" and ?c' = "c\<lparr>cn_readBuf := drop n (cn_readBuf c)\<rparr>"
    have d: "data = cn_readBuf c @ payloads rs" using p(9) by simp
    have "connPending fin rest ?c' (drop ?k data)"
      unfolding connPending_def using p(1-8) d by (intro conjI exI[of _ rc] exI[of _ rs]) (simp_all add: min_def)
    moreover have "Conn_Read g env n c = ((take ?k data, None), ?c')"
      using p(1) n False d by (simp add: Conn_Read_def Conn_Handshake_done min_def)
    ultimately show ?thesis using False n d by (intro exI[of _ ?k] exI[of _ ?c']) simp
  qed
qed

interpretation conn: byte_source "Conn_Read g env" "connPending fin rest" for g env fin rest
  by unfold_locales (rule Conn_Read_pending)

text \<open>Two connections in step: what the first sends next is what the second expects next.\<close>

definition paired :: "RecordCipher \<Rightarrow> Conn \<Rightarrow> Conn \<Rightarrow> bool" where
  "paired rc a b \<longleftrightarrow> rcInv rc \<and> cn_handshakeDone a \<and> cn_handshakeDone b \<and> cn_outCipher a = Some rc \<and> cn_inCipher b = Some rc \<and>
     cn_readBuf b = [] \<and> wr (cn_rawConn a) = []"

text \<open>The bytes on their way from one connection to the other.\<close>

abbreviation arriving :: "Conn \<Rightarrow> bytes \<Rightarrow> Conn" where
  "arriving b wire \<equiv> b\<lparr>cn_rawConn := (cn_rawConn b)\<lparr>rx := wire\<rparr>\<rparr>"

lemma last_chunk: "rs = chunkRecords t b \<Longrightarrow> rs = [] \<or> fst (snd (last rs)) \<noteq> []"
proof -
  assume rs: "rs = chunkRecords t b"
  have "fst (snd (last rs)) \<noteq> []" if "rs \<noteq> []"
  proof -
    obtain t' p k where l: "last rs = (t', p, k)" by (cases "last rs")
    then have "(t', p, k) \<in> set (chunkRecords t b)" using that rs last_in_set by metis
    from chunkRecords_wf[OF this] l show ?thesis by simp
  qed
  then show ?thesis by blast
qed

lemma chunks_streamOk:
  assumes "unat (rc_seq rc) + length b < 2 ^ 64"
  shows "streamOk rc (chunkRecords t b)"
proof (rule streamOk_short)
  show "unat (rc_seq rc) + length (chunkRecords t b) \<le> 2 ^ 64 - 1" using assms length_chunkRecords[of t b] by simp
qed (auto dest: chunkRecords_wf)

lemma write_pending:
  assumes pr: "paired rc a b" and room: "unat (rc_seq rc) + length data < 2 ^ 64"
  shows "\<exists>wire a' fin. Conn_Write g env data a = ((length data, None), a') \<and> tx (cn_rawConn a') = tx (cn_rawConn a) @ wire \<and>
    cn_outCipher a' = Some fin \<and> unat (rc_seq fin) \<le> unat (rc_seq rc) + length data \<and> rcInv fin \<and>
    cn_handshakeDone a' \<and> wr (cn_rawConn a') = [] \<and> connPending fin rest (arriving b (wire @ rest)) data"
proof -
  let ?rs = "chunkRecords RecordTypeApplicationData data" and ?fin = "(advance ^^ length (chunkRecords RecordTypeApplicationData data)) rc"
  let ?a' = "a\<lparr>cn_outCipher := Some ?fin, cn_rawConn := (cn_rawConn a)\<lparr>tx := tx (cn_rawConn a) @ sealStream rc ?rs\<rparr>\<rparr>"
  have ok: "streamOk rc ?rs" by (rule chunks_streamOk[OF room])
  have "Conn_Write g env data a = ((length data, None), ?a')"
    using pr writeLoop_total[OF _ _ ok, of a 0] by (simp add: paired_def Conn_Write_def Conn_Handshake_done)
  moreover have "unat (rc_seq ?fin) \<le> unat (rc_seq rc) + length data"
    using unat_advance_pow[of rc "length ?rs"] room length_chunkRecords[of RecordTypeApplicationData data] by simp
  moreover have "connPending ?fin rest (arriving b (sealStream rc ?rs @ rest)) data"
    unfolding connPending_def using pr ok last_chunk[OF refl, of RecordTypeApplicationData data]
    by (intro conjI exI[of _ rc] exI[of _ ?rs]) (auto simp: paired_def dest: chunkRecords_wf)
  ultimately show ?thesis using pr
    by (intro exI[of _ "sealStream rc ?rs"] exI[of _ ?a'] exI[of _ ?fin]) (simp add: paired_def)
qed

lemma stream_delivers:
  assumes "paired rc a b" and "unat (rc_seq rc) + length data < 2 ^ 64"
  shows "\<exists>wire a' b' rc'. Conn_Write g env data a = ((length data, None), a') \<and> tx (cn_rawConn a') = tx (cn_rawConn a) @ wire \<and>
    ioReadFull (Conn_Read g' env') (length data) (arriving b (wire @ rest)) = Some ((data, None), b') \<and>
    rx (cn_rawConn b') = rest \<and> paired rc' a' b' \<and> unat (rc_seq rc') \<le> unat (rc_seq rc) + length data"
proof -
  obtain wire a' fin where w: "Conn_Write g env data a = ((length data, None), a')" "tx (cn_rawConn a') = tx (cn_rawConn a) @ wire"
    "cn_outCipher a' = Some fin" "unat (rc_seq fin) \<le> unat (rc_seq rc) + length data" "rcInv fin" "cn_handshakeDone a'"
    "wr (cn_rawConn a') = []" "connPending fin rest (arriving b (wire @ rest)) data"
    using write_pending[OF assms] by blast
  obtain b' where r: "ioReadFull (Conn_Read g' env') (length data) (arriving b (wire @ rest)) = Some ((data, None), b')"
    "connPending fin rest b' []"
    using conn.readFull_delivers[OF w(8), of "length data" g' env'] by auto
  have "paired fin a' b'" using connPending_done[OF r(2)] w(3,5,6,7) by (simp add: paired_def)
  with w(1,2,4) r(1) connPending_done[OF r(2)] show ?thesis by blast
qed

text \<open>
  C10: a connection carries a stream of bytes. If the sending cipher of one connection is the receiving cipher of the other,
  any data written to the first, of any length, is accepted in full, and reading as many bytes from the second, over
  the bytes that were sent and whatever follows them, returns exactly the data; the loop of \<^verbatim>\<open>io.ReadFull\<close> ends. The
  two connections are in step again afterwards, and what follows is untouched, so that the property repeats.
\<close>

theorem stream_roundtrip:
  assumes "paired rc a b" and "unat (rc_seq rc) + length data < 2 ^ 64"
  shows "\<exists>wire a' b' rc'. Conn_Write g env data a = ((length data, None), a') \<and> tx (cn_rawConn a') = tx (cn_rawConn a) @ wire \<and>
    ioReadFull (Conn_Read g' env') (length data) (arriving b (wire @ rest)) = Some ((data, None), b') \<and>
    rx (cn_rawConn b') = rest \<and> paired rc' a' b' \<and> unat (rc_seq rc') \<le> unat (rc_seq rc) + length data"
  using assms by (rule stream_delivers)

section \<open>Closing\<close>

lemma Seal_notify: "rc_seq rc \<noteq> NOT 0 \<Longrightarrow> Seal RecordTypeAlert [1, 0] rc = (Inr (sealedRecord rc RecordTypeAlert [1, 0] 0), advance rc)"
  by (simp add: Seal_Inr sealable_def advance_def)

text \<open>
  C23: \<^verbatim>\<open>Close\<close> closes the transport once and sends close_notify once. The first call marks the connection closed and closes the
  transport, and every later call returns the same error and does nothing. Before the handshake nothing is sent. After it, if
  the transport takes the deadline and the write and the sequence number is not used up, one close_notify record is sent under a write
  deadline of 500 ms, the error is that of the transport, and a peer in step that has no other data to read gets \<^verbatim>\<open>io.EOF\<close> from its next
  \<^verbatim>\<open>Read\<close>.
\<close>

theorem close_once:
  assumes "\<not> cn_closed c"
  shows "case Conn_Close now c of (r, c') \<Rightarrow>
    cn_closed c' \<and> net_closed (cn_rawConn c') \<and> Conn_Close now' c' = (r, c') \<and>
    (\<not> cn_handshakeDone c \<longrightarrow> tx (cn_rawConn c') = tx (cn_rawConn c) \<and> r = errorsJoin None (close_err (cn_rawConn c))) \<and>
    (paired rc c b \<and> dl_err (cn_rawConn c) = None \<and> rc_seq rc \<noteq> NOT 0 \<and> 0 < n \<longrightarrow>
       r = errorsJoin None (close_err (cn_rawConn c)) \<and> wdeadline (cn_rawConn c') = now + 500 * nsMillisecond \<and>
       (\<exists>wire b'. tx (cn_rawConn c') = tx (cn_rawConn c) @ wire \<and>
          Conn_Read g env n (arriving b (wire @ rest)) = (([], Some IoEOF), b') \<and> cn_closeNotifyReceived b'))"
proof -
  obtain r c' where run: "Conn_Close now c = (r, c')" by fastforce
  have closed: "cn_closed c'" "net_closed (cn_rawConn c')" "cn_closeErr c' = r"
    using run assms by (auto simp: Conn_Close_def netClose_def Let_def split: prod.splits)
  have early: "tx (cn_rawConn c') = tx (cn_rawConn c) \<and> r = errorsJoin None (close_err (cn_rawConn c))" if "\<not> cn_handshakeDone c"
    using run assms that by (auto simp: Conn_Close_def netClose_def Let_def)
  have late: "r = errorsJoin None (close_err (cn_rawConn c)) \<and> wdeadline (cn_rawConn c') = now + 500 * nsMillisecond \<and>
       (\<exists>wire b'. tx (cn_rawConn c') = tx (cn_rawConn c) @ wire \<and>
          Conn_Read g env n (arriving b (wire @ rest)) = (([], Some IoEOF), b') \<and> cn_closeNotifyReceived b')"
    if pr: "paired rc c b" and line: "dl_err (cn_rawConn c) = None" and seq: "rc_seq rc \<noteq> NOT 0" and n: "0 < n"
  proof -
    let ?w = "sealedRecord rc RecordTypeAlert [1, 0] 0" and ?b = "\<lambda>w. arriving b (w @ rest)"
    have sent: "r = errorsJoin None (close_err (cn_rawConn c))" "wdeadline (cn_rawConn c') = now + 500 * nsMillisecond"
      "tx (cn_rawConn c') = tx (cn_rawConn c) @ ?w"
      using run assms pr line Seal_notify[OF seq]
      by (auto simp: Conn_Close_def paired_def sendCloseNotify_def setWriteDeadline_def writeFull_def connWrite_def netClose_def Let_def)
    have "receiveRecord (?b ?w) = (Inl IoEOF, (?b ?w)\<lparr>cn_rawConn := (cn_rawConn (?b ?w))\<lparr>rx := rest\<rparr>, cn_inCipher := Some (advance rc),
        cn_closeNotifyReceived := True\<rparr>)"
      by (rule receiveRecord_notify) (use pr seq in \<open>auto simp: paired_def sealable_def\<close>)
    then have "\<exists>b'. readLoop n (?b ?w) = (([], Some IoEOF), b') \<and> cn_closeNotifyReceived b'"
      unfolding readLoop.simps[of n "?b ?w"] by simp
    then have "\<exists>b'. Conn_Read g env n (?b ?w) = (([], Some IoEOF), b') \<and> cn_closeNotifyReceived b'"
      using pr n by (simp add: Conn_Read_def Conn_Handshake_done paired_def)
    with sent show ?thesis by blast
  qed
  have "Conn_Close now' c' = (r, c')" using closed by (simp add: Conn_Close_def)
  with run closed early late show ?thesis by simp
qed

section \<open>Reading and writing at the same time\<close>

text \<open>The part of a connection that reading uses, and the part that writing uses.\<close>

definition putIn :: "bytes \<Rightarrow> RecordCipher option \<Rightarrow> bytes \<Rightarrow> bool \<Rightarrow> Conn \<Rightarrow> Conn" where
  "putIn r i buf f c = c\<lparr>cn_rawConn := (cn_rawConn c)\<lparr>rx := r\<rparr>, cn_inCipher := i, cn_readBuf := buf, cn_closeNotifyReceived := f\<rparr>"

definition putOut :: "bytes \<Rightarrow> (nat \<times> goerr option) list \<Rightarrow> RecordCipher option \<Rightarrow> Conn \<Rightarrow> Conn" where
  "putOut x w rc c = c\<lparr>cn_rawConn := (cn_rawConn c)\<lparr>tx := x, wr := w\<rparr>, cn_outCipher := rc\<rparr>"

lemma readFull_putOut: "readFull k (n\<lparr>tx := x, wr := w\<rparr>) = (case readFull k n of (r, n') \<Rightarrow> (r, n'\<lparr>tx := x, wr := w\<rparr>))"
  by (simp add: readFull_def)

lemma receivePayload_putOut: "receivePayload rec (putOut x w rc c) = (case receivePayload rec c of (r, c') \<Rightarrow> (r, putOut x w rc c'))"
  by (auto simp: receivePayload_def receiveAlert_def putOut_def Let_def split: option.splits prod.splits sum.splits)

lemma putOut_raw: "(putOut x w rc c)\<lparr>cn_rawConn := n\<lparr>tx := x, wr := w\<rparr>\<rparr> = putOut x w rc (c\<lparr>cn_rawConn := n\<rparr>)"
  by (simp add: putOut_def)

lemma receiveRecord_putOut: "receiveRecord (putOut x w rc c) = (case receiveRecord c of (r, c') \<Rightarrow> (r, putOut x w rc c'))"
proof -
  have raw: "cn_rawConn (putOut x w rc c) = (cn_rawConn c)\<lparr>tx := x, wr := w\<rparr>"
    "cn_closeNotifyReceived (putOut x w rc c) = cn_closeNotifyReceived c" by (simp_all add: putOut_def)
  show ?thesis unfolding receiveRecord_def raw readFull_putOut
    by (simp add: Let_def putOut_raw receivePayload_putOut readFull_putOut split: prod.splits sum.splits)
qed

lemma readLoop_putOut: "readLoop n (putOut x w rc c) = (case readLoop n c of (r, c') \<Rightarrow> (r, putOut x w rc c'))"
proof (induction n c rule: readLoop.induct)
  case (1 n c)
  obtain q c1 where q: "receiveRecord c = (q, c1)" by fastforce
  have q': "receiveRecord (putOut x w rc c) = (q, putOut x w rc c1)" by (simp add: receiveRecord_putOut q)
  have buf: "(putOut x w rc c1)\<lparr>cn_readBuf := d\<rparr> = putOut x w rc (c1\<lparr>cn_readBuf := d\<rparr>)" for d by (simp add: putOut_def)
  show ?case
  proof (cases q)
    case (Inl e)
    with q q' show ?thesis by (simp add: readLoop.simps[of n c] readLoop.simps[of n "putOut x w rc c"])
  next
    case (Inr p)
    with q q' buf 1[OF q[symmetric] Inr] show ?thesis
      by (cases "p = []") (simp_all add: readLoop.simps[of n c] readLoop.simps[of n "putOut x w rc c"])
  qed
qed

lemma writeFull_putIn: "writeFull p (n\<lparr>rx := r\<rparr>) = (case writeFull p n of (u, n') \<Rightarrow> (u, n'\<lparr>rx := r\<rparr>))"
  by (auto simp: writeFull_def connWrite_def split: list.splits option.splits prod.splits)

lemma writeLoop_putIn: "writeLoop b t (putIn r i buf f c) = (case writeLoop b t c of (u, c') \<Rightarrow> (u, putIn r i buf f c'))"
proof (induction b arbitrary: t c rule: maxChunks.induct)
  case (1 b)
  have raw: "cn_rawConn (putIn r i buf f c) = (cn_rawConn c)\<lparr>rx := r\<rparr>" "cn_outCipher (putIn r i buf f c) = cn_outCipher c"
    by (simp_all add: putIn_def)
  have upd: "(putIn r i buf f c)\<lparr>cn_rawConn := n\<lparr>rx := r\<rparr>\<rparr> = putIn r i buf f (c\<lparr>cn_rawConn := n\<rparr>)"
    "(putIn r i buf f c)\<lparr>cn_outCipher := z\<rparr> = putIn r i buf f (c\<lparr>cn_outCipher := z\<rparr>)" for z n c
    by (simp_all add: putIn_def)
  show ?case
  proof (cases "b = []")
    case False
    show ?thesis unfolding writeLoop_step[OF False] raw writeFull_putIn
      by (simp add: upd "1.IH"[OF False] split: option.splits prod.splits sum.splits)
  qed simp
qed

text \<open>
  C27: a \<^verbatim>\<open>Read\<close> and a \<^verbatim>\<open>Write\<close> that overlap on one connection do not disturb each other. On a connection whose handshake is done, they
  use disjoint parts of it, so that both orders give the same results and leave the connection in the same state; the two mutexes are
  enough, and the pair behaves as if one call ran after the other.
\<close>

theorem read_write_commute:
  assumes "cn_handshakeDone c"
  shows "case Conn_Read g env n c of (r, c1) \<Rightarrow> case Conn_Write g env' b c of (w, c2) \<Rightarrow>
    \<exists>c3. Conn_Write g env' b c1 = (w, c3) \<and> Conn_Read g env n c2 = (r, c3)"
proof -
  obtain r c1 where r: "Conn_Read g env n c = (r, c1)" by fastforce
  obtain w c2 where w: "Conn_Write g env' b c = (w, c2)" by fastforce
  have wl: "writeLoop b 0 c = (w, c2)" using w assms by (simp add: Conn_Write_def Conn_Handshake_done)
  have ro: "readOnly c c1"
    using r assms readLoop_readOnly[of n c r c1]
    by (auto simp: Conn_Read_def Conn_Handshake_done readOnly_def split: if_splits)
  have wo: "writeOnly c c2" using writeLoop_writeOnly[OF wl] by blast
  let ?in = "putIn (rx (cn_rawConn c1)) (cn_inCipher c1) (cn_readBuf c1) (cn_closeNotifyReceived c1)"
  let ?out = "putOut (tx (cn_rawConn c2)) (wr (cn_rawConn c2)) (cn_outCipher c2)"
  have c1: "c1 = ?in c" using ro by (simp add: readOnly_def putIn_def)
  have c2: "c2 = ?out c" using wo by (simp add: writeOnly_def putOut_def)
  have "writeLoop b 0 c1 = (w, ?in c2)" by (subst c1) (simp add: writeLoop_putIn wl)
  then have 1: "Conn_Write g env' b c1 = (w, ?in c2)"
    using assms by (subst (asm) c1, subst c1) (simp add: Conn_Write_def Conn_Handshake_done putIn_def)
  have sel: "cn_handshakeDone (?out d) = cn_handshakeDone d" "cn_readBuf (?out d) = cn_readBuf d"
    "(?out d)\<lparr>cn_readBuf := x\<rparr> = ?out (d\<lparr>cn_readBuf := x\<rparr>)" for d x by (simp_all add: putOut_def)
  have "Conn_Read g env n (?out c) = (case Conn_Read g env n c of (q, c') \<Rightarrow> (q, ?out c'))"
    using assms by (simp add: Conn_Read_def Conn_Handshake_done sel readLoop_putOut)
  then have 2: "Conn_Read g env n c2 = (r, ?out c1)" using r c2 by simp
  have "?in c2 = ?out c1" by (subst c1, subst c2) (simp add: putIn_def putOut_def)
  with 1 2 r w show ?thesis by simp
qed

section \<open>Deadlines in the middle of a record\<close>

lemma version_bytes: "BigEndian_PutUint16 LegacyRecordVersion = [3, 3]"
  by code_simp

lemma sealedRecord_version: "sealedRecord rc t p k ! 1 = 3" "sealedRecord rc t p k ! 2 = 3"
  by (simp_all add: sealedRecord_def recordHeader_def version_bytes Let_def)

lemma receiveRecord_bad_type:
  assumes "rx (cn_rawConn c) = bs" "5 \<le> length bs" "bs ! 0 \<noteq> RecordTypeApplicationData"
  shows "\<exists>c'. receiveRecord c = (Inl ErrInvalidRecordHeader, c')"
  using assms by (simp add: receiveRecord_def readFull_def)

text \<open>
  C40: a deadline that expires inside a record header destroys the stream. If only one or two bytes of the next record have
  arrived when the transport reports a timeout, \<^verbatim>\<open>Read\<close> returns that error as a \<^verbatim>\<open>net.Conn\<close> may, but it has dropped the
  bytes: when the rest of the record arrives and the caller reads again, as a \<^verbatim>\<open>net.Conn\<close> allows after the deadline is
  extended, the call fails with \<^verbatim>\<open>ErrInvalidRecordHeader\<close>, although the same bytes without the timeout are delivered.
\<close>

theorem timeout_loses_record:
  assumes "cn_handshakeDone c" "cn_readBuf c = []" "cn_inCipher c = Some rc" "rcInv rc" "sealable rc p k" "p \<noteq> []" "0 < n"
    and "sealedRecord rc RecordTypeApplicationData p k = pre @ post" "length pre = 1 \<or> length pre = 2"
    and "rx (cn_rawConn c) = pre" "\<not> isEOF (rx_end (cn_rawConn c))"
  shows "\<exists>c1 c2 c3. Conn_Read g env n c = (([], Some (rx_end (cn_rawConn c))), c1) \<and>
    Conn_Read g env n (arriving c1 (post @ rest)) = (([], Some ErrInvalidRecordHeader), c2) \<and>
    Conn_Read g env n (arriving c (pre @ post @ rest)) = ((take n p, None), c3)"
proof -
  have len: "length (pre @ post) = 5 + (length p + 1 + k + 16)" using length_sealedRecord[OF assms(4)] assms(8) by metis
  let ?c1 = "arriving c []"
  have "readFull RecordHeaderLen (cn_rawConn c) = (Inl (rx_end (cn_rawConn c)), (cn_rawConn c)\<lparr>rx := []\<rparr>)"
    using assms(9-11) by (auto simp: readFull_def isEOF_def)
  then have "receiveRecord c = (Inl (rx_end (cn_rawConn c)), ?c1)" using assms(11) by (simp add: receiveRecord_def)
  then have r1: "Conn_Read g env n c = (([], Some (rx_end (cn_rawConn c))), ?c1)"
    using assms(1,2,7) by (simp add: Conn_Read_def Conn_Handshake_done readLoop.simps[of n c])
  have "(pre @ post) ! length pre = 3"
    using assms(9) sealedRecord_version[of rc RecordTypeApplicationData p k] unfolding assms(8) by (auto simp del: append_assoc)
  moreover have post: "5 \<le> length post" using len assms(9) by auto
  ultimately have "(post @ rest) ! 0 \<noteq> RecordTypeApplicationData" by (cases post) simp_all
  then obtain c2 where "receiveRecord (arriving c (post @ rest)) = (Inl ErrInvalidRecordHeader, c2)"
    using receiveRecord_bad_type[of "arriving c (post @ rest)" "post @ rest"] post by auto
  then have r2: "Conn_Read g env n (arriving ?c1 (post @ rest)) = (([], Some ErrInvalidRecordHeader), c2)"
    using assms(1,2,7) by (simp add: Conn_Read_def Conn_Handshake_done readLoop.simps[of n "arriving c (post @ rest)"])
  let ?c = "arriving c (pre @ post @ rest)"
  have "\<exists>c3. receiveRecord ?c = (Inr p, c3)"
    using receiveRecord_data[of ?c rc p k rest] assms(3-5) unfolding assms(8) by simp
  then obtain c3 where "receiveRecord ?c = (Inr p, c3)" ..
  then have "\<exists>c'. Conn_Read g env n ?c = ((take n p, None), c')"
    using assms(1,2,6,7) by (simp add: Conn_Read_def Conn_Handshake_done readLoop.simps[of n ?c])
  with r1 r2 show ?thesis by blast
qed

section \<open>Concrete connections\<close>

definition demoConn :: Conn where
  "demoConn = (newConn False quietNet None)\<lparr>cn_handshakeDone := True, cn_inCipher := Some demoCipher, cn_outCipher := Some demoCipher\<rparr>"

lemma demoConn_simps [simp]:
  "cn_handshakeDone demoConn" "cn_inCipher demoConn = Some demoCipher" "cn_outCipher demoConn = Some demoCipher"
  "cn_readBuf demoConn = []" "cn_rawConn demoConn = quietNet" "\<not> cn_closed demoConn"
  by (simp_all add: demoConn_def newConn_def)

lemma demoConn_inv: "connInv (arriving demoConn bs)"
  using demoCipher_inv by (simp add: connInv_def demoConn_def newConn_def)

lemma demoConn_paired: "paired demoCipher demoConn demoConn"
  using demoCipher_inv by (simp add: paired_def quietNet_simps)

lemma demo_seq: "rc_seq demoCipher = 5"
  by (simp add: demoCipher_def)

lemma demo_next: "rc = demoCipher\<lparr>rc_seq := rc_seq rc\<rparr> \<Longrightarrow> unat (rc_seq rc) = 5 \<Longrightarrow> rc\<lparr>rc_seq := rc_seq rc + 1\<rparr> = demoCipher\<lparr>rc_seq := 6\<rparr>"
proof -
  assume rc: "rc = demoCipher\<lparr>rc_seq := rc_seq rc\<rparr>" and seq: "unat (rc_seq rc) = 5"
  have "rc_seq rc = 5" using seq by (simp add: word_unat_eq_iff)
  then show ?thesis by (subst rc) simp
qed

theorem write_outcome_witness:
  "\<exists>c1 c2. Conn_Write demoPki (demoSide 3) [1, 2, 3] demoConn = ((3, None), c1) \<and>
     tx (cn_rawConn c1) = sealStream demoCipher (chunkRecords RecordTypeApplicationData [1, 2, 3]) \<and>
     Conn_Write demoPki (demoSide 3) [1, 2, 3] (demoConn\<lparr>cn_rawConn := quietNet\<lparr>wr := [(3, Some (OsErr ''broken pipe''))]\<rparr>\<rparr>) =
       ((0, Some (OsErr ''broken pipe'')), c2) \<and> cn_outCipher c2 = Some (demoCipher\<lparr>rc_seq := 6\<rparr>)"
proof -
  let ?c = "demoConn\<lparr>cn_rawConn := quietNet\<lparr>wr := [(3, Some (OsErr ''broken pipe''))]\<rparr>\<rparr>"
  obtain c1 where r1: "Conn_Write demoPki (demoSide 3) [1, 2, 3] demoConn = ((3, None), c1)"
    using write_pending[OF demoConn_paired, of "[1, 2, 3]" demoPki "demoSide 3"] by (auto simp: demo_seq numeral_3_eq_3)
  obtain c2 where r2: "Conn_Write demoPki (demoSide 3) [1, 2, 3] ?c = ((0, Some (OsErr ''broken pipe'')), c2)"
    by (simp add: Conn_Write_def Conn_Handshake_done writeLoop_step Seal_total demo_seq writeFull_def connWrite_def)
  have inv: "connInv demoConn" "connInv ?c" using demoCipher_inv by (simp_all add: connInv_def demoConn_def newConn_def)
  from write_outcome[OF inv(1) _ r1] have "tx (cn_rawConn c1) = sealStream demoCipher (chunkRecords RecordTypeApplicationData [1, 2, 3])"
    by (auto simp: quietNet_simps)
  moreover from write_outcome[OF inv(2) _ r2] have "cn_outCipher c2 = Some (demoCipher\<lparr>rc_seq := 6\<rparr>)"
    by (auto simp: demo_seq demo_next)
  ultimately show ?thesis using r1 r2 by blast
qed

theorem stream_roundtrip_witness:
  "\<exists>wire a' b'. Conn_Write demoPki (demoSide 3) [1, 2, 3] demoConn = ((3, None), a') \<and> tx (cn_rawConn a') = wire \<and>
     ioReadFull (Conn_Read demoPki (demoSide 5)) 3 (arriving demoConn wire) = Some (([1, 2, 3], None), b')"
  using stream_roundtrip[OF demoConn_paired, of "[1, 2, 3]" demoPki "demoSide 3" demoPki "demoSide 5" "[]"]
  by (auto simp: demo_seq quietNet_simps numeral_3_eq_3)

lemma demo_record: "sealable demoCipher [1, 2, 3] 0"
  by (simp add: sealable_def demoCipher_def)

lemma demo_reads: "\<exists>c'. Conn_Read demoPki (demoSide 3) 2
     (arriving demoConn (sealedRecord demoCipher RecordTypeApplicationData [1, 2, 3] 0)) = (([1, 2], None), c')"
proof -
  let ?c = "arriving demoConn (sealedRecord demoCipher RecordTypeApplicationData [1, 2, 3] 0)"
  have "receiveRecord ?c = (Inr [1, 2, 3], ?c\<lparr>cn_rawConn := (cn_rawConn ?c)\<lparr>rx := []\<rparr>, cn_inCipher := Some (advance demoCipher)\<rparr>)"
    by (rule receiveRecord_data[OF _ demoCipher_inv demo_record]) simp_all
  then have "\<exists>c'. readLoop 2 ?c = (([1, 2], None), c')" unfolding readLoop.simps[of 2 ?c] by simp
  then show ?thesis by (simp add: Conn_Read_def Conn_Handshake_done)
qed

theorem read_authentic_witness:
  "\<exists>c' p k rc1. Conn_Read demoPki (demoSide 3) 2
     (arriving demoConn (sealedRecord demoCipher RecordTypeApplicationData [1, 2, 3] 0)) = (([1, 2], None), c') \<and>
     [1, 2] @ cn_readBuf c' = p \<and> sealable rc1 p k"
proof -
  obtain c' where r: "Conn_Read demoPki (demoSide 3) 2
     (arriving demoConn (sealedRecord demoCipher RecordTypeApplicationData [1, 2, 3] 0)) = (([1, 2], None), c')" using demo_reads by blast
  from read_authentic[OF demoConn_inv _ _ _ r] r show ?thesis by auto
qed

theorem close_once_witness:
  "\<exists>c' wire b'. Conn_Close demoNow demoConn = (None, c') \<and> tx (cn_rawConn c') = wire \<and>
     Conn_Close (demoNow + 1) c' = (None, c') \<and>
     Conn_Read demoPki (demoSide 3) 1 (arriving demoConn wire) = (([], Some IoEOF), b')"
  using close_once[OF demoConn_simps(6), where now = demoNow and now' = "demoNow + 1" and rc = demoCipher and b = demoConn and n = 1 and
      g = demoPki and env = "demoSide 3" and rest = "[]"] demoConn_paired
  by (auto simp: demo_seq quietNet_def errorsJoin_def split: prod.splits)

theorem read_write_commute_witness:
  "\<exists>c c1 c2 c3 w. Conn_Read demoPki (demoSide 3) 2 c = (([1, 2], None), c1) \<and> Conn_Write demoPki (demoSide 5) [7] c = (w, c2) \<and>
     Conn_Write demoPki (demoSide 5) [7] c1 = (w, c3) \<and> Conn_Read demoPki (demoSide 3) 2 c2 = (([1, 2], None), c3)"
proof -
  let ?c = "arriving demoConn (sealedRecord demoCipher RecordTypeApplicationData [1, 2, 3] 0)"
  obtain c1 where r: "Conn_Read demoPki (demoSide 3) 2 ?c = (([1, 2], None), c1)" using demo_reads by blast
  obtain w c2 where w: "Conn_Write demoPki (demoSide 5) [7] ?c = (w, c2)" by fastforce
  have "cn_handshakeDone ?c" by simp
  from read_write_commute[OF this, where g = demoPki and env = "demoSide 3" and n = 2 and env' = "demoSide 5" and b = "[7]"] r w
  show ?thesis by (simp only: prod.case) blast
qed

theorem timeout_loses_record_witness:
  "\<exists>c post c1 c2. sealedRecord demoCipher RecordTypeApplicationData [1, 2, 3] 0 = [23] @ post \<and>
     Conn_Read demoPki (demoSide 3) 9 c = (([], Some (OsErr ''i/o timeout'')), c1) \<and>
     Conn_Read demoPki (demoSide 3) 9 (arriving c1 post) = (([], Some ErrInvalidRecordHeader), c2)"
proof -
  let ?c = "demoConn\<lparr>cn_rawConn := quietNet\<lparr>rx := [23], rx_end := OsErr ''i/o timeout''\<rparr>\<rparr>"
  obtain post where post: "sealedRecord demoCipher RecordTypeApplicationData [1, 2, 3] 0 = [23] @ post"
    by (simp add: sealedRecord_def recordHeader_def Let_def)
  have "\<exists>c1 c2 c3. Conn_Read demoPki (demoSide 3) 9 ?c = (([], Some (rx_end (cn_rawConn ?c))), c1) \<and>
    Conn_Read demoPki (demoSide 3) 9 (arriving c1 (post @ [])) = (([], Some ErrInvalidRecordHeader), c2) \<and>
    Conn_Read demoPki (demoSide 3) 9 (arriving ?c ([23] @ post @ [])) = ((take 9 [1, 2, 3], None), c3)"
    by (rule timeout_loses_record[OF _ _ _ demoCipher_inv demo_record _ _ post]) (simp_all add: isEOF_def)
  then show ?thesis using post by auto
qed

end
