(* ===== verification/Transport.thy ===== *)
theory Transport
  imports Conn_Stream
begin

text \<open>
  Listening, accepting and dialling, and the HTTP helpers (\<^verbatim>\<open>transport.go\<close>). The dialer, the listener and the clock of Go's
  \<^verbatim>\<open>net\<close>, \<^verbatim>\<open>net/http\<close> and \<^verbatim>\<open>context\<close> packages are arguments. The lemmas show which configurations reach the network, what becomes of the
  transport and its deadline, and that a dialled connection has an attested peer.
\<close>

section \<open>Listening\<close>

text \<open>\<open>ls_Listener\<close> is the embedded \<^verbatim>\<open>net.Listener\<close>, of which only \<^verbatim>\<open>Accept\<close> is overridden.\<close>

record 'l listener =
  ls_Listener :: 'l
  ls_cfg :: Config

text \<open>\<^verbatim>\<open>Accept\<close>, with what the embedded listener's \<^verbatim>\<open>Accept\<close> returns.\<close>

definition Accept :: "net result \<Rightarrow> 'l listener \<Rightarrow> Conn result" where
  "Accept rawResult l = bindRes rawResult (\<lambda>rawConn. Inr (NewServerConn rawConn (Some (ls_cfg l))))"

text \<open>
  The state of \<open>Listen\<close> is the log of the calls of \<^verbatim>\<open>net.Listen\<close>.
\<close>

definition Listen ::
    "(string \<Rightarrow> string \<Rightarrow> 'l result) \<Rightarrow> string \<Rightarrow> string \<Rightarrow> Config option \<Rightarrow> ((string \<times> string) list, 'l listener) io" where
  "Listen netListen network addr cfgp =
     (let cfg = (case cfgp of None \<Rightarrow> zeroConfig | Some c \<Rightarrow> c)
      in bindIO (wrapIO ''teetls: invalid listen config'' (liftRes (Validate cfg))) (\<lambda>_.
         if length (cf_CertPEM cfg) = 0 \<and> length (cf_KeyPEM cfg) = 0 \<and> cf_EvidenceProvider cfg = None
         then fail (ErrNew ''teetls: requires either CertPEM/KeyPEM or EvidenceProvider'')
         else if mode cfg = ModeStrict \<and> cf_VerifyMutualAttestation cfg \<and> \<not> cf_InsecureSkipAttestationVerify cfg \<and>
            length (cf_ExpectedMeasurements cfg) = 0
         then fail (ErrNew ''teetls: server listening in strict mode with mutual attestation requires ExpectedMeasurements'')
         else bindIO (wrapIO ''teetls: listen'' (\<lambda>log. (netListen network addr, log @ [(network, addr)]))) (\<lambda>l.
           ret \<lparr>ls_Listener = l, ls_cfg = cfg\<rparr>)))"

section \<open>Dialling\<close>

text \<open>
  What a call of \<open>DialContext\<close> meets: the draws of the handshake, the time of the deadline, the time at which the watcher goroutine
  finds the context done and expires the deadline, if it does before it is stopped, what \<^verbatim>\<open>ctx.Err()\<close> returns after the
  handshake, and the time of \<^verbatim>\<open>Close\<close>. The client's handshake leaves deadlines alone, so that it does not matter at which
  point of the handshake the watcher acts; that the transport fails an operation for the deadline is an outcome of the transport.
\<close>

record dialEnv =
  de_hs :: hsEnv
  de_now :: gotime
  de_cancel :: "gotime option"
  de_ctxErr :: "goerr option"
  de_close :: gotime

definition dialDeadline :: "gotime \<Rightarrow> gocontext \<Rightarrow> Config \<Rightarrow> gotime" where
  "dialDeadline now ctx cfg =
     (let deadline = (case cx_deadline ctx of Some d \<Rightarrow> d | None \<Rightarrow> 0);
          timeoutDeadline = now + timeout cfg
      in if deadline = 0 \<or> timeoutDeadline < deadline then timeoutDeadline else deadline)"

text \<open>Between the dial and the return: the connection with its handshake run, and the watcher stopped.\<close>

definition dialHandshake :: "gmsm \<Rightarrow> dialEnv \<Rightarrow> gocontext \<Rightarrow> Config \<Rightarrow> net \<Rightarrow> goerr option \<times> Conn" where
  "dialHandshake g env ctx cfg rawConn =
     (let deadline = dialDeadline (de_now env) ctx cfg;
          raw1 = (if deadline \<noteq> 0 then snd (setDeadline deadline rawConn) else rawConn);
          (handshakeErr, conn) = handshake g (de_hs env) (Some ctx) (NewClientConn raw1 (Some cfg))
      in (handshakeErr, case de_cancel env of
            None \<Rightarrow> conn
          | Some t \<Rightarrow> conn\<lparr>cn_rawConn := snd (setDeadline t (cn_rawConn conn))\<rparr>))"

text \<open>The result, and the transport as the call leaves it, if it got one.\<close>

definition DialContext ::
    "gmsm \<Rightarrow> (gocontext \<Rightarrow> int \<Rightarrow> string \<Rightarrow> string \<Rightarrow> net result) \<Rightarrow> dialEnv \<Rightarrow> gocontext \<Rightarrow> string \<Rightarrow> string \<Rightarrow> Config option \<Rightarrow>
       Conn result \<times> net option" where
  "DialContext g dialer env ctx network addr cfgp =
     (let cfg = (case cfgp of None \<Rightarrow> zeroConfig | Some c \<Rightarrow> c)
      in case Validate cfg of
           Inl err \<Rightarrow> (Inl (ErrWrap ''teetls: invalid dial config'' err), None)
         | Inr _ \<Rightarrow>
             if mode cfg = ModeStrict \<and> \<not> cf_InsecureSkipAttestationVerify cfg \<and> length (cf_ExpectedMeasurements cfg) = 0
             then (Inl (ErrNew ''teetls: client dialing in strict mode requires ExpectedMeasurements''), None)
             else case dialer ctx (timeout cfg) network addr of
               Inl err \<Rightarrow> (Inl (ErrWrap ''teetls: dial'' err), None)
             | Inr rawConn \<Rightarrow>
                 (case dialHandshake g env ctx cfg rawConn of
                    (Some err, conn) \<Rightarrow>
                      if isPanic err then (Inl err, Some (cn_rawConn conn))
                      else let closed = snd (Conn_Close (de_close env) conn)
                           in (Inl (case de_ctxErr env of
                                      Some ctxErr \<Rightarrow> ErrWrap ''teetls: dial'' ctxErr
                                    | None \<Rightarrow> ErrWrap ''teetls: handshake failed'' err), Some (cn_rawConn closed))
                  | (None, conn) \<Rightarrow>
                      let conn1 = conn\<lparr>cn_rawConn := snd (setDeadline 0 (cn_rawConn conn))\<rparr>
                      in (Inr conn1, Some (cn_rawConn conn1))))"

definition Dial ::
    "gmsm \<Rightarrow> (gocontext \<Rightarrow> int \<Rightarrow> string \<Rightarrow> string \<Rightarrow> net result) \<Rightarrow> dialEnv \<Rightarrow> string \<Rightarrow> string \<Rightarrow> Config option \<Rightarrow> Conn result \<times> net option" where
  "Dial g dialer env network addr cfgp = DialContext g dialer env contextBackground network addr cfgp"

section \<open>HTTP helpers\<close>

text \<open>The fields of \<^verbatim>\<open>http.Transport\<close> and \<^verbatim>\<open>http.Client\<close> that the helpers set.\<close>

record httpTransport =
  ht_DialTLSContext :: "dialEnv \<Rightarrow> gocontext \<Rightarrow> string \<Rightarrow> string \<Rightarrow> Conn result \<times> net option"
  ht_ForceAttemptHTTP2 :: bool
  ht_MaxIdleConns :: int
  ht_IdleConnTimeout :: int
  ht_TLSHandshakeTimeout :: int
  ht_ExpectContinueTimeout :: int

definition NewHTTPTransport ::
    "gmsm \<Rightarrow> (gocontext \<Rightarrow> int \<Rightarrow> string \<Rightarrow> string \<Rightarrow> net result) \<Rightarrow> Config option \<Rightarrow> httpTransport" where
  "NewHTTPTransport g dialer cfg =
     \<lparr>ht_DialTLSContext = (\<lambda>env ctx network addr. DialContext g dialer env ctx network addr cfg),
      ht_ForceAttemptHTTP2 = False, ht_MaxIdleConns = 100, ht_IdleConnTimeout = 90 * nsSecond,
      ht_TLSHandshakeTimeout = 10 * nsSecond, ht_ExpectContinueTimeout = 1 * nsSecond\<rparr>"

record httpClient =
  hc_Transport :: httpTransport
  hc_Timeout :: int

definition NewHTTPClient ::
    "gmsm \<Rightarrow> (gocontext \<Rightarrow> int \<Rightarrow> string \<Rightarrow> string \<Rightarrow> net result) \<Rightarrow> Config option \<Rightarrow> httpClient" where
  "NewHTTPClient g dialer cfg =
     \<lparr>hc_Transport = NewHTTPTransport g dialer cfg,
      hc_Timeout = (case cfg of None \<Rightarrow> defaultTimeout | Some c \<Rightarrow> timeout c)\<rparr>"

section \<open>Properties of listening\<close>

abbreviation cfgFor :: "Config option \<Rightarrow> Config" where
  "cfgFor cfgp \<equiv> (case cfgp of None \<Rightarrow> zeroConfig | Some c \<Rightarrow> c)"

lemma missing_credentials:
  assumes "cf_CertPEM c \<noteq> [] \<and> cf_KeyPEM c \<noteq> [] \<or> cf_EvidenceProvider c \<noteq> None"
  shows "fst (GetOrGenerateCertificateContext g rnd clk ctxp c) \<noteq> Inl (ErrNew ''teetls: requires either CertPEM/KeyPEM or EvidenceProvider'')"
  using assms
  by (auto simp: GetOrGenerateCertificateContext_def Let_def wrapRes_def split: sum.splits prod.splits)

text \<open>
  C29: \<^verbatim>\<open>Listen\<close> fails fast. It opens the network address exactly if the configuration is valid, can produce a certificate
  (from a configured pair or a provider), and does not combine strict mutual attestation with an empty whitelist; otherwise it fails and
  nothing is opened. A listener it returns keeps this configuration, and a handshake on a connection it accepts never fails for
  want of certificate material.
\<close>

theorem listen_fails_fast:
  "case Listen netListen network addr cfgp log of (r, log') \<Rightarrow>
     (if Validate (cfgFor cfgp) = Inr () \<and>
         (cf_CertPEM (cfgFor cfgp) \<noteq> [] \<and> cf_KeyPEM (cfgFor cfgp) \<noteq> [] \<or> cf_EvidenceProvider (cfgFor cfgp) \<noteq> None) \<and>
         \<not> (mode (cfgFor cfgp) = ModeStrict \<and> cf_VerifyMutualAttestation (cfgFor cfgp) \<and>
             \<not> cf_InsecureSkipAttestationVerify (cfgFor cfgp) \<and> cf_ExpectedMeasurements (cfgFor cfgp) = [])
      then log' = log @ [(network, addr)] \<and>
        r = (case netListen network addr of Inl e \<Rightarrow> Inl (ErrWrap ''teetls: listen'' e)
                                          | Inr l \<Rightarrow> Inr \<lparr>ls_Listener = l, ls_cfg = cfgFor cfgp\<rparr>) \<and>
        (case r of Inl _ \<Rightarrow> True | Inr l \<Rightarrow> \<forall>raw. \<exists>c. Accept (Inr raw) l = Inr c \<and> cn_cfg c = Some (cfgFor cfgp)) \<and>
        fst (GetOrGenerateCertificateContext g rnd clk ctxp (cfgFor cfgp)) \<noteq>
          Inl (ErrNew ''teetls: requires either CertPEM/KeyPEM or EvidenceProvider'')
      else log' = log \<and> (\<exists>e. r = Inl e))"
proof -
  let ?cfg = "cfgFor cfgp"
  have pem: "cf_CertPEM ?cfg = [] \<longleftrightarrow> cf_KeyPEM ?cfg = []" if "Validate ?cfg = Inr ()"
    using that by (auto simp: Validate_def split: if_splits)
  show ?thesis
  proof (cases "Validate ?cfg")
    case (Inl e)
    then show ?thesis by (simp add: Listen_def Let_def bindIO_def wrapIO_def)
  next
    case (Inr u)
    then have v: "Validate ?cfg = Inr ()" by simp
    show ?thesis
      using pem[OF v] v missing_credentials[of ?cfg g rnd clk ctxp]
      by (cases "netListen network addr")
        (auto simp: Listen_def Let_def bindIO_def wrapIO_def Accept_def NewServerConn_def newConn_def)
  qed
qed

section \<open>Properties of dialling\<close>

lemma handshake_client_ok:
  assumes "handshake g env (Some ctx) (NewClientConn n cfgp) = (None, c)"
  shows "\<exists>res s. ClientHandshakeContext g env (Some ctx) \<lparr>hs_net = n, hs_cfg = cfgp\<rparr> = (Inr res, s) \<and>
    cn_peerCertPEM c = hr_PeerCertPEM res \<and> cn_peerEvidence c = cloneEvidence (hr_PeerEvidence res) \<and>
    cn_rawConn c = hs_net s \<and> cn_handshakeDone c \<and> cn_inCipher c = Some (hr_InCipher res) \<and> cn_outCipher c = Some (hr_OutCipher res) \<and>
    cn_readBuf c = []"
  using assms
  by (auto simp: handshake_def NewClientConn_def newConn_def Let_def split: prod.splits sum.splits)

lemma cloneEvidence_id [simp]: "cloneEvidence e = e"
  by (cases e) (simp_all add: cloneEvidence_def)

lemma setDeadline_frame [simp]:
  "rx (snd (setDeadline t n)) = rx n" "tx (snd (setDeadline t n)) = tx n" "wr (snd (setDeadline t n)) = wr n"
  "net_closed (snd (setDeadline t n)) = net_closed n" "dl_err (snd (setDeadline t n)) = dl_err n"
  by (simp_all add: setDeadline_def split: option.splits)

lemma DialContext_Inr:
  assumes "DialContext g dialer env ctx network addr cfgp = (Inr conn, rawp)"
  shows "\<exists>raw conn0. Validate (cfgFor cfgp) = Inr () \<and> dialer ctx (timeout (cfgFor cfgp)) network addr = Inr raw \<and>
    \<not> (mode (cfgFor cfgp) = ModeStrict \<and> \<not> cf_InsecureSkipAttestationVerify (cfgFor cfgp) \<and> cf_ExpectedMeasurements (cfgFor cfgp) = []) \<and>
    dialHandshake g env ctx (cfgFor cfgp) raw = (None, conn0) \<and>
    conn = conn0\<lparr>cn_rawConn := snd (setDeadline 0 (cn_rawConn conn0))\<rparr> \<and> rawp = Some (cn_rawConn conn)"
proof -
  obtain raw where raw: "Validate (cfgFor cfgp) = Inr ()" "dialer ctx (timeout (cfgFor cfgp)) network addr = Inr raw"
    "\<not> (mode (cfgFor cfgp) = ModeStrict \<and> \<not> cf_InsecureSkipAttestationVerify (cfgFor cfgp) \<and> cf_ExpectedMeasurements (cfgFor cfgp) = [])"
    using assms by (auto simp: DialContext_def Let_def split: sum.splits if_splits)
  obtain e conn0 where d: "dialHandshake g env ctx (cfgFor cfgp) raw = (e, conn0)" by fastforce
  show ?thesis using assms raw d by (cases e) (auto simp: DialContext_def Let_def split: if_splits)
qed

lemma dialHandshake_None:
  assumes "dialHandshake g env ctx cfg raw = (None, conn)"
  shows "\<exists>n c. handshake g (de_hs env) (Some ctx) (NewClientConn n (Some cfg)) = (None, c) \<and>
    n = (if dialDeadline (de_now env) ctx cfg \<noteq> 0 then snd (setDeadline (dialDeadline (de_now env) ctx cfg) raw) else raw) \<and>
    conn = (case de_cancel env of None \<Rightarrow> c | Some t \<Rightarrow> c\<lparr>cn_rawConn := snd (setDeadline t (cn_rawConn c))\<rparr>)"
  using assms by (auto simp: dialHandshake_def Let_def split: prod.splits)

lemma handshake_open: "handshake g env ctxp c = (r, c') \<Longrightarrow> cn_closed c' = cn_closed c"
  by (erule handshake_cases) (auto split: if_splits)

lemma dialHandshake_open:
  assumes "dialHandshake g env ctx cfg raw = (e, conn)"
  shows "\<not> cn_closed conn"
proof -
  let ?n = "if dialDeadline (de_now env) ctx cfg \<noteq> 0 then snd (setDeadline (dialDeadline (de_now env) ctx cfg) raw) else raw"
  obtain r c where h: "handshake g (de_hs env) (Some ctx) (NewClientConn ?n (Some cfg)) = (r, c)" by fastforce
  have "\<not> cn_closed c" using handshake_open[OF h] by (simp add: NewClientConn_def newConn_def)
  then show ?thesis using assms h by (auto simp: dialHandshake_def Let_def split: option.splits)
qed

lemma client_handshake_line:
  assumes "handshake g env ctxp c = (r, c')" "\<not> cn_isServer c"
  shows "lineState (cn_rawConn c') = lineState (cn_rawConn c)"
proof -
  let ?ctx = "Some (case ctxp of None \<Rightarrow> contextBackground | Some x \<Rightarrow> x)"
  obtain q s' where run: "ClientHandshakeContext g env ?ctx \<lparr>hs_net = cn_rawConn c, hs_cfg = cn_cfg c\<rparr> = (q, s')" by fastforce
  have "lineState (hs_net s') = lineState (cn_rawConn c)" using ClientHandshakeContext_line[OF run] by simp
  with assms run show ?thesis
    by (auto simp: handshake_def Let_def split: if_splits option.splits sum.splits)
qed

text \<open>The deadline and closing state of the transport after the calls of a dial that succeeds.\<close>

lemma dialHandshake_line:
  assumes "dialHandshake g env ctx cfg raw = (e, conn)"
  shows "dl_err (cn_rawConn conn) = dl_err raw" "net_closed (cn_rawConn conn) = net_closed raw"
    "dl_err raw = Some x \<Longrightarrow> deadline (cn_rawConn conn) = deadline raw \<and> wdeadline (cn_rawConn conn) = wdeadline raw"
proof -
  let ?n = "if dialDeadline (de_now env) ctx cfg \<noteq> 0 then snd (setDeadline (dialDeadline (de_now env) ctx cfg) raw) else raw"
  obtain r c where h: "handshake g (de_hs env) (Some ctx) (NewClientConn ?n (Some cfg)) = (r, c)" by fastforce
  have l: "lineState (cn_rawConn c) = lineState ?n"
    using client_handshake_line[OF h] by (simp add: NewClientConn_def newConn_def)
  have conn: "conn = (case de_cancel env of None \<Rightarrow> c | Some t \<Rightarrow> c\<lparr>cn_rawConn := snd (setDeadline t (cn_rawConn c))\<rparr>)"
    using assms h by (simp add: dialHandshake_def Let_def)
  show "dl_err (cn_rawConn conn) = dl_err raw" "net_closed (cn_rawConn conn) = net_closed raw"
    "dl_err raw = Some x \<Longrightarrow> deadline (cn_rawConn conn) = deadline raw \<and> wdeadline (cn_rawConn conn) = wdeadline raw"
    using l unfolding conn by (auto simp: lineState_def setDeadline_def split: option.splits if_splits)
qed

lemma dialed_attested:
  assumes "DialContext g dialer env ctx network addr cfgp = (Inr conn, rawp)" and "\<not> cf_InsecureSkipAttestationVerify (cfgFor cfgp)"
  shows "connInv conn \<and> cn_handshakeDone conn \<and>
    (\<exists>vcfg ev. normalizedVerifyConfig (Some (cfgFor cfgp)) = Inr vcfg \<and> Conn_PeerEvidence conn = Some ev \<and>
       peerAttested g (hx_fs (de_hs env)) (hx_verifyNow (de_hs env)) (Conn_PeerCertPEM conn) vcfg ev \<and>
       (mode (cfgFor cfgp) = ModeStrict \<longrightarrow>
          (\<exists>m \<in> set (cf_ExpectedMeasurements (cfgFor cfgp)). hexDecode m = Some (digestOf (ev_Report ev)))))"
proof -
  obtain raw conn0 where d: "dialHandshake g env ctx (cfgFor cfgp) raw = (None, conn0)"
    and conn: "conn = conn0\<lparr>cn_rawConn := snd (setDeadline 0 (cn_rawConn conn0))\<rparr>"
    using DialContext_Inr[OF assms(1)] by blast
  obtain n c where h: "handshake g (de_hs env) (Some ctx) (NewClientConn n (Some (cfgFor cfgp))) = (None, c)"
    and conn0: "conn0 = (case de_cancel env of None \<Rightarrow> c | Some t \<Rightarrow> c\<lparr>cn_rawConn := snd (setDeadline t (cn_rawConn c))\<rparr>)"
    using dialHandshake_None[OF d] by blast
  have inv: "connInv c" "cn_handshakeDone c"
    using handshake_inv[OF _ h] newConn_inv by (auto simp: NewClientConn_def)
  obtain res s where r: "ClientHandshakeContext g (de_hs env) (Some ctx) \<lparr>hs_net = n, hs_cfg = Some (cfgFor cfgp)\<rparr> = (Inr res, s)"
    "cn_peerCertPEM c = hr_PeerCertPEM res" "cn_peerEvidence c = hr_PeerEvidence res"
    using handshake_client_ok[OF h] by auto
  have cfg: "cfgOf \<lparr>hs_net = n, hs_cfg = Some (cfgFor cfgp)\<rparr> = cfgFor cfgp" by (simp add: cfgOf_def)
  obtain cx ch sh ee sig own where "clientView g (de_hs env) cx (cfgFor cfgp) res ch sh ee sig own"
    using ClientHandshakeContext_view[OF r(1)] unfolding cfg by blast
  note a = client_attested[OF this assms(2)]
  have same: "cn_peerCertPEM conn = cn_peerCertPEM c" "cn_peerEvidence conn = cn_peerEvidence c" "cn_handshakeDone conn" "connInv conn"
    using inv by (auto simp: conn conn0 connInv_def split: option.splits)
  with a r(2,3) show ?thesis by (simp add: Conn_PeerEvidence_def Conn_PeerCertPEM_def)
qed

text \<open>
  C28: what \<^verbatim>\<open>DialContext\<close> does to the transport. The handshake runs under a deadline that is the earlier of the context's and the
  configured timeout. When the call succeeds on a transport that accepts deadlines, no deadline is left on it, whether or not
  the context was cancelled in the meantime (one that refuses them keeps what it had); when the handshake fails, the transport is closed. No connection is attempted with an invalid
  configuration or in strict mode with an empty whitelist.
\<close>

theorem dial_transport:
  "case DialContext g dialer env ctx network addr cfgp of (r, rawp) \<Rightarrow>
     (case rawp of None \<Rightarrow> \<exists>e. r = Inl e
      | Some raw' \<Rightarrow> Validate (cfgFor cfgp) = Inr () \<and>
        \<not> (mode (cfgFor cfgp) = ModeStrict \<and> \<not> cf_InsecureSkipAttestationVerify (cfgFor cfgp) \<and> cf_ExpectedMeasurements (cfgFor cfgp) = []) \<and>
        (\<exists>raw. dialer ctx (timeout (cfgFor cfgp)) network addr = Inr raw \<and>
           (case r of Inl e \<Rightarrow> isPanic e \<or> net_closed raw'
            | Inr conn \<Rightarrow> raw' = cn_rawConn conn \<and> dl_err raw' = dl_err raw \<and> net_closed raw' = net_closed raw \<and>
                (deadline raw', wdeadline raw') = (if dl_err raw = None then (0, 0) else (deadline raw, wdeadline raw))))) \<and>
     dialDeadline (de_now env) ctx (cfgFor cfgp) =
       (case cx_deadline ctx of None \<Rightarrow> de_now env + timeout (cfgFor cfgp)
        | Some d \<Rightarrow> if d = 0 then de_now env + timeout (cfgFor cfgp) else min d (de_now env + timeout (cfgFor cfgp)))"
proof -
  have dl: "dialDeadline (de_now env) ctx (cfgFor cfgp) =
       (case cx_deadline ctx of None \<Rightarrow> de_now env + timeout (cfgFor cfgp)
        | Some d \<Rightarrow> if d = 0 then de_now env + timeout (cfgFor cfgp) else min d (de_now env + timeout (cfgFor cfgp)))"
    by (auto simp: dialDeadline_def Let_def split: option.splits)
  have close: "net_closed (cn_rawConn (snd (Conn_Close t c)))" if "\<not> cn_closed c" for t c
    using that by (auto simp: Conn_Close_def netClose_def Let_def split: prod.splits)
  show ?thesis
  proof (cases "\<exists>raw. Validate (cfgFor cfgp) = Inr () \<and> dialer ctx (timeout (cfgFor cfgp)) network addr = Inr raw \<and>
      \<not> (mode (cfgFor cfgp) = ModeStrict \<and> \<not> cf_InsecureSkipAttestationVerify (cfgFor cfgp) \<and> cf_ExpectedMeasurements (cfgFor cfgp) = [])")
    case False
    then show ?thesis using dl by (auto simp: DialContext_def Let_def split: sum.splits)
  next
    case True
    then obtain raw where raw: "Validate (cfgFor cfgp) = Inr ()" "dialer ctx (timeout (cfgFor cfgp)) network addr = Inr raw"
      "\<not> (mode (cfgFor cfgp) = ModeStrict \<and> \<not> cf_InsecureSkipAttestationVerify (cfgFor cfgp) \<and> cf_ExpectedMeasurements (cfgFor cfgp) = [])" by blast
    obtain e conn where d: "dialHandshake g env ctx (cfgFor cfgp) raw = (e, conn)" by fastforce
    have open_: "\<not> cn_closed conn" using dialHandshake_open[OF d] .
    show ?thesis
    proof (cases e)
      case None
      with raw d dl dialHandshake_line[OF d] show ?thesis
        by (auto simp: DialContext_def Let_def setDeadline_def split: option.splits)
    next
      case (Some x)
      with raw d dl close[OF open_] show ?thesis
        by (auto simp: DialContext_def Let_def split: option.splits)
    qed
  qed
qed

theorem listen_fails_fast_witness:
  "Listen (\<lambda>nw ad. Inr ()) ''tcp'' '':443'' (Some demoPeer) [] = (Inr \<lparr>ls_Listener = (), ls_cfg = demoPeer\<rparr>, [(''tcp'', '':443'')]) \<and>
   (\<exists>e. Listen (\<lambda>nw ad. Inr ()) ''tcp'' '':443'' None [] = (Inl e, []))"
  using listen_fails_fast[where netListen = "\<lambda>nw ad. Inr ()" and network = "''tcp''" and addr = "'':443''" and cfgp = "Some demoPeer" and log = "[]"]
    listen_fails_fast[where netListen = "\<lambda>nw ad. Inr ()" and network = "''tcp''" and addr = "'':443''" and cfgp = None and log = "[]"]
    demoPeer_valid
  by (auto simp: demoPeer_simps zeroConfig_def split: prod.splits if_splits)

end
