(* ===== verification/Session.thy ===== *)
theory Session
  imports Transport
begin

text \<open>
  A whole session: dialling, accepting, both handshakes and the exchange of data, composed from the parts.
\<close>

section \<open>From dialling to data\<close>

lemma newConn_simps [simp]:
  "cn_rawConn (newConn b n cfg) = n" "cn_cfg (newConn b n cfg) = cfg" "cn_isServer (newConn b n cfg) = b"
  "\<not> cn_handshakeDone (newConn b n cfg)" "cn_handshakeErr (newConn b n cfg) = None" "cn_readBuf (newConn b n cfg) = []"
  by (simp_all add: newConn_def)

lemma handshake_of_client:
  assumes "ClientHandshakeContext g env (Some ctx) \<lparr>hs_net = n, hs_cfg = cfgp\<rparr> = (Inr res, s)"
  shows "\<exists>c. handshake g env (Some ctx) (NewClientConn n cfgp) = (None, c) \<and> cn_rawConn c = hs_net s \<and> cn_handshakeDone c \<and>
    cn_inCipher c = Some (hr_InCipher res) \<and> cn_outCipher c = Some (hr_OutCipher res) \<and> cn_readBuf c = [] \<and>
    Conn_PeerEvidence c = hr_PeerEvidence res"
  using assms by (simp add: handshake_def NewClientConn_def Conn_PeerEvidence_def Let_def)

lemma handshake_of_server:
  assumes "ServerHandshakeContext g env (Some ctx) \<lparr>hs_net = n, hs_cfg = cfgp\<rparr> = (Inr res, s)"
  shows "\<exists>c. handshake g env (Some ctx) (NewServerConn n cfgp) = (None, c) \<and> cn_rawConn c = hs_net s \<and> cn_handshakeDone c \<and>
    cn_inCipher c = Some (hr_InCipher res) \<and> cn_outCipher c = Some (hr_OutCipher res) \<and> cn_readBuf c = [] \<and>
    Conn_PeerEvidence c = hr_PeerEvidence res"
  using assms by (simp add: handshake_def NewServerConn_def Conn_PeerEvidence_def Let_def)

lemma setDeadline_rx: "snd (setDeadline t (n\<lparr>rx := r\<rparr>)) = (snd (setDeadline t n))\<lparr>rx := r\<rparr>"
  by (simp add: setDeadline_def split: option.splits)

text \<open>A dial on a transport whose peer completes the handshake.\<close>

lemma DialContext_completes:
  fixes craw :: net
  defines "raw1 cfg env ctx \<equiv> if dialDeadline (de_now env) ctx cfg \<noteq> 0 then snd (setDeadline (dialDeadline (de_now env) ctx cfg) craw) else craw"
  assumes hs: "ClientHandshakeContext g (de_hs env) (Some ctx) \<lparr>hs_net = (raw1 cfg env ctx)\<lparr>rx := s2c\<rparr>, hs_cfg = Some cfg\<rparr> = (Inr res, s)"
    and cfg: "Validate cfg = Inr ()" "\<not> (mode cfg = ModeStrict \<and> \<not> cf_InsecureSkipAttestationVerify cfg \<and> cf_ExpectedMeasurements cfg = [])"
  shows "\<exists>conn. DialContext g (\<lambda>cx t nw ad. Inr (craw\<lparr>rx := s2c\<rparr>)) env ctx network addr (Some cfg) = (Inr conn, Some (cn_rawConn conn)) \<and>
    tx (cn_rawConn conn) = tx (hs_net s) \<and> rx (cn_rawConn conn) = rx (hs_net s) \<and> wr (cn_rawConn conn) = wr (hs_net s) \<and>
    cn_handshakeDone conn \<and> cn_inCipher conn = Some (hr_InCipher res) \<and> cn_outCipher conn = Some (hr_OutCipher res) \<and>
    cn_readBuf conn = [] \<and> Conn_PeerEvidence conn = hr_PeerEvidence res"
proof -
  let ?n = "(raw1 cfg env ctx)\<lparr>rx := s2c\<rparr>"
  obtain c where c: "handshake g (de_hs env) (Some ctx) (NewClientConn ?n (Some cfg)) = (None, c)" "cn_rawConn c = hs_net s"
    "cn_handshakeDone c" "cn_inCipher c = Some (hr_InCipher res)" "cn_outCipher c = Some (hr_OutCipher res)" "cn_readBuf c = []"
    "Conn_PeerEvidence c = hr_PeerEvidence res"
    using handshake_of_client[OF hs] by blast
  have n: "?n = (if dialDeadline (de_now env) ctx cfg \<noteq> 0 then snd (setDeadline (dialDeadline (de_now env) ctx cfg) (craw\<lparr>rx := s2c\<rparr>)) else craw\<lparr>rx := s2c\<rparr>)"
    by (simp add: raw1_def setDeadline_rx)
  let ?c1 = "case de_cancel env of None \<Rightarrow> c | Some t \<Rightarrow> c\<lparr>cn_rawConn := snd (setDeadline t (cn_rawConn c))\<rparr>"
  let ?c2 = "?c1\<lparr>cn_rawConn := snd (setDeadline 0 (cn_rawConn ?c1))\<rparr>"
  have "dialHandshake g env ctx cfg (craw\<lparr>rx := s2c\<rparr>) = (None, ?c1)"
    using c(1) unfolding n dialHandshake_def Let_def by simp
  then have "DialContext g (\<lambda>cx t nw ad. Inr (craw\<lparr>rx := s2c\<rparr>)) env ctx network addr (Some cfg) = (Inr ?c2, Some (cn_rawConn ?c2))"
    using cfg by (simp add: DialContext_def Let_def)
  then show ?thesis using c(2-7)
    by (intro exI[of _ ?c2]) (auto simp: Conn_PeerEvidence_def split: option.splits)
qed

text \<open>Data sent on one connection and read on the other, with whatever draws the calls meet.\<close>

definition carries :: "gmsm \<Rightarrow> Conn \<Rightarrow> Conn \<Rightarrow> bytes \<Rightarrow> bool" where
  "carries g a b data \<longleftrightarrow> (\<forall>env env'. \<exists>wire a' b'. Conn_Write g env data a = ((length data, None), a') \<and>
     tx (cn_rawConn a') = tx (cn_rawConn a) @ wire \<and>
     ioReadFull (Conn_Read g env') (length data) (arriving b wire) = Some ((data, None), b'))"

lemma paired_carries:
  assumes "paired rc a b" "rc_seq rc = 0" "length data < 2 ^ 64"
  shows "carries g a b data"
  unfolding carries_def using stream_delivers[OF assms(1), where g = g and g' = g and rest = "[]"] assms(2,3) by fastforce

lemma session_completes:
  assumes "suiteDocumented g" and "sm2_GenerateKey g (hx_key (de_hs denv)) = Inr ck" "sm2_GenerateKey g (hx_key senv) = Inr sk"
    and "hx_rand (de_hs denv) 32 = Inr cr" "hx_rand senv 32 = Inr sr"
    and "Validate ccfg = Inr ()" "Validate (ls_cfg l) = Inr ()"
    and "\<not> (mode ccfg = ModeStrict \<and> \<not> cf_InsecureSkipAttestationVerify ccfg \<and> cf_ExpectedMeasurements ccfg = [])"
    and "wr craw = []" "wr sraw = []" "dl_err sraw = None"
    and "recognised g senv (Some contextBackground) (ls_cfg l) (de_hs denv) ccfg spem sev sc"
    and "cf_VerifyMutualAttestation (ls_cfg l) \<or> cf_VerifyMutualAttestation ccfg \<Longrightarrow>
      recognised g (de_hs denv) (Some ctx) ccfg senv (ls_cfg l) cpem cev cc"
  shows "\<exists>s2c c2s conn sconn0 sconn.
    DialContext g (\<lambda>cx t nw ad. Inr (craw\<lparr>rx := s2c\<rparr>)) denv ctx network addr (Some ccfg) = (Inr conn, Some (cn_rawConn conn)) \<and>
    Accept (Inr (sraw\<lparr>rx := c2s\<rparr>)) l = Inr sconn0 \<and> Conn_Handshake g senv sconn0 = (None, sconn) \<and>
    tx (cn_rawConn conn) = tx craw @ c2s \<and> tx (cn_rawConn sconn) = tx sraw @ s2c \<and> Conn_PeerEvidence conn = sev \<and>
    (\<forall>data. length data < 2 ^ 64 \<longrightarrow> carries g conn sconn data \<and> carries g sconn conn data)"
proof -
  let ?dl = "dialDeadline (de_now denv) ctx ccfg"
  let ?raw1 = "if ?dl \<noteq> 0 then snd (setDeadline ?dl craw) else craw"
  let ?cs = "\<lparr>hs_net = ?raw1, hs_cfg = Some ccfg\<rparr>" and ?ss = "\<lparr>hs_net = sraw, hs_cfg = Some (ls_cfg l)\<rparr>"
  have cs: "cfgOf ?cs = ccfg" "cfgOf ?ss = ls_cfg l" "wr (hs_net ?cs) = []" "tx (hs_net ?cs) = tx craw"
    "wr (hs_net ?ss) = []" "dl_err (hs_net ?ss) = None"
    using assms(9-11) by (simp_all add: cfgOf_def)
  have "\<exists>cres sres. completes g (de_hs denv) (Some ctx) ?cs senv (Some contextBackground) ?ss cres sres \<and>
    hr_InCipher cres = hr_OutCipher sres \<and> hr_OutCipher cres = hr_InCipher sres \<and>
    rcInv (hr_InCipher cres) \<and> rcInv (hr_OutCipher cres) \<and> rc_seq (hr_InCipher cres) = 0 \<and> rc_seq (hr_OutCipher cres) = 0 \<and>
    hr_PeerEvidence cres = sev"
    using handshake_completes[OF assms(1-5), where cs = ?cs and ss = ?ss and cctx = "Some ctx" and sctx = "Some contextBackground" and
        spem = spem and sev = sev and sc = sc and cpem = cpem and cev = cev and cc = cc, unfolded cs(1,2), OF assms(6,7) cs(3,5,6) assms(12,13)]
    by blast
  then obtain cres sres where run: "completes g (de_hs denv) (Some ctx) ?cs senv (Some contextBackground) ?ss cres sres"
    and match: "hr_InCipher cres = hr_OutCipher sres" "hr_OutCipher cres = hr_InCipher sres"
    and ciph: "rcInv (hr_InCipher cres)" "rcInv (hr_OutCipher cres)" "rc_seq (hr_InCipher cres) = 0" "rc_seq (hr_OutCipher cres) = 0"
    and ev: "hr_PeerEvidence cres = sev" by blast
  obtain c2s s2c cs' ss' where h: "ClientHandshakeContext g (de_hs denv) (Some ctx) (?cs\<lparr>hs_net := (hs_net ?cs)\<lparr>rx := s2c\<rparr>\<rparr>) = (Inr cres, cs')"
    "ServerHandshakeContext g senv (Some contextBackground) (?ss\<lparr>hs_net := (hs_net ?ss)\<lparr>rx := c2s\<rparr>\<rparr>) = (Inr sres, ss')"
    "tx (hs_net cs') = tx craw @ c2s" "tx (hs_net ss') = tx sraw @ s2c" "wr (hs_net cs') = []" "wr (hs_net ss') = []"
    using run cs(4) unfolding completes_def by auto
  obtain conn where c: "DialContext g (\<lambda>cx t nw ad. Inr (craw\<lparr>rx := s2c\<rparr>)) denv ctx network addr (Some ccfg) = (Inr conn, Some (cn_rawConn conn))"
    "tx (cn_rawConn conn) = tx (hs_net cs')" "wr (cn_rawConn conn) = wr (hs_net cs')" "cn_handshakeDone conn"
    "cn_inCipher conn = Some (hr_InCipher cres)" "cn_outCipher conn = Some (hr_OutCipher cres)" "cn_readBuf conn = []"
    "Conn_PeerEvidence conn = hr_PeerEvidence cres"
    using DialContext_completes[OF _ assms(6,8), where craw = craw and env = denv and s2c = s2c and res = cres and s = cs' and ctx = ctx and g = g
        and network = network and addr = addr] h(1) by auto
  obtain sconn where s: "handshake g senv (Some contextBackground) (NewServerConn (sraw\<lparr>rx := c2s\<rparr>) (Some (ls_cfg l))) = (None, sconn)"
    "cn_rawConn sconn = hs_net ss'" "cn_handshakeDone sconn" "cn_inCipher sconn = Some (hr_InCipher sres)"
    "cn_outCipher sconn = Some (hr_OutCipher sres)" "cn_readBuf sconn = []"
    using handshake_of_server h(2) by fastforce
  have "paired (hr_OutCipher cres) conn sconn" "paired (hr_InCipher cres) sconn conn"
    using c s h(5,6) match ciph by (simp_all add: paired_def)
  then have "\<forall>data. length data < 2 ^ 64 \<longrightarrow> carries g conn sconn data \<and> carries g sconn conn data"
    using paired_carries ciph(3,4) by blast
  then show ?thesis using c s(1,2) h(3,4) ev
    by (intro exI[of _ s2c] exI[of _ c2s] exI[of _ conn] exI[of _ "NewServerConn (sraw\<lparr>rx := c2s\<rparr>) (Some (ls_cfg l))"] exI[of _ sconn])
      (simp add: Accept_def Conn_Handshake_def)
qed

text \<open>
  C1: a session from dialling to data. Take a dialler and a listener with valid configurations, transports that accept writes and, on
  the server, deadlines, and certificates that each side recognises as it has to. Then \<^verbatim>\<open>DialContext\<close> on one side and \<^verbatim>\<open>Accept\<close> with the
  handshake on the other, each reading what the other wrote, return connections; the client's connection reports the server's evidence,
  and in both directions all data written on one connection is read on the other, unchanged and in full.
\<close>

theorem dial_accept_session:
  assumes "suiteDocumented g" and "sm2_GenerateKey g (hx_key (de_hs denv)) = Inr ck" "sm2_GenerateKey g (hx_key senv) = Inr sk"
    and "hx_rand (de_hs denv) 32 = Inr cr" "hx_rand senv 32 = Inr sr"
    and "Validate ccfg = Inr ()" "Validate (ls_cfg l) = Inr ()"
    and "\<not> (mode ccfg = ModeStrict \<and> \<not> cf_InsecureSkipAttestationVerify ccfg \<and> cf_ExpectedMeasurements ccfg = [])"
    and "wr craw = []" "wr sraw = []" "dl_err sraw = None"
    and "recognised g senv (Some contextBackground) (ls_cfg l) (de_hs denv) ccfg spem sev sc"
    and "cf_VerifyMutualAttestation (ls_cfg l) \<or> cf_VerifyMutualAttestation ccfg \<Longrightarrow>
      recognised g (de_hs denv) (Some ctx) ccfg senv (ls_cfg l) cpem cev cc"
  shows "\<exists>s2c c2s conn sconn0 sconn.
    DialContext g (\<lambda>cx t nw ad. Inr (craw\<lparr>rx := s2c\<rparr>)) denv ctx network addr (Some ccfg) = (Inr conn, Some (cn_rawConn conn)) \<and>
    Accept (Inr (sraw\<lparr>rx := c2s\<rparr>)) l = Inr sconn0 \<and> Conn_Handshake g senv sconn0 = (None, sconn) \<and>
    tx (cn_rawConn conn) = tx craw @ c2s \<and> tx (cn_rawConn sconn) = tx sraw @ s2c \<and> Conn_PeerEvidence conn = sev \<and>
    (\<forall>data. length data < 2 ^ 64 \<longrightarrow> carries g conn sconn data \<and> carries g sconn conn data)"
  using assms by (rule session_completes)

text \<open>
  C11: a dialled connection has an attested peer. If \<^verbatim>\<open>DialContext\<close> returns a connection and the configuration does not skip
  attestation, the handshake is done, and the certificate and evidence the connection reports are those of a peer that
  satisfies the attestation policy: a valid certificate, a report signed by a PEK that chains to a locally configured HRK, the report bound to the
  certificate's key and, in strict mode, a measurement from the whitelist, which is not empty.
\<close>

theorem dialed_peer_attested:
  assumes "DialContext g dialer env ctx network addr cfgp = (Inr conn, rawp)" and "\<not> cf_InsecureSkipAttestationVerify (cfgFor cfgp)"
  shows "connInv conn \<and> cn_handshakeDone conn \<and>
    (\<exists>vcfg ev. normalizedVerifyConfig (Some (cfgFor cfgp)) = Inr vcfg \<and> Conn_PeerEvidence conn = Some ev \<and>
       peerAttested g (hx_fs (de_hs env)) (hx_verifyNow (de_hs env)) (Conn_PeerCertPEM conn) vcfg ev \<and>
       (mode (cfgFor cfgp) = ModeStrict \<longrightarrow>
          (\<exists>m \<in> set (cf_ExpectedMeasurements (cfgFor cfgp)). hexDecode m = Some (digestOf (ev_Report ev)))))"
  using assms by (rule dialed_attested)

section \<open>A concrete session\<close>

definition demoDial :: dialEnv where
  "demoDial = \<lparr>de_hs = demoSide 3, de_now = demoNow, de_cancel = Some (demoNow + 1), de_ctxErr = None, de_close = demoNow\<rparr>"

definition demoListener :: "unit listener" where
  "demoListener = \<lparr>ls_Listener = (), ls_cfg = demoPeer\<rparr>"

lemma demo_recognised_background:
  "\<exists>pem ev c. recognised demoPki (demoSide k) (Some contextBackground) demoPeer (demoSide k') demoPeer pem (Some ev) c"
  using demo_recognised[of k k'] by (simp add: recognised_def)

lemma demo_session_premises:
  "\<exists>ck sk cr sr spem sev sc cpem cev cc. sm2_GenerateKey demoPki (hx_key (de_hs demoDial)) = Inr ck \<and>
     sm2_GenerateKey demoPki (hx_key (demoSide 5)) = Inr sk \<and> hx_rand (de_hs demoDial) 32 = Inr cr \<and> hx_rand (demoSide 5) 32 = Inr sr \<and>
     recognised demoPki (demoSide 5) (Some contextBackground) (ls_cfg demoListener) (de_hs demoDial) demoPeer spem (Some sev) sc \<and>
     recognised demoPki (de_hs demoDial) (Some contextBackground) demoPeer (demoSide 5) (ls_cfg demoListener) cpem (Some cev) cc"
  using demo_draws[of 3] demo_draws[of 5] demo_recognised_background[of 5 3] demo_recognised_background[of 3 5]
  by (simp add: demoDial_def demoListener_def)

theorem dial_accept_session_witness:
  "\<exists>s2c c2s conn sconn0 sconn.
     DialContext demoPki (\<lambda>cx t nw ad. Inr (quietNet\<lparr>rx := s2c\<rparr>)) demoDial contextBackground ''tcp'' ''host:443'' (Some demoPeer) =
       (Inr conn, Some (cn_rawConn conn)) \<and>
     Accept (Inr (quietNet\<lparr>rx := c2s\<rparr>)) demoListener = Inr sconn0 \<and> Conn_Handshake demoPki (demoSide 5) sconn0 = (None, sconn) \<and>
     carries demoPki conn sconn [1, 2, 3] \<and> carries demoPki sconn conn (replicate 7 9)"
proof -
  obtain ck sk cr sr spem sev sc cpem cev cc where
    p: "sm2_GenerateKey demoPki (hx_key (de_hs demoDial)) = Inr ck" "sm2_GenerateKey demoPki (hx_key (demoSide 5)) = Inr sk"
      "hx_rand (de_hs demoDial) 32 = Inr cr" "hx_rand (demoSide 5) 32 = Inr sr"
    and r: "recognised demoPki (demoSide 5) (Some contextBackground) (ls_cfg demoListener) (de_hs demoDial) demoPeer spem (Some sev) sc"
      "recognised demoPki (de_hs demoDial) (Some contextBackground) demoPeer (demoSide 5) (ls_cfg demoListener) cpem (Some cev) cc"
    using demo_session_premises by blast
  have l: "Validate (ls_cfg demoListener) = Inr ()" "\<not> (mode demoPeer = ModeStrict \<and> \<not> cf_InsecureSkipAttestationVerify demoPeer \<and> cf_ExpectedMeasurements demoPeer = [])"
    using demoPeer_valid by (simp_all add: demoListener_def)
  from dial_accept_session[OF demoPki_suite p demoPeer_valid l quietNet_simps(1,1,2) r, of "''tcp''" "''host:443''"]
  show ?thesis by fastforce
qed

lemma demo_session:
  "\<exists>s2c c2s conn sconn0 sconn.
     DialContext demoPki (\<lambda>cx t nw ad. Inr (quietNet\<lparr>rx := s2c\<rparr>)) demoDial contextBackground ''tcp'' ''host:443'' (Some demoPeer) =
       (Inr conn, Some (cn_rawConn conn)) \<and>
     Accept (Inr (quietNet\<lparr>rx := c2s\<rparr>)) demoListener = Inr sconn0 \<and> Conn_Handshake demoPki (demoSide 5) sconn0 = (None, sconn)"
proof -
  obtain ck sk cr sr spem sev sc cpem cev cc where
    p: "sm2_GenerateKey demoPki (hx_key (de_hs demoDial)) = Inr ck" "sm2_GenerateKey demoPki (hx_key (demoSide 5)) = Inr sk"
      "hx_rand (de_hs demoDial) 32 = Inr cr" "hx_rand (demoSide 5) 32 = Inr sr"
    and r: "recognised demoPki (demoSide 5) (Some contextBackground) (ls_cfg demoListener) (de_hs demoDial) demoPeer spem (Some sev) sc"
      "recognised demoPki (de_hs demoDial) (Some contextBackground) demoPeer (demoSide 5) (ls_cfg demoListener) cpem (Some cev) cc"
    using demo_session_premises by blast
  have l: "Validate (ls_cfg demoListener) = Inr ()" "\<not> (mode demoPeer = ModeStrict \<and> \<not> cf_InsecureSkipAttestationVerify demoPeer \<and> cf_ExpectedMeasurements demoPeer = [])"
    using demoPeer_valid by (simp_all add: demoListener_def)
  show ?thesis
    using session_completes[OF demoPki_suite p demoPeer_valid l quietNet_simps(1,1,2) r, of "''tcp''" "''host:443''"] by blast
qed

theorem dialed_peer_attested_witness:
  "\<exists>s2c conn vcfg ev.
     DialContext demoPki (\<lambda>cx t nw ad. Inr (quietNet\<lparr>rx := s2c\<rparr>)) demoDial contextBackground ''tcp'' ''host:443'' (Some demoPeer) =
       (Inr conn, Some (cn_rawConn conn)) \<and>
     Conn_PeerEvidence conn = Some ev \<and> peerAttested demoPki noFiles demoNow (Conn_PeerCertPEM conn) vcfg ev"
proof -
  obtain s2c conn where d: "DialContext demoPki (\<lambda>cx t nw ad. Inr (quietNet\<lparr>rx := s2c\<rparr>)) demoDial contextBackground ''tcp'' ''host:443'' (Some demoPeer) =
       (Inr conn, Some (cn_rawConn conn))"
    using demo_session by blast
  have side: "hx_fs (de_hs demoDial) = noFiles" "hx_verifyNow (de_hs demoDial) = demoNow" by (simp_all add: demoDial_def demoSide_def)
  from dialed_peer_attested[OF d] d show ?thesis unfolding side by (auto simp: demoPeer_simps)
qed

end
