(* ===== verification/Server.thy ===== *)
theory Server
  imports Session
begin

text \<open>
  A server over its lifetime: a listener, the connections it has accepted and the one configuration they share. Every method call on any
  of the connections, and every arrival of bytes, is a step. The configuration is a pointer in the source: a handshake on one connection
  may fill the certificate cache that the next one uses. The lemmas show that nothing but the cache ever changes, and that
  in every reachable state each established connection has a client that satisfies the policy the listener was opened with.
\<close>

section \<open>What no call changes of a configuration\<close>

definition policy :: "Config \<Rightarrow> Config" where
  "policy c = c\<lparr>cf_cachedCertPEM := [], cf_cachedKeyPEM := [], cf_cachedAt := 0, cf_cachedNotAfter := 0\<rparr>"

definition policyOf :: "hsState \<Rightarrow> Config option" where
  "policyOf s = map_option policy (hs_cfg s)"

lemma policy_fields:
  assumes "policy c = policy c'"
  shows "cf_VerifyMutualAttestation c = cf_VerifyMutualAttestation c'" "mode c = mode c'"
    "cf_InsecureSkipAttestationVerify c = cf_InsecureSkipAttestationVerify c'" "cf_ExpectedMeasurements c = cf_ExpectedMeasurements c'"
  using assms by (cases c; cases c'; simp add: policy_def mode_def)+

lemma GetOrGenerate_policy:
  "GetOrGenerateCertificateContext g rnd clk ctxp c = (r, c') \<Longrightarrow> policy c' = policy c"
  by (auto simp: GetOrGenerateCertificateContext_def policy_def Let_def wrapRes_def split: if_splits sum.splits prod.splits)

lemma keeps_onNet_policy: "keeps policyOf (onNet act)"
  by (rule keepsI) (auto simp: onNet_def policyOf_def split: prod.splits)

lemma keeps_prepareCertificate_policy: "keeps policyOf (prepareCertificate g env ctx)"
proof -
  have "keeps policyOf (onCfg (GetOrGenerateCertificateContext g (hx_entropy env) (hx_clk env) (Some ctx)))"
    by (rule keepsI) (auto simp: onCfg_def policyOf_def cfgOf_def dest: GetOrGenerate_policy split: prod.splits option.splits)
  then show ?thesis unfolding prepareCertificate_def by (intro frame_rules)
qed

lemmas policy_rules = frame_rules keeps_onNet_policy keeps_prepareCertificate_policy

lemma keeps_steps_policy:
  "keeps policyOf (ephemeralKey g env l)" "keeps policyOf (helloRandom env l)" "keeps policyOf (expectMsg t l e se)"
  "keeps policyOf (sendMsg t l body se)"
  unfolding ephemeralKey_def helloRandom_def expectMsg_def sendMsg_def by (intro policy_rules)+

lemma keeps_parts_policy:
  "keeps policyOf (readPeerCertificate g env cfg pl se)" "keeps policyOf (sendCertificate g env l1 l2 l3 pem priv se)"
  "keeps policyOf (readFinished g key l e1 e2 se)" "keeps policyOf (sendFinished g key l se)"
  "keeps policyOf (clientResult g pem ev c se)" "keeps policyOf (serverResult g pem ev c' se)"
  unfolding readPeerCertificate_def sendCertificate_def readFinished_def sendFinished_def clientResult_def serverResult_def Let_def
  by (intro policy_rules keeps_steps_policy)+

lemma ClientHandshakeContext_policy:
  assumes "ClientHandshakeContext g env ctxp s = (r, s')"
  shows "policyOf s' = policyOf s"
  using assms unfolding ClientHandshakeContext_def clientSendHello_def clientReadHello_def clientReadExtensions_def clientSendCertificate_def Let_def
  by (rule keepsD[rotated]) (intro policy_rules keeps_steps_policy keeps_parts_policy)

lemma serverExchange_policy: "keeps policyOf (serverExchange g env ctx cfg)"
  unfolding serverExchange_def serverReadHello_def serverSendHello_def serverSendFlight_def serverReadCertificate_def Let_def
  by (intro policy_rules keeps_steps_policy keeps_parts_policy)

lemma ServerHandshakeContext_policy:
  assumes "ServerHandshakeContext g env ctxp s = (r, s')"
  shows "policyOf s' = policyOf s"
proof -
  let ?ctx = "case ctxp of None \<Rightarrow> contextBackground | Some c \<Rightarrow> c"
  have x: "keeps policyOf (\<lambda>s1. case serverExchange g env ?ctx (cfgOf s) s1 of (r, s2) \<Rightarrow> (r, snd (onNet (setDeadline 0) s2)))"
    by (rule keepsI) (auto dest: keepsD[OF serverExchange_policy] simp: onNet_def policyOf_def split: prod.splits)
  let ?act = "bindIO (wrapIO ''teetls: invalid server config'' (liftRes (Validate (cfgOf s)))) (\<lambda>_.
     bindIO (wrapIO ''teetls: set handshake deadline'' (onNet (setDeadline (hx_now env + timeout (cfgOf s))))) (\<lambda>_ s1.
       case serverExchange g env ?ctx (cfgOf s) s1 of (r, s2) \<Rightarrow> (r, snd (onNet (setDeadline 0) s2))))"
  have "keeps policyOf ?act" by (intro policy_rules x)
  from keepsD[where act = ?act, OF this, of s] assms show ?thesis by (simp add: ServerHandshakeContext_def Let_def)
qed

section \<open>What the calls on a connection change\<close>

lemma handshake_policy:
  assumes "handshake g env ctxp c = (r, c')"
  shows "map_option policy (cn_cfg c') = map_option policy (cn_cfg c)" "cn_isServer c' = cn_isServer c"
proof -
  let ?s = "\<lparr>hs_net = cn_rawConn c, hs_cfg = cn_cfg c\<rparr>"
  let ?ctx = "Some (case ctxp of None \<Rightarrow> contextBackground | Some x \<Rightarrow> x)"
  obtain q s' where run: "(if cn_isServer c then ServerHandshakeContext g env ?ctx ?s else ClientHandshakeContext g env ?ctx ?s) = (q, s')" by fastforce
  then have "policyOf s' = policyOf ?s"
    using ServerHandshakeContext_policy[of g env ?ctx ?s] ClientHandshakeContext_policy[of g env ?ctx ?s] by (simp split: if_splits)
  then have "map_option policy (hs_cfg s') = map_option policy (cn_cfg c)" by (simp add: policyOf_def)
  then show "map_option policy (cn_cfg c') = map_option policy (cn_cfg c)" "cn_isServer c' = cn_isServer c"
    using assms run by (auto simp: handshake_def Let_def split: if_splits option.splits sum.splits)
qed

section \<open>A server\<close>

record server =
  sv_cfg :: Config
  sv_conns :: "Conn list"

text \<open>
  A connection refers to the shared configuration: a call sees the configuration as it is now, and what the call makes of it is what
  the next call sees.
\<close>

inductive serverStep :: "gmsm \<Rightarrow> server \<Rightarrow> server \<Rightarrow> bool" for g where
  sv_accept: "Accept (Inr raw) \<lparr>ls_Listener = (), ls_cfg = sv_cfg s\<rparr> = Inr c \<Longrightarrow>
    serverStep g s (s\<lparr>sv_conns := sv_conns s @ [c]\<rparr>)"
| sv_call: "i < length (sv_conns s) \<Longrightarrow> connStep g ((sv_conns s ! i)\<lparr>cn_cfg := Some (sv_cfg s)\<rparr>) c \<Longrightarrow> cn_cfg c = Some cfg \<Longrightarrow>
    serverStep g s (s\<lparr>sv_cfg := cfg, sv_conns := (sv_conns s)[i := c]\<rparr>)"

abbreviation serverReach :: "gmsm \<Rightarrow> server \<Rightarrow> server \<Rightarrow> bool" where
  "serverReach g \<equiv> reach (serverStep g)"

lemmas serverReach_start = reach.start[of "serverStep g" for g] and serverReach_step = reach.next_step[of "serverStep g" for g]

text \<open>An established connection whose client has passed the checks of a configuration with the policy of \<open>cfg\<close>.\<close>

definition clientAttested :: "gmsm \<Rightarrow> Config \<Rightarrow> Conn \<Rightarrow> bool" where
  "clientAttested g cfg c \<longleftrightarrow>
     (\<exists>fs now cfg' vcfg ev. policy cfg' = policy cfg \<and> normalizedVerifyConfig (Some cfg') = Inr vcfg \<and> Conn_PeerEvidence c = Some ev \<and>
        peerAttested g fs now (Conn_PeerCertPEM c) vcfg ev \<and>
        (mode cfg = ModeStrict \<longrightarrow> (\<exists>m \<in> set (cf_ExpectedMeasurements cfg). hexDecode m = Some (digestOf (ev_Report ev)))))"

definition serverInv :: "gmsm \<Rightarrow> Config \<Rightarrow> server \<Rightarrow> bool" where
  "serverInv g cfg s \<longleftrightarrow> policy (sv_cfg s) = policy cfg \<and>
     (\<forall>c \<in> set (sv_conns s). connInv c \<and> cn_isServer c \<and> (cn_handshakeDone c \<longrightarrow> clientAttested g cfg c))"

lemma clientAttested_identity: "identity c' = identity c \<Longrightarrow> clientAttested g cfg c' = clientAttested g cfg c"
  by (simp add: clientAttested_def identity_def Conn_PeerEvidence_def Conn_PeerCertPEM_def)

lemma server_handshake_attested:
  assumes h: "handshake g env ctxp c = (r, c')" and "cn_isServer c" "\<not> cn_handshakeDone c" "cn_handshakeDone c'"
    and cfg: "cn_cfg c = Some cfg'" "policy cfg' = policy cfg" and pol: "cf_VerifyMutualAttestation cfg" "\<not> cf_InsecureSkipAttestationVerify cfg"
  shows "clientAttested g cfg c'"
proof -
  let ?s = "\<lparr>hs_net = cn_rawConn c, hs_cfg = cn_cfg c\<rparr>"
  let ?x = "case ctxp of None \<Rightarrow> contextBackground | Some x \<Rightarrow> x"
  obtain res s' where run: "ServerHandshakeContext g env (Some ?x) ?s = (Inr res, s')"
    and c': "cn_peerCertPEM c' = hr_PeerCertPEM res" "cn_peerEvidence c' = hr_PeerEvidence res"
    using h assms(2-4) by (auto simp: handshake_def Let_def split: option.splits prod.splits sum.splits if_splits)
  have s: "cfgOf ?s = cfg'" by (simp add: cfgOf_def cfg(1))
  note pf = policy_fields[OF cfg(2)]
  obtain ch mutual sh cert sig peer where v: "serverView g env ?x cfg' res ch mutual sh cert sig peer"
    using ServerHandshakeContext_view[OF run] unfolding s by auto
  then have mutual using pol pf by (auto simp: serverView_def)
  from server_attested[OF v this] pol pf obtain vcfg ev where "normalizedVerifyConfig (Some cfg') = Inr vcfg" "hr_PeerEvidence res = Some ev"
    "peerAttested g (hx_fs env) (hx_verifyNow env) (hr_PeerCertPEM res) vcfg ev"
    "mode cfg = ModeStrict \<longrightarrow> (\<exists>m \<in> set (cf_ExpectedMeasurements cfg). hexDecode m = Some (digestOf (ev_Report ev)))" by auto
  then show ?thesis unfolding clientAttested_def Conn_PeerEvidence_def Conn_PeerCertPEM_def c' cloneEvidence_id append_Nil
    using cfg(2) by blast
qed

lemma connStep_attested:
  assumes step: "connStep g c c'" and inv: "connInv c" "cn_isServer c" "cn_handshakeDone c \<longrightarrow> clientAttested g cfg c"
    and cfg: "cn_cfg c = Some cfg'" "policy cfg' = policy cfg" and pol: "cf_VerifyMutualAttestation cfg" "\<not> cf_InsecureSkipAttestationVerify cfg"
  shows "connInv c' \<and> cn_isServer c' \<and> (cn_handshakeDone c' \<longrightarrow> clientAttested g cfg c') \<and> map_option policy (cn_cfg c') = Some (policy cfg)"
proof -
  obtain c1 where c1: "c1 = c \<or> (\<exists>env ctxp r. handshake g env ctxp c = (r, c1))" and id: "identity c' = identity c1"
    using connStep_handshaken[OF step] unfolding handshaken_def by blast
  have "cn_isServer c1 \<and> (cn_handshakeDone c1 \<longrightarrow> clientAttested g cfg c1) \<and> map_option policy (cn_cfg c1) = Some (policy cfg)"
    using c1
  proof (elim disjE exE)
    fix env ctxp r
    assume h: "handshake g env ctxp c = (r, c1)"
    show ?thesis
    proof (cases "cn_handshakeDone c")
      case True
      then have "c1 = c" using h by (simp add: handshake_def)
      then show ?thesis using inv cfg by simp
    qed (use handshake_policy[OF h] inv cfg server_handshake_attested[OF h inv(2) _ _ cfg pol] in auto)
  qed (use inv cfg in simp)
  then show ?thesis using id connStep_inv[OF step inv(1)] clientAttested_identity[OF id] by (simp add: identity_def)
qed

lemma serverStep_inv:
  assumes "serverStep g s s'" "serverInv g cfg s" and pol: "cf_VerifyMutualAttestation cfg" "\<not> cf_InsecureSkipAttestationVerify cfg"
  shows "serverInv g cfg s'"
  using assms(1)
proof cases
  case (sv_accept raw c)
  then have "c = NewServerConn raw (Some (sv_cfg s))" by (simp add: Accept_def bindRes_def)
  then show ?thesis using assms(2) sv_accept(1) newConn_inv by (auto simp: serverInv_def NewServerConn_def)
next
  case (sv_call i c cfg')
  let ?c = "(sv_conns s ! i)\<lparr>cn_cfg := Some (sv_cfg s)\<rparr>"
  have "sv_conns s ! i \<in> set (sv_conns s)" using sv_call(2) by simp
  then have "connInv ?c" "cn_isServer ?c" "cn_handshakeDone ?c \<longrightarrow> clientAttested g cfg ?c" "policy (sv_cfg s) = policy cfg"
    using assms(2) by (auto simp: serverInv_def connInv_def clientAttested_def Conn_PeerEvidence_def Conn_PeerCertPEM_def)
  from connStep_attested[OF sv_call(3) this(1-3) _ this(4) pol] sv_call(4)
  have "connInv c \<and> cn_isServer c \<and> (cn_handshakeDone c \<longrightarrow> clientAttested g cfg c)" "policy cfg' = policy cfg" by auto
  then show ?thesis using assms(2) sv_call(1) set_update_subset_insert[of "sv_conns s" i c] by (fastforce simp: serverInv_def)
qed

interpretation server_steps:
  step_invariant "serverStep g" "\<lambda>s. cf_VerifyMutualAttestation cfg \<and> \<not> cf_InsecureSkipAttestationVerify cfg \<longrightarrow> serverInv g cfg s" for g cfg
  by unfold_locales (use serverStep_inv in blast)

lemma serverReach_inv:
  assumes "serverReach g \<lparr>sv_cfg = cfg, sv_conns = []\<rparr> s" "cf_VerifyMutualAttestation cfg" "\<not> cf_InsecureSkipAttestationVerify cfg"
  shows "serverInv g cfg s"
proof -
  have "serverInv g cfg \<lparr>sv_cfg = cfg, sv_conns = []\<rparr>" by (simp add: serverInv_def)
  then show ?thesis using server_steps.reach_inv[OF assms(1), of cfg] assms(2,3) by blast
qed

lemma Listen_cfg: "Listen netListen network addr cfgp log = (Inr l, log') \<Longrightarrow> ls_cfg l = cfgFor cfgp"
  by (auto simp: Listen_def Let_def io_success fail_def split: if_splits)

text \<open>
  C6: a server that asks for mutual attestation only ever serves attested clients. Take a listener opened with such a configuration, and
  any sequence of accepted connections, arriving bytes and method calls on the connections, failing ones included, over the one
  configuration they share. Then the configuration still has the policy the listener was opened with, and every connection either is
  established with a client whose evidence satisfies that policy, or has neither a peer nor plaintext to hand out.
\<close>

theorem server_attests_clients:
  assumes "Listen netListen network addr cfgp log = (Inr l, log')"
    and "cf_VerifyMutualAttestation (cfgFor cfgp)" "\<not> cf_InsecureSkipAttestationVerify (cfgFor cfgp)"
    and "serverReach g \<lparr>sv_cfg = ls_cfg l, sv_conns = []\<rparr> s"
  shows "policy (sv_cfg s) = policy (cfgFor cfgp) \<and>
    (\<forall>c \<in> set (sv_conns s). connInv c \<and>
       (if cn_handshakeDone c then clientAttested g (cfgFor cfgp) c else Conn_PeerEvidence c = None \<and> cn_readBuf c = []))"
  using serverReach_inv[OF assms(4)[unfolded Listen_cfg[OF assms(1)]] assms(2,3)]
  by (auto simp: serverInv_def connInv_def Conn_PeerEvidence_def)

lemma demo_listen:
  "Listen (\<lambda>nw ad. Inr ()) ''tcp'' '':443'' (Some demoPeer) [] = (Inr demoListener, [(''tcp'', '':443'')])"
  using demoPeer_valid by (simp add: Listen_def demoListener_def bindIO_def wrapIO_def Let_def)

theorem server_attests_clients_witness:
  "\<exists>s c. serverReach demoPki \<lparr>sv_cfg = ls_cfg demoListener, sv_conns = []\<rparr> s \<and> sv_conns s = [c] \<and> cn_handshakeDone c \<and>
     clientAttested demoPki demoPeer c"
proof -
  obtain c2s sconn0 sconn where a: "Accept (Inr (quietNet\<lparr>rx := c2s\<rparr>)) demoListener = Inr sconn0"
    and h: "Conn_Handshake demoPki (demoSide 5) sconn0 = (None, sconn)" using demo_session by blast
  let ?s0 = "\<lparr>sv_cfg = ls_cfg demoListener, sv_conns = []\<rparr>"
  have acc: "serverStep demoPki ?s0 (?s0\<lparr>sv_conns := [sconn0]\<rparr>)"
    using serverStep.sv_accept[of "quietNet\<lparr>rx := c2s\<rparr>" ?s0 sconn0 demoPki] a by (simp add: demoListener_def)
  have c0: "sconn0 = NewServerConn (quietNet\<lparr>rx := c2s\<rparr>) (Some demoPeer)" using a by (simp add: Accept_def demoListener_def bindRes_def)
  have run: "handshake demoPki (demoSide 5) (Some contextBackground) sconn0 = (None, sconn)" using h by (simp add: Conn_Handshake_def)
  obtain cfg where cfg: "cn_cfg sconn = Some cfg" using handshake_policy(1)[OF run] c0 by (auto simp: NewServerConn_def)
  have "sconn0\<lparr>cn_cfg := Some demoPeer\<rparr> = sconn0" by (simp add: c0 NewServerConn_def newConn_def)
  then have call: "serverStep demoPki (?s0\<lparr>sv_conns := [sconn0]\<rparr>) \<lparr>sv_cfg = cfg, sv_conns = [sconn]\<rparr>"
    using serverStep.sv_call[of 0 "?s0\<lparr>sv_conns := [sconn0]\<rparr>" demoPki sconn cfg] connStep.step_handshake[OF run] cfg
    by (simp add: demoListener_def)
  have r: "serverReach demoPki ?s0 \<lparr>sv_cfg = cfg, sv_conns = [sconn]\<rparr>"
    by (rule serverReach_step[OF serverReach_step[OF serverReach_start acc] call])
  have "cn_handshakeDone sconn" using handshake_inv(2)[OF _ run] newConn_inv c0 by (simp add: NewServerConn_def)
  with server_attests_clients[OF demo_listen _ _ r] r show ?thesis by (intro exI[of _ "\<lparr>sv_cfg = cfg, sv_conns = [sconn]\<rparr>"] exI[of _ sconn]) simp
qed

end
