(* ===== verification/Cert_Cache.thy ===== *)
theory Cert_Cache
  imports Authentication Go_Steps
begin

text \<open>
  The certificate cache under concurrent calls. A \<^verbatim>\<open>Config\<close> is shared by all connections of a listener, and
  \<^verbatim>\<open>GetOrGenerateCertificateContext\<close> (\<^verbatim>\<open>config.go\<close>) looks at the cache twice: once under the read lock, and, when that
  misses, again under the write lock before it generates. Here each of the two locked sections is a step of its own,
  and the steps of any number of calls interleave. The lemmas show that the calls behave as if each ran alone at its
  last step, and that calls which meet a fresh certificate all share it.
\<close>

section \<open>The two locked sections\<close>

datatype certPhase = Called | Missed | Returned "(bytes \<times> bytes) result"

text \<open>What is done without a lock or under the read lock, with the two clock readings of the check.\<close>

definition certRead :: "Config \<Rightarrow> gotime \<Rightarrow> gotime \<Rightarrow> certPhase" where
  "certRead c now1 now2 =
     (if length (cf_CertPEM c) > 0 \<and> length (cf_KeyPEM c) > 0 then Returned (Inr (cf_CertPEM c, cf_KeyPEM c))
      else if cf_EvidenceProvider c = None
      then Returned (Inl (ErrNew ''teetls: requires either CertPEM/KeyPEM or EvidenceProvider''))
      else if cachedCertificateValidLocked c (if cf_CertCacheTTL c \<le> 0 then nsHour else cf_CertCacheTTL c) now1 now2
      then Returned (Inr (cf_cachedCertPEM c, cf_cachedKeyPEM c))
      else Missed)"

text \<open>What is done under the write lock: the second check, at \<open>now1\<close> and \<open>now2\<close>, the generation at \<open>now3\<close> and the store at \<open>now4\<close>.\<close>

definition certWrite ::
    "gmsm \<Rightarrow> certEntropy \<Rightarrow> gotime \<Rightarrow> gotime \<Rightarrow> gotime \<Rightarrow> gotime \<Rightarrow> gocontext option \<Rightarrow> (Config, bytes \<times> bytes) io" where
  "certWrite g rnd now1 now2 now3 now4 ctxp c =
     (if cachedCertificateValidLocked c (if cf_CertCacheTTL c \<le> 0 then nsHour else cf_CertCacheTTL c) now1 now2
      then (Inr (cf_cachedCertPEM c, cf_cachedKeyPEM c), c)
      else
        case wrapRes ''generate certificate''
            (GenerateSM2CertificateWithEvidenceContext g rnd now3
              (Some (case ctxp of None \<Rightarrow> contextBackground | Some x \<Rightarrow> x)) (cf_EvidenceProvider c)) of
          Inl e \<Rightarrow> (Inl e, c)
        | Inr (certPEM, keyPEM) \<Rightarrow>
            (case wrapRes ''parse generated certificate'' (ParseCertificatePEM g certPEM) of
               Inl e \<Rightarrow> (Inl e, c)
             | Inr cert \<Rightarrow>
                 (Inr (certPEM, keyPEM),
                  c\<lparr>cf_cachedCertPEM := certPEM, cf_cachedKeyPEM := keyPEM,
                    cf_cachedAt := now4, cf_cachedNotAfter := crt_NotAfter cert\<rparr>)))"

text \<open>A call that nothing interrupts is the sequence of its two sections.\<close>

lemma sections_in_sequence:
  "GetOrGenerateCertificateContext g rnd clk ctxp c =
     (case certRead c (clk 0) (clk 1) of
        Returned r \<Rightarrow> (r, c)
      | _ \<Rightarrow> certWrite g rnd (clk 2) (clk 3) (clk 4) (clk 5) ctxp c)"
  by (simp add: GetOrGenerateCertificateContext_def certRead_def certWrite_def Let_def)

section \<open>Interleaved calls\<close>

text \<open>
  The shared configuration, the clock, the phase of every call and the results in the order in which the calls got them. A
  section reads the clock at times that do not go back.
\<close>

record cacheSys =
  cs_cfg :: Config
  cs_now :: gotime
  cs_calls :: "nat \<Rightarrow> certPhase"
  cs_log :: "(nat \<times> (bytes \<times> bytes) result) list"

inductive cacheStep :: "gmsm \<Rightarrow> cacheSys \<Rightarrow> cacheSys \<Rightarrow> bool" for g where
  read_hit: "cs_calls s i = Called \<Longrightarrow> cs_now s \<le> t1 \<Longrightarrow> t1 \<le> t2 \<Longrightarrow> certRead (cs_cfg s) t1 t2 = Returned r \<Longrightarrow>
    cacheStep g s (s\<lparr>cs_now := t2, cs_calls := (cs_calls s)(i := Returned r), cs_log := cs_log s @ [(i, r)]\<rparr>)"
| read_miss: "cs_calls s i = Called \<Longrightarrow> cs_now s \<le> t1 \<Longrightarrow> t1 \<le> t2 \<Longrightarrow> certRead (cs_cfg s) t1 t2 = Missed \<Longrightarrow>
    cacheStep g s (s\<lparr>cs_now := t2, cs_calls := (cs_calls s)(i := Missed)\<rparr>)"
| write_locked: "cs_calls s i = Missed \<Longrightarrow> cs_now s \<le> t1 \<Longrightarrow> t1 \<le> t2 \<Longrightarrow> t2 \<le> t3 \<Longrightarrow> t3 \<le> t4 \<Longrightarrow>
    certWrite g rnd t1 t2 t3 t4 ctxp (cs_cfg s) = (r, c') \<Longrightarrow>
    cacheStep g s (s\<lparr>cs_cfg := c', cs_now := t4, cs_calls := (cs_calls s)(i := Returned r), cs_log := cs_log s @ [(i, r)]\<rparr>)"

abbreviation cacheReach :: "gmsm \<Rightarrow> cacheSys \<Rightarrow> cacheSys \<Rightarrow> bool" where
  "cacheReach g \<equiv> reach (cacheStep g)"

lemmas cacheReach_start = reach.start[of "cacheStep g" for g] and cacheReach_step = reach.next_step[of "cacheStep g" for g]

definition cacheStart :: "Config \<Rightarrow> gotime \<Rightarrow> cacheSys" where
  "cacheStart c now = \<lparr>cs_cfg = c, cs_now = now, cs_calls = (\<lambda>_. Called), cs_log = []\<rparr>"

text \<open>Whole calls one after the other, each on the configuration and the clock that the one before left.\<close>

inductive inOrder :: "gmsm \<Rightarrow> Config \<Rightarrow> gotime \<Rightarrow> (nat \<times> (bytes \<times> bytes) result) list \<Rightarrow> Config \<Rightarrow> gotime \<Rightarrow> bool" for g c0 now0 where
  none: "inOrder g c0 now0 [] c0 now0"
| wait: "inOrder g c0 now0 log c now \<Longrightarrow> now \<le> now' \<Longrightarrow> inOrder g c0 now0 log c now'"
| call: "inOrder g c0 now0 log c now \<Longrightarrow> now \<le> clk 0 \<Longrightarrow> \<forall>n. clk n \<le> clk (Suc n) \<Longrightarrow>
    GetOrGenerateCertificateContext g rnd clk ctxp c = (r, c') \<Longrightarrow> inOrder g c0 now0 (log @ [(i, r)]) c' (clk 5)"

lemma valid_earlier:
  "cachedCertificateValidLocked c ttl t1 t2 \<Longrightarrow> u1 \<le> t1 \<Longrightarrow> u2 \<le> t2 \<Longrightarrow> cachedCertificateValidLocked c ttl u1 u2"
  by (auto simp: cachedCertificateValidLocked_def)

text \<open>A configuration for which a call looks at the cache at all, which no step changes.\<close>

definition cacheable :: "Config \<Rightarrow> bool" where
  "cacheable c \<longleftrightarrow> \<not> (length (cf_CertPEM c) > 0 \<and> length (cf_KeyPEM c) > 0) \<and> cf_EvidenceProvider c \<noteq> None"

lemma certRead_cacheable:
  "cacheable c \<Longrightarrow> certRead c t1 t2 =
     (if cachedCertificateValidLocked c (effectiveTTL c) t1 t2 then Returned (Inr (cf_cachedCertPEM c, cf_cachedKeyPEM c)) else Missed)"
proof -
  assume "cacheable c"
  then have "(length (cf_CertPEM c) > 0 \<and> length (cf_KeyPEM c) > 0) = False" "(cf_EvidenceProvider c = None) = False"
    by (auto simp: cacheable_def)
  then show ?thesis by (simp only: certRead_def if_False effectiveTTL_def)
qed

lemma certRead_Missed: "certRead c t1 t2 = Missed \<Longrightarrow> cacheable c"
  by (auto simp: cacheable_def certRead_def split: if_splits)

lemma certRead_not_Called [simp]: "certRead c t1 t2 \<noteq> Called"
  by (simp add: certRead_def)

lemma certWrite_hit:
  "cachedCertificateValidLocked c (effectiveTTL c) t1 t2 \<Longrightarrow> certWrite g rnd t1 t2 t3 t4 ctxp c = (Inr (cf_cachedCertPEM c, cf_cachedKeyPEM c), c)"
  by (simp add: certWrite_def effectiveTTL_def)

lemma certWrite_miss:
  "\<not> cachedCertificateValidLocked c (effectiveTTL c) t1 t2 \<Longrightarrow> \<not> cachedCertificateValidLocked c (effectiveTTL c) u1 u2 \<Longrightarrow>
     certWrite g rnd t1 t2 t3 t4 ctxp c = certWrite g rnd u1 u2 t3 t4 ctxp c"
  by (simp add: certWrite_def effectiveTTL_def)

lemma certWrite_generates:
  assumes "\<not> cachedCertificateValidLocked c (effectiveTTL c) t1 t2" "cf_EvidenceProvider c = p"
    and "GenerateSM2CertificateWithEvidenceContext g rnd t3 (Some contextBackground) p = Inr (pem, key)" "ParseCertificatePEM g pem = Inr cert"
  shows "certWrite g rnd t1 t2 t3 t4 None c = (Inr (pem, key), c\<lparr>cf_cachedCertPEM := pem, cf_cachedKeyPEM := key,
    cf_cachedAt := t4, cf_cachedNotAfter := crt_NotAfter cert\<rparr>)"
  using assms by (simp add: certWrite_def effectiveTTL_def[symmetric])

lemma certWrite_keeps:
  "certWrite g rnd t1 t2 t3 t4 ctxp c = (r, c') \<Longrightarrow> cacheable c' = cacheable c"
  by (auto simp: certWrite_def wrapRes_def cacheable_def split: if_splits sum.splits prod.splits)

text \<open>A section under the write lock is a whole call at its own times.\<close>

definition clockOf :: "gotime \<Rightarrow> gotime \<Rightarrow> gotime \<Rightarrow> gotime \<Rightarrow> nat \<Rightarrow> gotime" where
  "clockOf t1 t2 t3 t4 n = (if n = 0 then t1 else if n \<le> 3 then t2 else if n = 4 then t3 else t4)"

lemma clockOf_mono: "t1 \<le> t2 \<Longrightarrow> t2 \<le> t3 \<Longrightarrow> t3 \<le> t4 \<Longrightarrow> \<forall>n. clockOf t1 t2 t3 t4 n \<le> clockOf t1 t2 t3 t4 (Suc n)"
  by (auto simp: clockOf_def)

lemma write_is_call:
  assumes "cacheable c" "t1 \<le> t2"
  shows "GetOrGenerateCertificateContext g rnd (clockOf t1 t2 t3 t4) ctxp c = certWrite g rnd t1 t2 t3 t4 ctxp c"
proof (cases "cachedCertificateValidLocked c (effectiveTTL c) t1 t2")
  case True
  then show ?thesis by (simp add: sections_in_sequence certRead_cacheable[OF assms(1)] certWrite_hit clockOf_def)
next
  case False
  then have "\<not> cachedCertificateValidLocked c (effectiveTTL c) t2 t2" using valid_earlier assms(2) by blast
  then have "certWrite g rnd t2 t2 t3 t4 ctxp c = certWrite g rnd t1 t2 t3 t4 ctxp c" using certWrite_miss False by blast
  then show ?thesis using False by (simp add: sections_in_sequence certRead_cacheable[OF assms(1)] clockOf_def)
qed

lemma read_is_call:
  "certRead c t1 t2 = Returned r \<Longrightarrow> GetOrGenerateCertificateContext g rnd (clockOf t1 t2 t2 t2) ctxp c = (r, c)"
  by (simp add: sections_in_sequence clockOf_def)

text \<open>The invariant that relates interleaved to sequential calls.\<close>

definition cacheInv :: "gmsm \<Rightarrow> Config \<Rightarrow> gotime \<Rightarrow> cacheSys \<Rightarrow> bool" where
  "cacheInv g c0 now0 s \<longleftrightarrow> inOrder g c0 now0 (cs_log s) (cs_cfg s) (cs_now s) \<and> distinct (map fst (cs_log s)) \<and>
     (\<forall>i r. cs_calls s i = Returned r \<longleftrightarrow> (i, r) \<in> set (cs_log s)) \<and> (\<forall>i. cs_calls s i = Missed \<longrightarrow> cacheable (cs_cfg s))"

lemma returns:
  assumes "\<forall>i r. f i = Returned r \<longleftrightarrow> (i, r) \<in> set log" "f i = Called \<or> f i = Missed" "distinct (map fst log)"
  shows "distinct (map fst (log @ [(i, r)]))" "\<forall>j q. (f(i := Returned r)) j = Returned q \<longleftrightarrow> (j, q) \<in> set (log @ [(i, r)])"
proof -
  have "(i, q) \<notin> set log" for q using assms(1,2) by (metis certPhase.distinct(3,5))
  then show "distinct (map fst (log @ [(i, r)]))" "\<forall>j q. (f(i := Returned r)) j = Returned q \<longleftrightarrow> (j, q) \<in> set (log @ [(i, r)])"
    using assms(1,3) by force+
qed

lemma logged_call:
  assumes "cacheInv g c0 now0 s" "cs_calls s i = Called \<or> cs_calls s i = Missed"
    and "cs_now s \<le> t1" "t1 \<le> t2" "t2 \<le> t3" "t3 \<le> t4"
    and "GetOrGenerateCertificateContext g rnd (clockOf t1 t2 t3 t4) ctxp (cs_cfg s) = (r, c')"
    and "\<forall>j. cs_calls s j = Missed \<longrightarrow> cacheable c'"
  shows "cacheInv g c0 now0 (s\<lparr>cs_cfg := c', cs_now := t4, cs_calls := (cs_calls s)(i := Returned r), cs_log := cs_log s @ [(i, r)]\<rparr>)"
proof -
  have inv: "inOrder g c0 now0 (cs_log s) (cs_cfg s) (cs_now s)" "distinct (map fst (cs_log s))"
    "\<forall>i r. cs_calls s i = Returned r \<longleftrightarrow> (i, r) \<in> set (cs_log s)" using assms(1) by (simp_all add: cacheInv_def)
  have "cs_now s \<le> clockOf t1 t2 t3 t4 0" using assms(3) by (simp add: clockOf_def)
  from inOrder.call[OF inv(1) this clockOf_mono[OF assms(4-6)] assms(7), of i]
  have "inOrder g c0 now0 (cs_log s @ [(i, r)]) c' t4" by (simp add: clockOf_def)
  with returns[OF inv(3) assms(2) inv(2), of r] assms(8) show ?thesis unfolding cacheInv_def by auto
qed

lemma cacheStep_inv:
  assumes "cacheStep g s s'" "cacheInv g c0 now0 s"
  shows "cacheInv g c0 now0 s'"
  using assms(1)
proof cases
  case (read_hit i t1 t2 r)
  have "cacheInv g c0 now0 (s\<lparr>cs_cfg := cs_cfg s, cs_now := t2, cs_calls := (cs_calls s)(i := Returned r), cs_log := cs_log s @ [(i, r)]\<rparr>)"
    by (rule logged_call[OF assms(2) _ read_hit(3,4) _ _ read_is_call[OF read_hit(5)]]) (use assms(2) read_hit(2) in \<open>auto simp: cacheInv_def\<close>)
  then show ?thesis using read_hit(1) by simp
next
  case (read_miss i t1 t2)
  have "inOrder g c0 now0 (cs_log s) (cs_cfg s) t2"
    by (rule inOrder.wait[where now = "cs_now s"]) (use assms(2) read_miss in \<open>simp_all add: cacheInv_def\<close>)
  moreover have "(i, r) \<notin> set (cs_log s)" for r
    using assms(2) read_miss(2) by (metis cacheInv_def certPhase.distinct(3))
  ultimately show ?thesis using assms(2) certRead_Missed[OF read_miss(5)] read_miss(1,2) by (auto simp: cacheInv_def)
next
  case (write_locked i t1 t2 t3 t4 rnd ctxp r c')
  have ca: "cacheable (cs_cfg s)" using assms(2) write_locked(2) unfolding cacheInv_def by blast
  have "GetOrGenerateCertificateContext g rnd (clockOf t1 t2 t3 t4) ctxp (cs_cfg s) = (r, c')"
    using write_is_call[OF ca write_locked(4)] write_locked(7) by simp
  from logged_call[OF assms(2) _ write_locked(3-6) this] show ?thesis
    using write_locked(1,2) certWrite_keeps[OF write_locked(7)] ca by simp
qed

interpretation cache: step_invariant "cacheStep g" "cacheInv g c now" for g c now
  by unfold_locales (rule cacheStep_inv)

lemma cacheReach_inv: "cacheReach g (cacheStart c now) s \<Longrightarrow> cacheInv g c now s"
  by (erule cache.reach_inv) (auto simp: cacheInv_def cacheStart_def intro: inOrder.none)

section \<open>What concurrent callers get\<close>

text \<open>
  C13: concurrent calls of \<^verbatim>\<open>GetOrGenerateCertificateContext\<close> on one configuration are linearizable. Whatever the order in which the
  sections of any number of calls get the lock, the results are those of whole calls made one after the other, each at times within
  its own last section, and the configuration is the one these calls leave; every call that has returned has exactly one result
  in that order.
\<close>

theorem concurrent_cache_linearizable:
  assumes "cacheReach g (cacheStart c now) s"
  shows "inOrder g c now (cs_log s) (cs_cfg s) (cs_now s) \<and> distinct (map fst (cs_log s)) \<and>
    (\<forall>i r. cs_calls s i = Returned r \<longleftrightarrow> (i, r) \<in> set (cs_log s))"
  using cacheReach_inv[OF assms] by (simp add: cacheInv_def)

lemma cacheStep_now: "cacheStep g s s' \<Longrightarrow> cs_now s \<le> cs_now s'"
  by (auto elim: cacheStep.cases)

text \<open>
  C20: a fresh certificate is generated once and shared. From any moment at which the cache holds a pair, and up to any later moment at
  which that pair is younger than the cache lifetime and more than a minute from its expiry, every call that returns gets exactly this
  pair, including the calls that had missed the cache before it was filled and were waiting for the write lock; none of them
  generates another.
\<close>

theorem fresh_certificate_shared:
  assumes "cacheReach g s s'" "cacheable (cs_cfg s)"
    and "cachedCertificateValidLocked (cs_cfg s) (effectiveTTL (cs_cfg s)) (cs_now s') (cs_now s')"
  shows "cs_cfg s' = cs_cfg s \<and> (\<exists>l. cs_log s' = cs_log s @ l \<and>
    (\<forall>(i, r) \<in> set l. r = Inr (cf_cachedCertPEM (cs_cfg s), cf_cachedKeyPEM (cs_cfg s))))"
  using assms(1,3)
proof (induction rule: reach.induct)
  case (next_step s1 s2)
  let ?c = "cs_cfg s"
  have "cachedCertificateValidLocked ?c (effectiveTTL ?c) (cs_now s1) (cs_now s1)"
    using valid_earlier[OF next_step.prems cacheStep_now[OF next_step.hyps(2)] cacheStep_now[OF next_step.hyps(2)]] .
  from next_step.IH[OF this] obtain l where c1: "cs_cfg s1 = ?c" and l: "cs_log s1 = cs_log s @ l"
    "\<forall>(i, r) \<in> set l. r = Inr (cf_cachedCertPEM ?c, cf_cachedKeyPEM ?c)" by blast
  from next_step.hyps(2) show ?case
  proof cases
    case (read_hit i t1 t2 r)
    have "cachedCertificateValidLocked ?c (effectiveTTL ?c) t1 t2" using valid_earlier[OF next_step.prems] read_hit by simp
    then have "r = Inr (cf_cachedCertPEM ?c, cf_cachedKeyPEM ?c)" using read_hit(5) certRead_cacheable[OF assms(2)] c1 by simp
    with read_hit l c1 show ?thesis by auto
  next
    case (read_miss i t1 t2)
    with l c1 show ?thesis by auto
  next
    case (write_locked i t1 t2 t3 t4 rnd ctxp r c')
    have "cachedCertificateValidLocked ?c (effectiveTTL ?c) t1 t2" using valid_earlier[OF next_step.prems] write_locked by simp
    from certWrite_hit[OF this] write_locked(7) c1 have "r = Inr (cf_cachedCertPEM ?c, cf_cachedKeyPEM ?c)" "c' = ?c" by auto
    with write_locked l c1 show ?thesis by auto
  qed
qed simp

section \<open>Two calls that both miss an empty cache\<close>

lemma demo_pair:
  "\<exists>pem key cert. GenerateSM2CertificateWithEvidenceContext demoPki demoEntropy demoNow (Some contextBackground) (Some demoProvider) = Inr (pem, key) \<and>
     pem \<noteq> [] \<and> key \<noteq> [] \<and> ParseCertificatePEM demoPki pem = Inr cert \<and> demoNow + nsMinute < crt_NotAfter cert"
proof -
  obtain pem key where gen: "GenerateSM2CertificateWithEvidenceContext demoPki demoEntropy demoNow (Some contextBackground) (Some demoProvider) = Inr (pem, key)"
    and pem: "pem \<noteq> []" using demo_certificate by blast
  obtain priv der ev ext serial where c: "gx509_MarshalPKIXPublicKey demoPki (sk_pub priv) = Inr der" "ext_Id ext = OIDCSVEvidence"
    "gx509_CreateCertificateToPem demoPki (certTemplateFor serial demoNow ext) (sk_pub priv) priv (ce_sign demoEntropy) = Inr pem"
    "gx509_WritePrivateKeyToPem demoPki priv = Inr key"
    using mock.generated_certificate[OF gen[unfolded demoProvider_def demoMock_def]] by blast
  obtain cert where "ParseCertificatePEM demoPki pem = Inr cert" "demoNow + 24 * nsHour < crt_NotAfter cert + nsSecond"
    using created_certificate[OF demoPki_x509 c(2,3,1)] by blast
  moreover have "key \<noteq> []" using c(4) by (auto simp: demoPki_def split: if_splits)
  ultimately show ?thesis using gen pem by (auto simp: nsMinute_def nsHour_def nsSecond_def)
qed

lemma demo_cache_run:
  "\<exists>pair s1 s2. cacheReach demoPki (cacheStart demoPeer demoNow) s1 \<and> cacheStep demoPki s1 s2 \<and> cs_now s2 = demoNow \<and>
     cs_log s1 = [(0, Inr pair)] \<and> cs_log s2 = [(0, Inr pair), (1, Inr pair)] \<and> cacheable (cs_cfg s1) \<and>
     cachedCertificateValidLocked (cs_cfg s1) (effectiveTTL (cs_cfg s1)) demoNow demoNow \<and>
     pair = (cf_cachedCertPEM (cs_cfg s1), cf_cachedKeyPEM (cs_cfg s1))"
proof -
  obtain pem key cert where gen: "GenerateSM2CertificateWithEvidenceContext demoPki demoEntropy demoNow (Some contextBackground) (Some demoProvider) = Inr (pem, key)"
    and p: "pem \<noteq> []" "key \<noteq> []" "ParseCertificatePEM demoPki pem = Inr cert" "demoNow + nsMinute < crt_NotAfter cert"
    using demo_pair by blast
  let ?s0 = "cacheStart demoPeer demoNow" and ?c = "demoPeer\<lparr>cf_cachedCertPEM := pem, cf_cachedKeyPEM := key,
                  cf_cachedAt := demoNow, cf_cachedNotAfter := crt_NotAfter cert\<rparr>"
  let ?one = "?s0\<lparr>cs_calls := (cs_calls ?s0)(0 := Missed)\<rparr>" and ?m = "?s0\<lparr>cs_calls := (cs_calls ?s0)(0 := Missed, 1 := Missed)\<rparr>"
  let ?s1 = "?m\<lparr>cs_cfg := ?c, cs_calls := (cs_calls ?m)(0 := Returned (Inr (pem, key))), cs_log := [(0, Inr (pem, key))]\<rparr>"
  let ?s2 = "?s1\<lparr>cs_calls := (cs_calls ?s1)(1 := Returned (Inr (pem, key))), cs_log := [(0, Inr (pem, key)), (1, Inr (pem, key))]\<rparr>"
  have ca: "cacheable demoPeer" "cacheable ?c" by (simp_all add: cacheable_def)
  have miss: "\<not> cachedCertificateValidLocked demoPeer x demoNow demoNow" for x by (simp add: cachedCertificateValidLocked_def)
  have "0 < effectiveTTL ?c" by (simp add: effectiveTTL_def nsHour_def)
  then have hit: "cachedCertificateValidLocked ?c (effectiveTTL ?c) demoNow demoNow"
    using p by (auto simp: cachedCertificateValidLocked_def demoNow_def nsMinute_def)
  have r: "certRead demoPeer demoNow demoNow = Missed" using certRead_cacheable[OF ca(1)] miss by simp
  have w: "certWrite demoPki demoEntropy demoNow demoNow demoNow demoNow None demoPeer = (Inr (pem, key), ?c)"
    by (rule certWrite_generates[OF miss _ gen p(3)]) simp
  have step1: "cacheStep demoPki ?s0 ?one" using cacheStep.read_miss[of ?s0 0 demoNow demoNow demoPki] r by (simp add: cacheStart_def)
  have step2: "cacheStep demoPki ?one ?m" using cacheStep.read_miss[of ?one 1 demoNow demoNow demoPki] r by (simp add: cacheStart_def)
  have step3: "cacheStep demoPki ?m ?s1"
    using cacheStep.write_locked[of ?m 0 demoNow demoNow demoNow demoNow demoPki demoEntropy None] w by (simp add: cacheStart_def)
  have step4: "cacheStep demoPki ?s1 ?s2"
    using cacheStep.write_locked[of ?s1 1 demoNow demoNow demoNow demoNow demoPki demoEntropy None] certWrite_hit[OF hit]
    by (simp add: cacheStart_def)
  have "cacheReach demoPki ?s0 ?s1"
    by (rule cacheReach_step[OF cacheReach_step[OF cacheReach_step[OF cacheReach_start step1] step2] step3])
  with step4 hit ca show ?thesis
    by (intro exI[of _ "(pem, key)"] exI[of _ ?s1] exI[of _ ?s2]) (simp add: cacheStart_def)
qed

theorem concurrent_cache_linearizable_witness:
  "\<exists>pair (s :: cacheSys). cs_log s = [(0, Inr pair), (1, Inr pair)] \<and> inOrder demoPki demoPeer demoNow (cs_log s) (cs_cfg s) (cs_now s)"
proof -
  obtain pair s1 s2 where r: "cacheReach demoPki (cacheStart demoPeer demoNow) s1" "cacheStep demoPki s1 s2"
    "cs_log s2 = [(0, Inr pair), (1, Inr pair)]" using demo_cache_run by blast
  from concurrent_cache_linearizable[OF cacheReach_step[OF r(1,2)]] r(3) show ?thesis by (intro exI[of _ pair] exI[of _ s2]) simp
qed

theorem fresh_certificate_shared_witness:
  "\<exists>pair (s1 :: cacheSys) (s2 :: cacheSys). cs_log s1 = [(0, Inr pair)] \<and> cs_log s2 = cs_log s1 @ [(1, Inr pair)] \<and> cs_cfg s2 = cs_cfg s1 \<and>
     cachedCertificateValidLocked (cs_cfg s1) (effectiveTTL (cs_cfg s1)) (cs_now s2) (cs_now s2)"
proof -
  obtain pair s1 s2 where r: "cacheStep demoPki s1 s2" "cs_now s2 = demoNow" "cs_log s1 = [(0, Inr pair)]"
    "cs_log s2 = [(0, Inr pair), (1, Inr pair)]" "cacheable (cs_cfg s1)"
    "cachedCertificateValidLocked (cs_cfg s1) (effectiveTTL (cs_cfg s1)) demoNow demoNow" using demo_cache_run by blast
  from fresh_certificate_shared[OF cacheReach_step[OF cacheReach_start r(1)] r(5)] r show ?thesis by (intro exI[of _ pair] exI[of _ s1] exI[of _ s2]) auto
qed

end
