(* ===== verification/Handshake_Once.thy ===== *)
theory Handshake_Once
  imports Conn
begin

text \<open>
  The handshake under concurrent first uses (\<^verbatim>\<open>conn.go\<close>, \<^verbatim>\<open>handshake\<close>). Every \<^verbatim>\<open>Read\<close> and \<^verbatim>\<open>Write\<close> calls \<^verbatim>\<open>handshake\<close>, which looks at
  \<^verbatim>\<open>handshakeDone\<close> without a lock, takes \<^verbatim>\<open>handshakeMutex\<close>, looks again, runs the protocol, stores what it got and last of all publishes
  \<^verbatim>\<open>handshakeDone\<close>. Each of these is a step here, and the steps of any number of calls interleave. The lemmas show that the
  calls amount to whole calls one after the other, that all of them get one result, and that no call is let through before the
  ciphers are in place.
\<close>

section \<open>The steps of a call\<close>

datatype hsPhase = HsCalled | HsWaiting | HsRunning | HsStoring HandshakeResult | HsPublishing | HsReturned "goerr option"

definition hsFast :: "Conn \<Rightarrow> hsPhase" where
  "hsFast c = (if cn_handshakeDone c then HsReturned None else HsWaiting)"

definition hsCheck :: "Conn \<Rightarrow> hsPhase" where
  "hsCheck c =
     (if cn_handshakeDone c then HsReturned None
      else case cn_handshakeErr c of Some e \<Rightarrow> HsReturned (Some e) | None \<Rightarrow> HsRunning)"

definition hsProtocol :: "gmsm \<Rightarrow> hsEnv \<Rightarrow> gocontext option \<Rightarrow> Conn \<Rightarrow> hsPhase \<times> Conn" where
  "hsProtocol g env ctxp c =
     (let ctx = (case ctxp of None \<Rightarrow> contextBackground | Some x \<Rightarrow> x);
          s = \<lparr>hs_net = cn_rawConn c, hs_cfg = cn_cfg c\<rparr>
      in case (if cn_isServer c then ServerHandshakeContext g env (Some ctx) s else ClientHandshakeContext g env (Some ctx) s) of
           (Inl err, s') \<Rightarrow>
             let c1 = c\<lparr>cn_rawConn := hs_net s', cn_cfg := hs_cfg s'\<rparr>
             in (HsReturned (Some err), if isPanic err then c1 else c1\<lparr>cn_handshakeErr := Some err\<rparr>)
         | (Inr res, s') \<Rightarrow> (HsStoring res, c\<lparr>cn_rawConn := hs_net s', cn_cfg := hs_cfg s'\<rparr>))"

definition hsStore :: "HandshakeResult \<Rightarrow> Conn \<Rightarrow> Conn" where
  "hsStore res c =
     c\<lparr>cn_inCipher := Some (hr_InCipher res), cn_outCipher := Some (hr_OutCipher res), cn_peerCertPEM := [] @ hr_PeerCertPEM res,
       cn_peerEvidence := cloneEvidence (hr_PeerEvidence res),
       cn_peerCertificate := (case hr_PeerCertificate res of None \<Rightarrow> cn_peerCertificate c | Some gc \<Rightarrow> Some (gc_X509 gc))\<rparr>"

text \<open>A call that nothing interrupts is the sequence of its steps.\<close>

lemma handshake_in_steps:
  "\<not> cn_handshakeDone c \<Longrightarrow> cn_handshakeErr c = None \<Longrightarrow> handshake g env ctxp c =
     (case hsProtocol g env ctxp c of
        (HsStoring res, c1) \<Rightarrow> (None, (hsStore res c1)\<lparr>cn_handshakeDone := True\<rparr>)
      | (HsReturned r, c1) \<Rightarrow> (r, c1) | (p, c1) \<Rightarrow> undefined)"
  by (auto simp: handshake_def hsProtocol_def hsStore_def Let_def split: prod.splits sum.splits option.splits)

lemma hsProtocol_cases:
  assumes "hsProtocol g env ctxp c = (p, c')"
  obtains (failed) e where "p = HsReturned (Some e)" | (got) res where "p = HsStoring res" "cn_handshakeDone c' = cn_handshakeDone c"
  using assms by (auto simp: hsProtocol_def Let_def split: prod.splits sum.splits)

section \<open>Interleaved calls\<close>

record hsSys =
  hq_conn :: Conn
  hq_mu :: "nat option"
  hq_calls :: "nat \<Rightarrow> hsPhase"
  hq_log :: "(nat \<times> goerr option) list"

fun hsHolds :: "hsPhase \<Rightarrow> bool" where
  "hsHolds HsRunning = True"
| "hsHolds (HsStoring res) = True"
| "hsHolds HsPublishing = True"
| "hsHolds p = False"

text \<open>The call \<open>i\<close> goes on to phase \<open>p\<close> and leaves the connection \<open>c\<close>; a call that returns has released the mutex.\<close>

definition hsNext :: "nat \<Rightarrow> hsPhase \<Rightarrow> Conn \<Rightarrow> hsSys \<Rightarrow> hsSys" where
  "hsNext i p c s = s\<lparr>hq_conn := c, hq_mu := (if hsHolds p then Some i else if hsHolds (hq_calls s i) then None else hq_mu s),
     hq_calls := (hq_calls s)(i := p), hq_log := hq_log s @ (case p of HsReturned r \<Rightarrow> [(i, r)] | _ \<Rightarrow> [])\<rparr>"

inductive hsStep :: "gmsm \<Rightarrow> hsSys \<Rightarrow> hsSys \<Rightarrow> bool" for g where
  hs_fast: "hq_calls s i = HsCalled \<Longrightarrow> hsStep g s (hsNext i (hsFast (hq_conn s)) (hq_conn s) s)"
| hs_lock: "hq_calls s i = HsWaiting \<Longrightarrow> hq_mu s = None \<Longrightarrow> hsStep g s (hsNext i (hsCheck (hq_conn s)) (hq_conn s) s)"
| hs_run: "hq_calls s i = HsRunning \<Longrightarrow> hsProtocol g env ctxp (hq_conn s) = (p, c) \<Longrightarrow> hsStep g s (hsNext i p c s)"
| hs_store: "hq_calls s i = HsStoring res \<Longrightarrow> hsStep g s (hsNext i HsPublishing (hsStore res (hq_conn s)) s)"
| hs_publish: "hq_calls s i = HsPublishing \<Longrightarrow> hsStep g s (hsNext i (HsReturned None) ((hq_conn s)\<lparr>cn_handshakeDone := True\<rparr>) s)"

abbreviation hsReach :: "gmsm \<Rightarrow> hsSys \<Rightarrow> hsSys \<Rightarrow> bool" where
  "hsReach g \<equiv> reach (hsStep g)"

lemmas hsReach_start = reach.start[of "hsStep g" for g] and hsReach_step = reach.next_step[of "hsStep g" for g]

definition hsStart :: "Conn \<Rightarrow> hsSys" where
  "hsStart c = \<lparr>hq_conn = c, hq_mu = None, hq_calls = (\<lambda>_. HsCalled), hq_log = []\<rparr>"

text \<open>Whole calls, one after the other.\<close>

inductive hsSeq :: "gmsm \<Rightarrow> Conn \<Rightarrow> (nat \<times> goerr option) list \<Rightarrow> Conn \<Rightarrow> bool" for g c0 where
  hs_none: "hsSeq g c0 [] c0"
| hs_call: "hsSeq g c0 log c \<Longrightarrow> handshake g env ctxp c = (r, c') \<Longrightarrow> hsSeq g c0 (log @ [(i, r)]) c'"

section \<open>The invariant\<close>

text \<open>How far the call in the mutex has come from the connection \<open>c1\<close> that the calls before it left.\<close>

fun hsAt :: "gmsm \<Rightarrow> Conn \<Rightarrow> Conn \<Rightarrow> hsPhase \<Rightarrow> bool" where
  "hsAt g c1 c HsRunning = (c = c1)"
| "hsAt g c1 c (HsStoring res) = (\<exists>env ctxp. hsProtocol g env ctxp c1 = (HsStoring res, c))"
| "hsAt g c1 c HsPublishing = (\<exists>env ctxp. handshake g env ctxp c1 = (None, c\<lparr>cn_handshakeDone := True\<rparr>))"
| "hsAt g c1 c p = False"

definition hsInv :: "gmsm \<Rightarrow> Conn \<Rightarrow> hsSys \<Rightarrow> Conn \<Rightarrow> bool" where
  "hsInv g c0 s c1 \<longleftrightarrow> hsSeq g c0 (hq_log s) c1 \<and>
     (\<forall>i. hsHolds (hq_calls s i) \<longleftrightarrow> hq_mu s = Some i) \<and>
     (\<forall>i r. hq_calls s i = HsReturned r \<longleftrightarrow> (i, r) \<in> set (hq_log s)) \<and>
     (case hq_mu s of
        None \<Rightarrow> hq_conn s = c1
      | Some i \<Rightarrow> \<not> cn_handshakeDone c1 \<and> cn_handshakeErr c1 = None \<and> \<not> cn_handshakeDone (hq_conn s) \<and> hsAt g c1 (hq_conn s) (hq_calls s i))"

lemma hsCheck_handshake: "hsCheck c = HsReturned r \<Longrightarrow> handshake g env ctxp c = (r, c)"
  by (auto simp: hsCheck_def handshake_def split: if_splits option.splits)

lemma hsCheck_running: "hsCheck c = HsRunning \<Longrightarrow> \<not> cn_handshakeDone c \<and> cn_handshakeErr c = None"
  by (auto simp: hsCheck_def split: if_splits option.splits)

lemma hsFast_handshake: "hsFast c = HsReturned r \<Longrightarrow> cn_handshakeDone c \<and> handshake g env ctxp c = (r, c)"
  by (auto simp: hsFast_def handshake_def split: if_splits)

text \<open>A call that returns: its result is that of a whole call from \<open>c1\<close>, and the lock is free.\<close>

lemma hsNext_returned:
  assumes inv: "hsInv g c0 s c1" and "hq_mu s = None \<or> hq_mu s = Some i" "\<forall>q. hq_calls s i \<noteq> HsReturned q"
    and run: "handshake g env ctxp c1 = (r, c)"
  shows "hsInv g c0 (hsNext i (HsReturned r) c s) c"
proof -
  have "hsSeq g c0 (hq_log s @ [(i, r)]) c" using inv run hsSeq.hs_call unfolding hsInv_def by blast
  moreover have "(i, q) \<notin> set (hq_log s)" for q using inv assms(3) unfolding hsInv_def by blast
  ultimately show ?thesis using inv assms(2) by (auto simp: hsInv_def hsNext_def)
qed

text \<open>A call that goes on.\<close>

lemma hsNext_goes:
  assumes inv: "hsInv g c0 s c1" and "\<forall>q. hq_calls s i \<noteq> HsReturned q" "\<forall>r. p \<noteq> HsReturned r"
    and "if hsHolds p then (hq_mu s = None \<or> hq_mu s = Some i) \<and> \<not> cn_handshakeDone c1 \<and> cn_handshakeErr c1 = None \<and>
        \<not> cn_handshakeDone c \<and> hsAt g c1 c p else \<not> hsHolds (hq_calls s i) \<and> c = hq_conn s"
  shows "hsInv g c0 (hsNext i p c s) c1"
proof -
  have log: "hq_log (hsNext i p c s) = hq_log s" using assms(3) by (cases p) (auto simp: hsNext_def)
  have "(i, q) \<notin> set (hq_log s)" for q using inv assms(2) unfolding hsInv_def by blast
  with inv assms(3,4) log show ?thesis
    by (cases "hsHolds p") (auto simp: hsInv_def hsNext_def split: option.splits)
qed

lemma hsInv_held:
  assumes "hsInv g c0 s c1" "hsHolds (hq_calls s i)"
  shows "hq_mu s = Some i" "\<not> cn_handshakeDone c1" "cn_handshakeErr c1 = None" "\<not> cn_handshakeDone (hq_conn s)"
    "hsAt g c1 (hq_conn s) (hq_calls s i)"
proof -
  show mu: "hq_mu s = Some i" using assms unfolding hsInv_def by blast
  then show "\<not> cn_handshakeDone c1" "cn_handshakeErr c1 = None" "\<not> cn_handshakeDone (hq_conn s)" "hsAt g c1 (hq_conn s) (hq_calls s i)"
    using assms(1) by (simp_all add: hsInv_def)
qed

lemma hsInv_free: "hsInv g c0 s c1 \<Longrightarrow> hq_mu s = None \<or> cn_handshakeDone (hq_conn s) \<Longrightarrow> hq_mu s = None \<and> hq_conn s = c1"
  by (auto simp: hsInv_def split: option.splits)

lemma hsStep_inv:
  assumes "hsStep g s s'" and inv: "hsInv g c0 s c1"
  shows "\<exists>c1. hsInv g c0 s' c1"
  using assms(1)
proof cases
  case (hs_fast i)
  show ?thesis
  proof (cases "cn_handshakeDone (hq_conn s)")
    case True
    then have p: "hsFast (hq_conn s) = HsReturned None" by (simp add: hsFast_def)
    have "hq_mu s = None" "hq_conn s = c1" using hsInv_free[OF inv] True by simp_all
    with hsNext_returned[OF inv, of i] hsFast_handshake[OF p] hs_fast p show ?thesis by fastforce
  next
    case False
    then have "hsFast (hq_conn s) = HsWaiting" by (simp add: hsFast_def)
    with hsNext_goes[OF inv, of i HsWaiting "hq_conn s"] hs_fast show ?thesis by auto
  qed
next
  case (hs_lock i)
  have c1: "hq_conn s = c1" using hsInv_free[OF inv] hs_lock(3) by simp
  show ?thesis
  proof (cases "\<exists>r. hsCheck (hq_conn s) = HsReturned r")
    case True
    then obtain r where "hsCheck (hq_conn s) = HsReturned r" by blast
    with hsNext_returned[OF inv, of i _ _ r] hsCheck_handshake[of c1 r] hs_lock c1 show ?thesis by fastforce
  next
    case False
    then have p: "hsCheck (hq_conn s) = HsRunning" by (auto simp: hsCheck_def split: if_splits option.splits)
    with hsNext_goes[OF inv, of i HsRunning "hq_conn s"] hsCheck_running[OF p] hs_lock c1 show ?thesis by auto
  qed
next
  case (hs_run i env ctxp p c)
  note held = hsInv_held[OF inv, of i, unfolded hs_run(2), simplified]
  note whole = handshake_in_steps[OF held(2,3), of g env ctxp]
  have run: "hsProtocol g env ctxp c1 = (p, c)" using hs_run(3) held(5) by simp
  from hs_run(3) show ?thesis
  proof (cases rule: hsProtocol_cases)
    case (failed e)
    with hsNext_returned[OF inv, of i env ctxp "Some e" c] held hs_run whole run show ?thesis by fastforce
  next
    case (got res)
    have "hsAt g c1 c p" using got run by auto
    with hsNext_goes[OF inv, of i p c] held hs_run got show ?thesis by auto
  qed
next
  case (hs_store i res)
  note held = hsInv_held[OF inv, of i, unfolded hs_store(2), simplified]
  obtain env ctxp where "hsProtocol g env ctxp c1 = (HsStoring res, hq_conn s)" using held(5) by blast
  then have "hsAt g c1 (hsStore res (hq_conn s)) HsPublishing" using handshake_in_steps[OF held(2,3), of g env ctxp] by auto
  moreover have "\<not> cn_handshakeDone (hsStore res (hq_conn s))" using held(4) by (simp add: hsStore_def)
  ultimately show ?thesis using hsNext_goes[OF inv, of i HsPublishing] held hs_store by auto
next
  case (hs_publish i)
  note held = hsInv_held[OF inv, of i, unfolded hs_publish(2), simplified]
  with hsNext_returned[OF inv, of i _ _ None] hs_publish show ?thesis by fastforce
qed

interpretation hs_steps: step_simulation "hsStep g" "\<lambda>_. True" "hsInv g c" for g c
  by unfold_locales (auto intro: hsStep_inv)

lemma hsReach_inv: "hsReach g (hsStart c) s \<Longrightarrow> \<exists>c1. hsInv g c s c1"
proof -
  have "hsInv g c (hsStart c) c" by (simp add: hsInv_def hsStart_def hsSeq.hs_none)
  then show "hsReach g (hsStart c) s \<Longrightarrow> \<exists>c1. hsInv g c s c1" using hs_steps.reach_related by blast
qed

section \<open>One handshake for all callers\<close>

text \<open>What a result in the sequence of whole calls says about the connection from then on.\<close>

definition settled :: "goerr option \<Rightarrow> Conn \<Rightarrow> bool" where
  "settled r c \<longleftrightarrow> (case r of None \<Rightarrow> cn_handshakeDone c
     | Some e \<Rightarrow> isPanic e \<or> \<not> cn_handshakeDone c \<and> cn_handshakeErr c = Some e)"

lemma settled_step:
  assumes "handshake g env ctxp c = (r, c')"
  shows "settled r c'" and "settled q c \<Longrightarrow> settled q c'"
proof -
  have "settled r c' \<and> (settled q c \<longrightarrow> settled q c')"
    using assms by (cases rule: handshake_cases) (auto simp: settled_def split: option.splits)
  then show "settled r c'" and "settled q c \<Longrightarrow> settled q c'" by auto
qed

lemma hsSeq_settled: "hsSeq g c0 log c \<Longrightarrow> connInv c0 \<Longrightarrow> connInv c \<and> (\<forall>(i, r) \<in> set log. settled r c)"
proof (induction rule: hsSeq.induct)
  case (hs_call log c env ctxp r c' i)
  then show ?case using handshake_inv(1)[OF _ hs_call.hyps(2)] settled_step[OF hs_call.hyps(2)] by auto
qed simp

text \<open>
  C17: concurrent first uses of a connection share one handshake. Whatever the interleaving of any number of calls of \<^verbatim>\<open>handshake\<close>, from the
  unlocked look at \<^verbatim>\<open>handshakeDone\<close> to its publication: their results and the connection are those of whole calls one after the other;
  all calls that return without a panic return the same result; and \<^verbatim>\<open>handshakeDone\<close> is never seen true, and no call returns nil, before
  both ciphers are in place, so that \<^verbatim>\<open>Read\<close> and \<^verbatim>\<open>Write\<close> never find a half-made connection.
\<close>

theorem concurrent_handshake_once:
  assumes "connInv c" "hsReach g (hsStart c) s"
  shows "(\<exists>c1. hsSeq g c (hq_log s) c1 \<and> (hq_mu s = None \<longrightarrow> hq_conn s = c1)) \<and>
    (\<forall>i r. hq_calls s i = HsReturned r \<longleftrightarrow> (i, r) \<in> set (hq_log s)) \<and>
    (\<forall>i j r q. hq_calls s i = HsReturned r \<and> hq_calls s j = HsReturned q \<longrightarrow>
       r = q \<or> (\<exists>e. (r = Some e \<or> q = Some e) \<and> isPanic e)) \<and>
    (\<forall>i. hq_calls s i = HsReturned None \<longrightarrow> cn_handshakeDone (hq_conn s)) \<and>
    (cn_handshakeDone (hq_conn s) \<longrightarrow> cn_inCipher (hq_conn s) \<noteq> None \<and> cn_outCipher (hq_conn s) \<noteq> None)"
proof -
  obtain c1 where inv: "hsInv g c s c1" using hsReach_inv[OF assms(2)] by blast
  then have seq: "hsSeq g c (hq_log s) c1" and log: "hq_calls s i = HsReturned r \<longleftrightarrow> (i, r) \<in> set (hq_log s)" for i r
    unfolding hsInv_def by blast+
  have set: "connInv c1" "hq_calls s i = HsReturned r \<Longrightarrow> settled r c1" for i r
    using hsSeq_settled[OF seq assms(1)] log[of i r] by auto
  have same: "r = q \<or> (\<exists>e. (r = Some e \<or> q = Some e) \<and> isPanic e)"
    if "hq_calls s i = HsReturned r" "hq_calls s j = HsReturned q" for i j r q
    using set(2)[OF that(1)] set(2)[OF that(2)] by (auto simp: settled_def split: option.splits)
  have free: "hq_mu s = None \<longrightarrow> hq_conn s = c1" using hsInv_free[OF inv] by blast
  have done1: "cn_handshakeDone (hq_conn s)" if "hq_calls s i = HsReturned None" for i
  proof -
    have "cn_handshakeDone c1" using set(2)[OF that] by (simp add: settled_def)
    then have "hq_mu s = None" using inv by (auto simp: hsInv_def split: option.splits)
    then show ?thesis using free \<open>cn_handshakeDone c1\<close> by simp
  qed
  have ciphers: "cn_inCipher (hq_conn s) \<noteq> None \<and> cn_outCipher (hq_conn s) \<noteq> None" if "cn_handshakeDone (hq_conn s)"
    using hsInv_free[OF inv] that set(1) by (auto simp: connInv_def)
  show ?thesis
  proof (intro conjI exI[of _ c1] allI impI)
    show "r = q \<or> (\<exists>e. (r = Some e \<or> q = Some e) \<and> isPanic e)" if "hq_calls s i = HsReturned r \<and> hq_calls s j = HsReturned q" for i j r q
      using same that by blast
  qed (use seq free log done1 ciphers in simp_all)
qed

section \<open>Two first uses\<close>

lemma hsNext_simps [simp]:
  "hq_conn (hsNext i p c s) = c" "hq_calls (hsNext i p c s) j = (if j = i then p else hq_calls s j)"
  "hq_mu (hsNext i p c s) = (if hsHolds p then Some i else if hsHolds (hq_calls s i) then None else hq_mu s)"
  "hq_conn (hsStart c) = c" "hq_calls (hsStart c) j = HsCalled" "hq_mu (hsStart c) = None"
  by (simp_all add: hsNext_def hsStart_def)

lemma demo_server_run:
  "\<exists>res s' c2s. ServerHandshakeContext demoPki (demoSide 5) (Some contextBackground) \<lparr>hs_net = quietNet\<lparr>rx := c2s\<rparr>, hs_cfg = Some demoPeer\<rparr> = (Inr res, s')"
proof -
  obtain sres c2s ss' where "ServerHandshakeContext demoPki (demoSide 5) None ((demoEnd demoPeer)\<lparr>hs_net := quietNet\<lparr>rx := c2s\<rparr>\<rparr>) = (Inr sres, ss')"
    using demo_run by blast
  then show ?thesis by (auto simp: ServerHandshakeContext_def demoEnd_def)
qed

theorem concurrent_handshake_once_witness:
  "\<exists>c (s :: hsSys) c1. hsReach demoPki (hsStart c) s \<and> hq_calls s 0 = HsReturned None \<and> hq_calls s 1 = HsReturned None \<and>
     hq_log s = [(0, None), (1, None)] \<and> hsSeq demoPki c (hq_log s) c1 \<and> cn_outCipher (hq_conn s) \<noteq> None"
proof -
  obtain res s' c2s where run: "ServerHandshakeContext demoPki (demoSide 5) (Some contextBackground)
      \<lparr>hs_net = quietNet\<lparr>rx := c2s\<rparr>, hs_cfg = Some demoPeer\<rparr> = (Inr res, s')" using demo_server_run by blast
  let ?c = "NewServerConn (quietNet\<lparr>rx := c2s\<rparr>) (Some demoPeer)"
  let ?got = "?c\<lparr>cn_rawConn := hs_net s', cn_cfg := hs_cfg s'\<rparr>"
  have p: "hsProtocol demoPki (demoSide 5) None ?c = (HsStoring res, ?got)"
    using run by (simp add: hsProtocol_def NewServerConn_def newConn_def)
  have c: "\<not> cn_handshakeDone ?c" "cn_handshakeErr ?c = None" by (simp_all add: NewServerConn_def newConn_def)
  let ?a = "hsNext 0 HsWaiting ?c (hsStart ?c)" let ?b = "hsNext 1 HsWaiting ?c ?a" let ?d = "hsNext 0 HsRunning ?c ?b"
  let ?e = "hsNext 0 (HsStoring res) ?got ?d" let ?f = "hsNext 0 HsPublishing (hsStore res ?got) ?e"
  let ?h = "hsNext 0 (HsReturned None) ((hsStore res ?got)\<lparr>cn_handshakeDone := True\<rparr>) ?f"
  let ?k = "hsNext 1 (HsReturned None) ((hsStore res ?got)\<lparr>cn_handshakeDone := True\<rparr>) ?h"
  note steps =
    hsStep.hs_fast[of "hsStart ?c" 0 demoPki, simplified] hsStep.hs_fast[of ?a 1 demoPki, simplified]
    hsStep.hs_lock[of ?b 0 demoPki, simplified] hsStep.hs_run[of ?d 0 demoPki "demoSide 5" None "HsStoring res" ?got, simplified]
    hsStep.hs_store[of ?e 0 res demoPki, simplified] hsStep.hs_publish[of ?f 0 demoPki, simplified] hsStep.hs_lock[of ?h 1 demoPki, simplified]
  have steps: "hsStep demoPki (hsStart ?c) ?a" "hsStep demoPki ?a ?b" "hsStep demoPki ?b ?d" "hsStep demoPki ?d ?e"
    "hsStep demoPki ?e ?f" "hsStep demoPki ?f ?h" "hsStep demoPki ?h ?k"
    using steps c p by (simp_all add: hsFast_def hsCheck_def)
  have r: "hsReach demoPki (hsStart ?c) ?k" by (rule hsReach_start[THEN hsReach_step[OF _ steps(1)], THEN hsReach_step[OF _ steps(2)],
        THEN hsReach_step[OF _ steps(3)], THEN hsReach_step[OF _ steps(4)], THEN hsReach_step[OF _ steps(5)],
        THEN hsReach_step[OF _ steps(6)], THEN hsReach_step[OF _ steps(7)]])
  have k: "hq_calls ?k 0 = HsReturned None" "hq_calls ?k 1 = HsReturned None" "hq_log ?k = [(0, None), (1, None)]"
    by (simp_all add: hsNext_def hsStart_def)
  have "connInv ?c" by (simp add: NewServerConn_def newConn_inv)
  from concurrent_handshake_once[OF this r] k r show ?thesis by blast
qed

end
