(* ===== verification/Conn_Locks.thy ===== *)
theory Conn_Locks
  imports Conn_Stream
begin

text \<open>
  The locks of an established connection (\<^verbatim>\<open>conn.go\<close>). Any number of \<^verbatim>\<open>Write\<close> and \<^verbatim>\<open>Close\<close> calls run at the same time. Each is cut
  where another call can get in between: where it waits for \<^verbatim>\<open>writeMu\<close> or \<^verbatim>\<open>closeOnce\<close> and around the calls on the transport, which may
  stall. The lemmas show that the calls behave as if their locked sections ran one after the other, that they all finish
  when the transport does not stall, and what a stalled \<^verbatim>\<open>Write\<close> does to \<^verbatim>\<open>Close\<close>.
\<close>

section \<open>The turns of a call\<close>

datatype outCall = WriteCall bytes | CloseCall

text \<open>
  Where a call is: not begun; at the head of the loop of \<^verbatim>\<open>Write\<close>, with what is left of the argument and \<^verbatim>\<open>totalSent\<close>; in
  \<^verbatim>\<open>rawConn.Write\<close> with a sealed record; in \<^verbatim>\<open>Close\<close> before \<^verbatim>\<open>writeMu.Lock\<close>, in the \<^verbatim>\<open>rawConn.Write\<close> of the alert, and before
  \<^verbatim>\<open>rawConn.Close\<close> with \<^verbatim>\<open>alertErr\<close>; returned.
\<close>

datatype outPhase = Called | Writing bytes nat | Sending bytes bytes nat | Closing | Notifying bytes | RawClosing "goerr option"
  | WriteReturned "nat \<times> goerr option" | CloseReturned "goerr option"

definition chunkOf :: "bytes \<Rightarrow> nat" where
  "chunkOf b = (if length b > MaxPlaintextLength then MaxPlaintextLength else length b)"

text \<open>The loop of \<^verbatim>\<open>Write\<close> from its head to the call of \<^verbatim>\<open>writeFull\<close>, and the rest of a turn.\<close>

definition sealTurn :: "bytes \<Rightarrow> nat \<Rightarrow> Conn \<Rightarrow> outPhase \<times> Conn" where
  "sealTurn b totalSent c =
     (if \<not> length b > 0 then (WriteReturned (totalSent, None), c)
      else case cn_outCipher c of
        None \<Rightarrow> (WriteReturned (totalSent, Some (Panic ''nil pointer dereference'')), c)
      | Some rc \<Rightarrow>
          (case Seal RecordTypeApplicationData (take (chunkOf b) b) rc of
             (Inl err, rc1) \<Rightarrow> (WriteReturned (totalSent, Some (ErrWrap ''teetls: seal record'' err)), c\<lparr>cn_outCipher := Some rc1\<rparr>)
           | (Inr record, rc1) \<Rightarrow> (Sending record b totalSent, c\<lparr>cn_outCipher := Some rc1\<rparr>)))"

definition sendTurn :: "bytes \<Rightarrow> bytes \<Rightarrow> nat \<Rightarrow> Conn \<Rightarrow> outPhase \<times> Conn" where
  "sendTurn record b totalSent c =
     (case writeFull record (cn_rawConn c) of
        (Inl err, n) \<Rightarrow> (WriteReturned (totalSent, Some err), c\<lparr>cn_rawConn := n\<rparr>)
      | (Inr _, n) \<Rightarrow> (Writing (drop (chunkOf b) b) (totalSent + chunkOf b), c\<lparr>cn_rawConn := n\<rparr>))"

text \<open>
  The locked section of \<^verbatim>\<open>Close\<close>, which is entered only with a cipher, up to the call of \<^verbatim>\<open>writeFull\<close>, and from there to \<^verbatim>\<open>writeMu.Unlock\<close>; then
  \<^verbatim>\<open>rawConn.Close\<close>.
\<close>

definition alertTurn :: "gotime \<Rightarrow> Conn \<Rightarrow> outPhase \<times> Conn" where
  "alertTurn now c =
     (case cn_outCipher c of
        None \<Rightarrow> (RawClosing None, c)
      | Some rc \<Rightarrow>
          (case Seal RecordTypeAlert [1, 0] rc of
             (Inl err, rc1) \<Rightarrow> (RawClosing (Some (ErrWrap ''teetls: seal close_notify'' err)), c\<lparr>cn_outCipher := Some rc1\<rparr>)
           | (Inr record, rc1) \<Rightarrow>
               (case setWriteDeadline (now + 500 * nsMillisecond) (cn_rawConn c) of
                  (Inl err, n) \<Rightarrow> (RawClosing (Some (ErrWrap ''teetls: set close_notify deadline'' err)),
                                     c\<lparr>cn_outCipher := Some rc1, cn_rawConn := n\<rparr>)
                | (Inr _, n) \<Rightarrow> (Notifying record, c\<lparr>cn_outCipher := Some rc1, cn_rawConn := n\<rparr>))))"

definition notifyTurn :: "bytes \<Rightarrow> Conn \<Rightarrow> outPhase \<times> Conn" where
  "notifyTurn record c =
     (case writeFull record (cn_rawConn c) of
        (Inl err, n) \<Rightarrow> (RawClosing (Some (ErrWrap ''teetls: write close_notify'' err)), c\<lparr>cn_rawConn := n\<rparr>)
      | (Inr _, n) \<Rightarrow> (RawClosing None, c\<lparr>cn_rawConn := n\<rparr>))"

definition closeTurn :: "goerr option \<Rightarrow> Conn \<Rightarrow> outPhase \<times> Conn" where
  "closeTurn alertErr c =
     (case netClose (cn_rawConn c) of
        (rawErr, n) \<Rightarrow> (CloseReturned (errorsJoin alertErr rawErr),
          c\<lparr>cn_rawConn := n, cn_closed := True, cn_closeErr := errorsJoin alertErr rawErr\<rparr>))"

text \<open>The next turn of a call. A \<^verbatim>\<open>Write\<close> on an established connection passes \<^verbatim>\<open>Handshake\<close> at once.\<close>

fun turn :: "gotime \<Rightarrow> outCall \<Rightarrow> outPhase \<Rightarrow> Conn \<Rightarrow> outPhase \<times> Conn" where
  "turn now (WriteCall b) Called c = (Writing b 0, c)"
| "turn now CloseCall Called c =
     (if cn_closed c then CloseReturned (cn_closeErr c)
      else if cn_handshakeDone c \<and> cn_outCipher c \<noteq> None then Closing else RawClosing None, c)"
| "turn now k (Writing b totalSent) c = sealTurn b totalSent c"
| "turn now k (Sending record b totalSent) c = sendTurn record b totalSent c"
| "turn now k Closing c = alertTurn now c"
| "turn now k (Notifying record) c = notifyTurn record c"
| "turn now k (RawClosing e) c = closeTurn e c"
| "turn now k p c = (p, c)"

section \<open>Calls that run at the same time\<close>

text \<open>
  \<open>os_mu\<close> is the call that holds \<^verbatim>\<open>writeMu\<close>, \<open>os_once\<close> the one that runs the function of \<^verbatim>\<open>closeOnce\<close>. The log is what the locked sections and
  \<^verbatim>\<open>rawConn.Close\<close> did, in order.
\<close>

datatype outEvent = Wrote nat bytes "nat \<times> goerr option" | Notified nat "goerr option" | RawClosed nat "goerr option"

record outSys =
  os_conn :: Conn
  os_mu :: "nat option"
  os_once :: "nat option"
  os_calls :: "(outCall \<times> outPhase) list"
  os_log :: "outEvent list"

fun holdsMu :: "outPhase \<Rightarrow> bool" where
  "holdsMu (Writing b t) = True"
| "holdsMu (Sending rec b t) = True"
| "holdsMu (Notifying rec) = True"
| "holdsMu p = False"

fun returned :: "outPhase \<Rightarrow> bool" where
  "returned (WriteReturned w) = True"
| "returned (CloseReturned r) = True"
| "returned p = False"

text \<open>Whether a call can take its turn: \<open>stalls n\<close> tells that a \<^verbatim>\<open>Write\<close> on the transport \<open>n\<close> does not return.\<close>

fun ready :: "(net \<Rightarrow> bool) \<Rightarrow> outSys \<Rightarrow> outCall \<Rightarrow> outPhase \<Rightarrow> bool" where
  "ready stalls s (WriteCall b) Called = (os_mu s = None)"
| "ready stalls s CloseCall Called = (cn_closed (os_conn s) \<or> os_once s = None)"
| "ready stalls s k (Writing b t) = True"
| "ready stalls s k (Sending rec b t) = (\<not> stalls (cn_rawConn (os_conn s)))"
| "ready stalls s k Closing = (os_mu s = None)"
| "ready stalls s k (Notifying rec) = (\<not> stalls (cn_rawConn (os_conn s)))"
| "ready stalls s k (RawClosing e) = True"
| "ready stalls s k p = False"

fun eventOf :: "nat \<Rightarrow> outCall \<Rightarrow> outPhase \<Rightarrow> outPhase \<Rightarrow> outEvent list" where
  "eventOf i (WriteCall b) p (WriteReturned w) = [Wrote i b w]"
| "eventOf i k Closing (RawClosing e) = [Notified i e]"
| "eventOf i k (Notifying rec) (RawClosing e) = [Notified i e]"
| "eventOf i k (RawClosing e) (CloseReturned r) = [RawClosed i r]"
| "eventOf i k p p' = []"

definition afterTurn :: "nat \<Rightarrow> outCall \<Rightarrow> outPhase \<Rightarrow> outPhase \<Rightarrow> Conn \<Rightarrow> outSys \<Rightarrow> outSys" where
  "afterTurn i k p p' c s = s\<lparr>os_conn := c,
     os_mu := (if holdsMu p' then Some i else if holdsMu p then None else os_mu s),
     os_once := (if k = CloseCall \<and> p = Called \<and> \<not> cn_closed (os_conn s) then Some i else os_once s),
     os_calls := (os_calls s)[i := (k, p')], os_log := os_log s @ eventOf i k p p'\<rparr>"

inductive outStep :: "(net \<Rightarrow> bool) \<Rightarrow> outSys \<Rightarrow> outSys \<Rightarrow> bool" for stalls where
  take_turn: "i < length (os_calls s) \<Longrightarrow> os_calls s ! i = (k, p) \<Longrightarrow> ready stalls s k p \<Longrightarrow>
    turn now k p (os_conn s) = (p', c) \<Longrightarrow> outStep stalls s (afterTurn i k p p' c s)"

abbreviation outReach :: "(net \<Rightarrow> bool) \<Rightarrow> outSys \<Rightarrow> outSys \<Rightarrow> bool" where
  "outReach stalls \<equiv> reach (outStep stalls)"

definition outStart :: "Conn \<Rightarrow> outCall list \<Rightarrow> outSys" where
  "outStart c calls = \<lparr>os_conn = c, os_mu = None, os_once = None, os_calls = map (\<lambda>k. (k, Called)) calls, os_log = []\<rparr>"

lemmas turn_defs = sealTurn_def sendTurn_def alertTurn_def notifyTurn_def closeTurn_def

section \<open>The locks\<close>

text \<open>
  \<^verbatim>\<open>writeMu\<close> is held by the one call that is in a locked section. The function of \<^verbatim>\<open>closeOnce\<close> is run by one call, and has not
  come to its end unless the connection is closed.
\<close>

fun inOnce :: "outPhase \<Rightarrow> bool" where
  "inOnce Closing = True"
| "inOnce (Notifying rec) = True"
| "inOnce (RawClosing e) = True"
| "inOnce p = False"

fun fits :: "outCall \<Rightarrow> outPhase \<Rightarrow> bool" where
  "fits k Called = True"
| "fits k (Writing b t) = (k \<noteq> CloseCall)"
| "fits k (Sending rec b t) = (k \<noteq> CloseCall)"
| "fits k (WriteReturned w) = (k \<noteq> CloseCall)"
| "fits k p = (k = CloseCall)"

definition lockInv :: "outSys \<Rightarrow> bool" where
  "lockInv s \<longleftrightarrow>
     (\<forall>i < length (os_calls s). fits (fst (os_calls s ! i)) (snd (os_calls s ! i)) \<and>
        (holdsMu (snd (os_calls s ! i)) \<longleftrightarrow> os_mu s = Some i) \<and>
        (inOnce (snd (os_calls s ! i)) \<longleftrightarrow> os_once s = Some i \<and> \<not> cn_closed (os_conn s))) \<and>
     (\<forall>i. os_mu s = Some i \<or> os_once s = Some i \<longrightarrow> i < length (os_calls s)) \<and>
     (cn_closed (os_conn s) \<longrightarrow> os_once s \<noteq> None)"

lemma turn_fits: "turn now k p c = (p', c') \<Longrightarrow> fits k p \<Longrightarrow> fits k p'"
  by (cases k; cases p) (auto simp: turn_defs split: if_splits option.splits prod.splits sum.splits)

lemma turn_closed:
  "turn now k p c = (p', c') \<Longrightarrow> cn_closed c' = (cn_closed c \<or> (\<exists>e. p = RawClosing e))"
  by (cases k; cases p) (auto simp: turn_defs netClose_def split: if_splits option.splits prod.splits sum.splits)

lemma turn_inOnce:
  "turn now k p c = (p', c') \<Longrightarrow> fits k p \<Longrightarrow>
     inOnce p' = (if k = CloseCall \<and> p = Called then \<not> cn_closed c else inOnce p \<and> (\<forall>e. p \<noteq> RawClosing e))"
  by (cases k; cases p) (auto simp: turn_defs netClose_def split: if_splits option.splits prod.splits sum.splits)

lemma ready_holds: "ready stalls s k p \<Longrightarrow> turn now k p c = (p', c') \<Longrightarrow> fits k p \<Longrightarrow> holdsMu p' \<Longrightarrow> holdsMu p \<or> os_mu s = None"
  by (cases k; cases p) (auto simp: turn_defs netClose_def split: if_splits option.splits prod.splits sum.splits)

lemma outStart_inv: "\<not> cn_closed c \<Longrightarrow> lockInv (outStart c calls)"
  by (auto simp: lockInv_def outStart_def)

lemma lockInv_call:
  assumes "lockInv s" "i < length (os_calls s)" "os_calls s ! i = (k, p)"
  shows "fits k p" "holdsMu p \<longleftrightarrow> os_mu s = Some i" "inOnce p \<longleftrightarrow> os_once s = Some i \<and> \<not> cn_closed (os_conn s)"
proof -
  have "fits (fst (os_calls s ! i)) (snd (os_calls s ! i)) \<and> (holdsMu (snd (os_calls s ! i)) \<longleftrightarrow> os_mu s = Some i) \<and>
    (inOnce (snd (os_calls s ! i)) \<longleftrightarrow> os_once s = Some i \<and> \<not> cn_closed (os_conn s))"
    using assms(1,2) unfolding lockInv_def by blast
  then show "fits k p" "holdsMu p \<longleftrightarrow> os_mu s = Some i" "inOnce p \<longleftrightarrow> os_once s = Some i \<and> \<not> cn_closed (os_conn s)"
    unfolding assms(3) by simp_all
qed

lemma lockInv_exclusive:
  assumes "lockInv s" "i < length (os_calls s)" "j < length (os_calls s)" "holdsMu (snd (os_calls s ! i))" "holdsMu (snd (os_calls s ! j))"
  shows "i = j"
  using lockInv_call(2)[OF assms(1,2) prod.collapse[symmetric]] lockInv_call(2)[OF assms(1,3) prod.collapse[symmetric]] assms(4,5) by simp

lemma outStep_lockInv:
  assumes "outStep stalls s s'" "lockInv s"
  shows "lockInv s'"
  using assms(1)
proof (cases rule: outStep.cases)
  case (take_turn i k p now p' c)
  note inv = lockInv_call[OF assms(2) take_turn(2,3)]
  note t = take_turn(5)
  note facts = turn_fits[OF t inv(1)] turn_closed[OF t] turn_inOnce[OF t inv(1)] ready_holds[OF take_turn(4) t inv(1)]
  have rc: "p = RawClosing e \<Longrightarrow> inOnce p" for e by simp
  have once: "k = CloseCall \<Longrightarrow> p = Called \<Longrightarrow> \<not> cn_closed (os_conn s) \<Longrightarrow> os_once s = None"
    using take_turn(4) by auto
  have others: "fits (fst (os_calls s ! j)) (snd (os_calls s ! j))" "holdsMu (snd (os_calls s ! j)) \<longleftrightarrow> os_mu s = Some j"
    "inOnce (snd (os_calls s ! j)) \<longleftrightarrow> os_once s = Some j \<and> \<not> cn_closed (os_conn s)" if "j < length (os_calls s)" for j
    using lockInv_call[OF assms(2) that, of "fst (os_calls s ! j)" "snd (os_calls s ! j)"] by auto
  have range: "os_mu s = Some j \<Longrightarrow> j < length (os_calls s)" "os_once s = Some j \<Longrightarrow> j < length (os_calls s)"
    "cn_closed (os_conn s) \<Longrightarrow> os_once s \<noteq> None" for j using assms(2) by (simp_all add: lockInv_def)
  show ?thesis unfolding lockInv_def take_turn(1)
  proof (intro conjI allI impI)
    fix j
    assume "j < length (os_calls (afterTurn i k p p' c s))"
    then have j: "j < length (os_calls s)" by (simp add: afterTurn_def)
    let ?call = "os_calls (afterTurn i k p p' c s) ! j"
    have call: "?call = (if j = i then (k, p') else os_calls s ! j)" using j by (simp add: afterTurn_def)
    show "fits (fst ?call) (snd ?call)" using facts(1) others(1)[OF j] by (simp add: call)
    show "holdsMu (snd ?call) \<longleftrightarrow> os_mu (afterTurn i k p p' c s) = Some j"
      unfolding call using facts(4) inv(2) others(2)[OF j] by (auto simp: afterTurn_def)
    show "inOnce (snd ?call) \<longleftrightarrow> os_once (afterTurn i k p p' c s) = Some j \<and> \<not> cn_closed (os_conn (afterTurn i k p p' c s))"
      unfolding call using facts(2,3) inv(3) others(3)[OF j] once rc by (auto simp: afterTurn_def)
  next
    show "cn_closed (os_conn (afterTurn i k p p' c s)) \<Longrightarrow> os_once (afterTurn i k p p' c s) \<noteq> None"
      using facts(2) inv(3) rc range(3) by (auto simp: afterTurn_def)
    show "j < length (os_calls (afterTurn i k p p' c s))"
      if "os_mu (afterTurn i k p p' c s) = Some j \<or> os_once (afterTurn i k p p' c s) = Some j" for j
      using that take_turn(2) range(1,2) by (auto simp: afterTurn_def split: if_splits)
  qed
qed

interpretation locks: step_invariant "outStep stalls" lockInv for stalls
  by unfold_locales (rule outStep_lockInv)

lemma outReach_lockInv: "outReach stalls (outStart c calls) s \<Longrightarrow> \<not> cn_closed c \<Longrightarrow> lockInv s"
  using locks.reach_inv outStart_inv by blast

section \<open>Progress\<close>

text \<open>Every turn brings its call closer to its end.\<close>

fun togo :: "outPhase \<Rightarrow> outCall \<Rightarrow> nat" where
  "togo Called (WriteCall b) = 2 * length b + 2"
| "togo Called CloseCall = 4"
| "togo (Writing b t) k = 2 * length b + 1"
| "togo (Sending rec b t) k = 2 * (length b - chunkOf b) + 2"
| "togo Closing k = 3"
| "togo (Notifying rec) k = 2"
| "togo (RawClosing e) k = 1"
| "togo p k = 0"

definition outstanding :: "outSys \<Rightarrow> nat" where
  "outstanding s = (\<Sum>(k, p) \<leftarrow> os_calls s. togo p k)"

lemma chunkOf_pos: "b \<noteq> [] \<Longrightarrow> 0 < chunkOf b \<and> chunkOf b \<le> length b"
  by (simp add: chunkOf_def MaxPlaintextLength_def)

lemma turn_togo: "ready stalls s k p \<Longrightarrow> turn now k p c = (p', c') \<Longrightarrow> togo p' k < togo p k"
proof (cases p)
  case (Writing b t)
  assume "ready stalls s k p" "turn now k p c = (p', c')"
  with Writing chunkOf_pos[of b] show ?thesis
    by (cases "b = []"; cases k) (auto simp: sealTurn_def split: option.splits prod.splits sum.splits)
qed (cases k; auto simp: turn_defs netClose_def split: if_splits option.splits prod.splits sum.splits)+

lemma sum_list_update_less:
  fixes f :: "'a \<Rightarrow> nat"
  assumes "i < length xs" "f y < f (xs ! i)"
  shows "(\<Sum>x \<leftarrow> xs[i := y]. f x) < (\<Sum>x \<leftarrow> xs. f x)"
  using assms by (induction xs arbitrary: i) (auto split: nat.splits)

lemma outStep_outstanding: "outStep stalls s s' \<Longrightarrow> outstanding s' < outstanding s"
proof (cases rule: outStep.cases, assumption)
  fix i k p now p' c
  assume "s' = afterTurn i k p p' c s" "i < length (os_calls s)" "os_calls s ! i = (k, p)" "ready stalls s k p" "turn now k p (os_conn s) = (p', c)"
  then show "outstanding s' < outstanding s"
    unfolding outstanding_def using turn_togo[of stalls s k p now "os_conn s" p' c]
    by (auto simp: afterTurn_def intro!: sum_list_update_less)
qed

lemma ready_unstalled:
  assumes "lockInv s" "\<forall>n. \<not> stalls n" "i < length (os_calls s)" "\<not> returned (snd (os_calls s ! i))"
  shows "\<exists>j < length (os_calls s). ready stalls s (fst (os_calls s ! j)) (snd (os_calls s ! j))"
proof (cases "os_mu s")
  case (Some j)
  then have j: "j < length (os_calls s)" "holdsMu (snd (os_calls s ! j))" using assms(1) by (auto simp: lockInv_def)
  then have "ready stalls s (fst (os_calls s ! j)) (snd (os_calls s ! j))"
    using assms(2) by (cases "os_calls s ! j"; cases "snd (os_calls s ! j)") auto
  with j(1) show ?thesis by blast
next
  case None
  show ?thesis
  proof (cases "ready stalls s (fst (os_calls s ! i)) (snd (os_calls s ! i))")
    case False
    then have "\<not> cn_closed (os_conn s)" "os_once s \<noteq> None"
      using assms(2,4) None by (cases "os_calls s ! i"; cases "fst (os_calls s ! i)"; cases "snd (os_calls s ! i)"; auto)+
    then obtain j where j: "j < length (os_calls s)" "inOnce (snd (os_calls s ! j))" using assms(1) by (auto simp: lockInv_def)
    then have "ready stalls s (fst (os_calls s ! j)) (snd (os_calls s ! j))"
      using assms(2) None by (cases "os_calls s ! j"; cases "snd (os_calls s ! j)") auto
    with j(1) show ?thesis by blast
  qed (use assms(3) in blast)
qed

lemma outStep_exists:
  assumes "lockInv s" "\<forall>n. \<not> stalls n" "i < length (os_calls s)" "\<not> returned (snd (os_calls s ! i))"
  shows "\<exists>s'. outStep stalls s s'"
proof -
  obtain j where j: "j < length (os_calls s)" "ready stalls s (fst (os_calls s ! j)) (snd (os_calls s ! j))"
    using ready_unstalled[OF assms] by blast
  obtain p' c where "turn 0 (fst (os_calls s ! j)) (snd (os_calls s ! j)) (os_conn s) = (p', c)" by fastforce
  from outStep.take_turn[OF j(1) _ j(2) this] show ?thesis by auto
qed

interpretation turns: step_progress "outStep stalls" lockInv outstanding for stalls
  by unfold_locales (rule outStep_outstanding)

lemma runs_to_end:
  assumes "lockInv s" "\<forall>n. \<not> stalls n"
  shows "\<exists>s'. outReach stalls s s' \<and> (\<forall>(k, p) \<in> set (os_calls s'). returned p)"
proof -
  obtain s' where s': "outReach stalls s s'" "lockInv s'" "\<not> (\<exists>t. outStep stalls s' t)" using turns.reaches_end[OF assms(1)] by blast
  then have "returned (snd (os_calls s' ! i))" if "i < length (os_calls s')" for i using outStep_exists[OF _ assms(2) that] by blast
  then have "\<forall>x \<in> set (os_calls s'). returned (snd x)" by (simp add: all_set_conv_all_nth)
  with s'(1) show ?thesis by fastforce
qed

section \<open>One section after the other\<close>

text \<open>
  The specification: whole \<^verbatim>\<open>Write\<close> calls, whole transmissions of the alert and calls of \<^verbatim>\<open>rawConn.Close\<close>, one after the other. A \<^verbatim>\<open>Close\<close>
  returns the error of the transport joined with that of its own alert, which it has sent before.
\<close>

definition shut :: "goerr option \<Rightarrow> Conn \<Rightarrow> Conn" where
  "shut err c = c\<lparr>cn_rawConn := (cn_rawConn c)\<lparr>net_closed := True\<rparr>, cn_closed := True, cn_closeErr := err\<rparr>"

inductive outSeq :: "gmsm \<Rightarrow> Conn \<Rightarrow> outEvent list \<Rightarrow> Conn \<Rightarrow> bool" for g c0 where
  seq_none: "outSeq g c0 [] c0"
| seq_write: "outSeq g c0 log c \<Longrightarrow> Conn_Write g env b c = (w, c') \<Longrightarrow> outSeq g c0 (log @ [Wrote i b w]) c'"
| seq_notify: "outSeq g c0 log c \<Longrightarrow> cn_outCipher c = Some rc \<Longrightarrow> sendCloseNotify now rc c = (e, c') \<Longrightarrow>
    outSeq g c0 (log @ [Notified i e]) c'"
| seq_close: "outSeq g c0 log c \<Longrightarrow> Notified i e \<in> set log \<Longrightarrow> outSeq g c0 (log @ [RawClosed i (errorsJoin e (close_err (cn_rawConn c)))])
    (shut (errorsJoin e (close_err (cn_rawConn c))) c)"

text \<open>What is left of a locked section, run without interruption.\<close>

definition sendRest :: "bytes \<Rightarrow> bytes \<Rightarrow> nat \<Rightarrow> Conn \<Rightarrow> (nat \<times> goerr option) \<times> Conn" where
  "sendRest rec b t c =
     (case writeFull rec (cn_rawConn c) of
        (Inl err, n) \<Rightarrow> ((t, Some err), c\<lparr>cn_rawConn := n\<rparr>)
      | (Inr _, n) \<Rightarrow> writeLoop (drop (chunkOf b) b) (t + chunkOf b) (c\<lparr>cn_rawConn := n\<rparr>))"

definition notifyRest :: "bytes \<Rightarrow> Conn \<Rightarrow> goerr option \<times> Conn" where
  "notifyRest rec c =
     (case writeFull rec (cn_rawConn c) of
        (Inl err, n) \<Rightarrow> (Some (ErrWrap ''teetls: write close_notify'' err), c\<lparr>cn_rawConn := n\<rparr>)
      | (Inr _, n) \<Rightarrow> (None, c\<lparr>cn_rawConn := n\<rparr>))"

text \<open>The section in progress, from here, ends as the whole section would from \<open>c1\<close>.\<close>

fun sectionFrom :: "Conn \<Rightarrow> Conn \<Rightarrow> outCall \<times> outPhase \<Rightarrow> bool" where
  "sectionFrom c1 c (WriteCall b0, Writing b t) = (writeLoop b t c = writeLoop b0 0 c1)"
| "sectionFrom c1 c (WriteCall b0, Sending rec b t) = (sendRest rec b t c = writeLoop b0 0 c1)"
| "sectionFrom c1 c (CloseCall, Notifying rec) = (\<exists>now rc. cn_outCipher c1 = Some rc \<and> notifyRest rec c = sendCloseNotify now rc c1)"
| "sectionFrom c1 c kp = False"

lemma writeLoop_turn:
  "writeLoop b t c = (case sealTurn b t c of
     (WriteReturned w, c') \<Rightarrow> (w, c') | (Sending rec b' t', c') \<Rightarrow> sendRest rec b' t' c' | (p, c') \<Rightarrow> undefined)"
  by (subst writeLoop.simps)
    (auto simp: sealTurn_def sendRest_def chunkOf_def Let_def split: option.splits prod.splits sum.splits)

lemma sendRest_turn:
  "sendRest rec b t c = (case sendTurn rec b t c of
     (WriteReturned w, c') \<Rightarrow> (w, c') | (Writing b' t', c') \<Rightarrow> writeLoop b' t' c' | (p, c') \<Rightarrow> undefined)"
  by (auto simp: sendRest_def sendTurn_def split: prod.splits sum.splits)

lemma sendCloseNotify_turn:
  "cn_outCipher c = Some rc \<Longrightarrow> sendCloseNotify now rc c = (case alertTurn now c of
     (RawClosing e, c') \<Rightarrow> (e, c') | (Notifying rec, c') \<Rightarrow> notifyRest rec c' | (p, c') \<Rightarrow> undefined)"
  by (auto simp: sendCloseNotify_def alertTurn_def notifyRest_def split: prod.splits sum.splits)

lemma notifyRest_turn: "notifyRest rec c = (case notifyTurn rec c of (RawClosing e, c') \<Rightarrow> (e, c') | (p, c') \<Rightarrow> undefined)"
  by (auto simp: notifyRest_def notifyTurn_def split: prod.splits sum.splits)

text \<open>\<^verbatim>\<open>rawConn.Close\<close> in the middle of a section is as good as before it.\<close>

lemma writeFull_shut: "writeFull p (n\<lparr>net_closed := True\<rparr>) = (case writeFull p n of (u, n') \<Rightarrow> (u, n'\<lparr>net_closed := True\<rparr>))"
  by (auto simp: writeFull_def connWrite_def split: list.splits option.splits prod.splits)

lemma shut_simps:
  "cn_rawConn (shut e c) = (cn_rawConn c)\<lparr>net_closed := True\<rparr>" "cn_outCipher (shut e c) = cn_outCipher c"
  "(shut e c)\<lparr>cn_rawConn := n\<lparr>net_closed := True\<rparr>\<rparr> = shut e (c\<lparr>cn_rawConn := n\<rparr>)"
  "(shut e c)\<lparr>cn_outCipher := z\<rparr> = shut e (c\<lparr>cn_outCipher := z\<rparr>)"
  "cn_handshakeDone (shut e c) = cn_handshakeDone c" "cn_closed (shut e c)"
  by (simp_all add: shut_def)

lemma writeLoop_shut: "writeLoop b t (shut e c) = (case writeLoop b t c of (w, c') \<Rightarrow> (w, shut e c'))"
proof (induction b arbitrary: t c rule: maxChunks.induct)
  case (1 b)
  show ?case
  proof (cases "b = []")
    case False
    show ?thesis unfolding writeLoop_step[OF False] shut_simps(1,2) writeFull_shut
      by (simp add: shut_simps(3,4) "1.IH"[OF False] split: option.splits prod.splits sum.splits)
  qed simp
qed

lemma sendRest_shut: "sendRest rec b t (shut e c) = (case sendRest rec b t c of (w, c') \<Rightarrow> (w, shut e c'))"
  by (simp add: sendRest_def shut_simps writeFull_shut writeLoop_shut split: prod.splits sum.splits)

lemma sectionFrom_shut: "sectionFrom c1 c (WriteCall b, p) \<Longrightarrow> sectionFrom (shut e c1) (shut e c) (WriteCall b, p)"
  by (cases p) (simp_all add: writeLoop_shut sendRest_shut)

text \<open>A turn stays in the section or ends it, with the result of the whole.\<close>

lemma write_section:
  "sectionFrom c1 c (WriteCall b0, p) \<Longrightarrow> turn now (WriteCall b0) p c = (p', c') \<Longrightarrow>
     if holdsMu p' then sectionFrom c1 c' (WriteCall b0, p') else \<exists>w. p' = WriteReturned w \<and> writeLoop b0 0 c1 = (w, c')"
proof (cases p)
  case (Writing b t)
  assume "sectionFrom c1 c (WriteCall b0, p)" "turn now (WriteCall b0) p c = (p', c')"
  with Writing writeLoop_turn[of b t c] show ?thesis
    by (auto simp: sealTurn_def split: if_splits option.splits prod.splits sum.splits)
next
  case (Sending rec b t)
  assume "sectionFrom c1 c (WriteCall b0, p)" "turn now (WriteCall b0) p c = (p', c')"
  with Sending sendRest_turn[of rec b t c] show ?thesis
    by (auto simp: sendTurn_def split: if_splits option.splits prod.splits sum.splits)
qed auto

lemma alert_section:
  "turn now CloseCall Closing c = (p', c') \<Longrightarrow> cn_outCipher c = Some rc \<Longrightarrow>
     if holdsMu p' then sectionFrom c c' (CloseCall, p') else \<exists>e. p' = RawClosing e \<and> sendCloseNotify now rc c = (e, c')"
  using sendCloseNotify_turn[of c rc now]
  by (auto simp: alertTurn_def split: if_splits option.splits prod.splits sum.splits intro!: exI[of _ now])

lemma notify_section:
  "sectionFrom c1 c (CloseCall, p) \<Longrightarrow> turn now CloseCall p c = (p', c') \<Longrightarrow>
     \<exists>e rc t. p' = RawClosing e \<and> cn_outCipher c1 = Some rc \<and> sendCloseNotify t rc c1 = (e, c')"
  using notifyRest_turn by (cases p) (fastforce simp: notifyTurn_def split: prod.splits sum.splits)+

lemma eventOf_held [simp]: "holdsMu p' \<Longrightarrow> eventOf i k p p' = []"
  by (cases k; cases p; cases p') auto

lemma idle_turn:
  "turn now k p c = (p', c') \<Longrightarrow> ready stalls s k p \<Longrightarrow> \<not> holdsMu p \<Longrightarrow> \<not> holdsMu p' \<Longrightarrow> p \<noteq> Closing \<Longrightarrow> \<forall>e. p \<noteq> RawClosing e \<Longrightarrow>
     c' = c \<and> eventOf i k p p' = []"
  by (cases k; cases p) (auto split: if_splits)

definition established :: "Conn \<Rightarrow> Conn \<Rightarrow> bool" where
  "established c0 c \<longleftrightarrow> cn_handshakeDone c \<and> cn_outCipher c \<noteq> None \<and> close_err (cn_rawConn c) = close_err (cn_rawConn c0)"

lemma writeFull_close_err: "writeFull p n = (r, n') \<Longrightarrow> close_err n' = close_err n"
  by (auto simp: writeFull_def connWrite_def split: list.splits option.splits prod.splits if_splits)

lemma turn_established: "turn now k p c = (p', c') \<Longrightarrow> established c0 c \<Longrightarrow> established c0 c'"
  by (cases k; cases p) (auto simp: turn_defs established_def netClose_def setWriteDeadline_def
      dest: writeFull_close_err split: if_splits option.splits prod.splits sum.splits)

definition simulates :: "gmsm \<Rightarrow> Conn \<Rightarrow> outSys \<Rightarrow> Conn \<Rightarrow> bool" where
  "simulates g c0 s c1 \<longleftrightarrow> outSeq g c0 (os_log s) c1 \<and> established c0 c1 \<and>
     (case os_mu s of None \<Rightarrow> os_conn s = c1 | Some i \<Rightarrow> sectionFrom c1 (os_conn s) (os_calls s ! i))"

lemma simulates_seq:
  assumes "simulates g c0 s c1"
  shows "outSeq g c0 (os_log s) c1" and "writeLoop b 0 c1 = (w, c') \<Longrightarrow> outSeq g c0 (os_log s @ [Wrote i b w]) c'"
proof -
  have seq: "outSeq g c0 (os_log s) c1" "cn_handshakeDone c1" using assms by (auto simp: simulates_def established_def)
  then show "outSeq g c0 (os_log s) c1" by blast
  assume "writeLoop b 0 c1 = (w, c')"
  then show "outSeq g c0 (os_log s @ [Wrote i b w]) c'"
    by (intro outSeq.seq_write[OF seq(1)]) (simp add: Conn_Write_def Conn_Handshake_done seq(2))
qed

text \<open>A turn in a locked section, the turn that takes the lock, and one that does neither.\<close>

lemma held_simulates:
  assumes i: "i < length (os_calls s)" "os_calls s ! i = (k, p)" "os_mu s = Some i" "holdsMu p"
    and t: "turn now k p (os_conn s) = (p', c)" and sim: "simulates g c0 s c1" and est: "established c0 c"
  shows "\<exists>c1. simulates g c0 (afterTurn i k p p' c s) c1"
proof -
  have sec: "sectionFrom c1 (os_conn s) (k, p)" using sim i(2,3) by (simp add: simulates_def)
  show ?thesis
  proof (cases k)
    case (WriteCall b)
    with write_section[OF sec[unfolded WriteCall] t[unfolded WriteCall]] simulates_seq[OF sim] est i sim show ?thesis
      by (cases "holdsMu p'") (auto simp: simulates_def afterTurn_def intro: exI[of _ c1] exI[of _ c])
  next
    case CloseCall
    with notify_section[OF sec[unfolded CloseCall] t[unfolded CloseCall]] obtain e rc t' where
      e: "p' = RawClosing e" "cn_outCipher c1 = Some rc" "sendCloseNotify t' rc c1 = (e, c)" by blast
    from sec CloseCall obtain rec where "p = Notifying rec" by (cases p) auto
    with e outSeq.seq_notify[OF simulates_seq(1)[OF sim] e(2,3), of i] est show ?thesis
      by (intro exI[of _ c]) (simp add: simulates_def afterTurn_def)
  qed
qed

lemma free_simulates:
  assumes i: "i < length (os_calls s)" "fits k p" "os_mu s = None" "\<not> holdsMu p" "holdsMu p' \<or> p = Closing"
    and t: "turn now k p (os_conn s) = (p', c)" and sim: "simulates g c0 s c1" "established c0 (os_conn s)" and est: "established c0 c"
  shows "\<exists>c1. simulates g c0 (afterTurn i k p p' c s) c1"
proof -
  have c1: "os_conn s = c1" using sim(1) i(3) by (simp add: simulates_def)
  show ?thesis
  proof (cases "p = Closing")
    case True
    then have k: "k = CloseCall" using i(2) by simp
    obtain rc where rc: "cn_outCipher c1 = Some rc" using sim(2) c1 by (auto simp: established_def)
    note seq = simulates_seq(1)[OF sim(1)]
    from alert_section[OF t[unfolded k True c1] rc] outSeq.seq_notify[OF seq rc, of now] est seq sim(1) i c1 k True
    show ?thesis by (cases "holdsMu p'") (fastforce simp: simulates_def afterTurn_def)+
  next
    case False
    then obtain b where "k = WriteCall b" "p = Called" "p' = Writing b 0" "c = os_conn s"
      using i(2,4,5) t by (cases k; cases p) (auto simp: closeTurn_def netClose_def split: if_splits)
    with sim(1) c1 i show ?thesis by (intro exI[of _ c1]) (simp add: simulates_def afterTurn_def)
  qed
qed

lemma turn_simulates:
  assumes inv: "lockInv s" and i: "i < length (os_calls s)" "os_calls s ! i = (k, p)" "ready stalls s k p"
    and t: "turn now k p (os_conn s) = (p', c)" and sim: "simulates g c0 s c1" "established c0 (os_conn s)"
    and other: "\<forall>e. p \<noteq> RawClosing e"
  shows "\<exists>c1. simulates g c0 (afterTurn i k p p' c s) c1"
proof -
  note call = lockInv_call[OF inv i(1,2)]
  note est = turn_established[OF t sim(2)]
  consider (held) "holdsMu p" "os_mu s = Some i" | (free) "os_mu s = None" "\<not> holdsMu p" "holdsMu p' \<or> p = Closing"
    | (idle) "\<not> holdsMu p" "\<not> holdsMu p'" "p \<noteq> Closing"
    using call(2) i(3) ready_holds[OF i(3) t call(1)] by (cases p) auto
  then show ?thesis
  proof cases
    case held
    then show ?thesis using held_simulates[OF i(1,2) _ _ t sim(1) est] by blast
  next
    case free
    show ?thesis by (rule free_simulates[OF i(1) call(1) free t sim est])
  next
    case idle
    have "c = os_conn s" "eventOf i k p p' = []" using idle_turn[OF t i(3) idle other] by auto
    moreover have "os_mu s \<noteq> Some i" using idle call(2) by simp
    ultimately show ?thesis using sim(1) idle
      by (intro exI[of _ c1]) (auto simp: simulates_def afterTurn_def split: option.splits)
  qed
qed

text \<open>\<^verbatim>\<open>rawConn.Close\<close>, which holds no lock, perhaps in the middle of the section of a \<^verbatim>\<open>Write\<close>.\<close>

definition notified :: "outSys \<Rightarrow> bool" where
  "notified s \<longleftrightarrow> (\<forall>i k e. i < length (os_calls s) \<and> os_calls s ! i = (k, RawClosing e) \<longrightarrow> Notified i e \<in> set (os_log s))"

lemma turn_notified:
  "turn now k p c = (RawClosing e, c') \<Longrightarrow> ready stalls s k p \<Longrightarrow> fits k p \<Longrightarrow> established c0 c \<Longrightarrow>
     Notified i e \<in> set (eventOf i k p (RawClosing e))"
  by (cases k; cases p) (auto simp: turn_defs established_def split: if_splits option.splits prod.splits sum.splits)

lemma outStep_notified:
  assumes "outStep stalls s s'" "lockInv s" "established c0 (os_conn s)" "notified s"
  shows "notified s'"
  using assms(1)
proof (cases rule: outStep.cases)
  case (take_turn i k p now p' c)
  note new = turn_notified[OF _ take_turn(4) lockInv_call(1)[OF assms(2) take_turn(2,3)] assms(3), of now _ c i]
  show ?thesis unfolding take_turn(1) notified_def
  proof (intro allI impI)
    fix j k' e
    assume "j < length (os_calls (afterTurn i k p p' c s)) \<and> os_calls (afterTurn i k p p' c s) ! j = (k', RawClosing e)"
    then show "Notified j e \<in> set (os_log (afterTurn i k p p' c s))"
      using take_turn(2,5) new assms(4) by (cases "j = i") (auto simp: afterTurn_def notified_def)
  qed
qed

lemma close_simulates:
  assumes inv: "lockInv s" and i: "i < length (os_calls s)" "os_calls s ! i = (k, RawClosing e)"
    and t: "turn now k (RawClosing e) (os_conn s) = (p', c)" and sim: "simulates g c0 s c1" "established c0 (os_conn s)"
    and told: "notified s"
  shows "\<exists>c1. simulates g c0 (afterTurn i k (RawClosing e) p' c s) c1"
proof -
  note call = lockInv_call[OF inv i]
  let ?r = "errorsJoin e (close_err (cn_rawConn c1))"
  have "close_err (cn_rawConn (os_conn s)) = close_err (cn_rawConn c1)" using sim by (simp add: simulates_def established_def)
  then have c: "p' = CloseReturned ?r" "c = shut ?r (os_conn s)" using t by (auto simp: closeTurn_def netClose_def shut_def)
  have seq: "outSeq g c0 (os_log s @ [RawClosed i ?r]) (shut ?r c1)"
    using sim(1) outSeq.seq_close[of g c0 "os_log s" c1 i e] told i by (auto simp: simulates_def notified_def)
  have est: "established c0 (shut ?r c1)" using sim(1) by (simp add: simulates_def established_def shut_def)
  show ?thesis
  proof (cases "os_mu s")
    case None
    then show ?thesis using seq est c sim(1) by (intro exI[of _ "shut ?r c1"]) (simp add: simulates_def afterTurn_def)
  next
    case (Some j)
    then have j: "j < length (os_calls s)" "j \<noteq> i" and sec: "sectionFrom c1 (os_conn s) (os_calls s ! j)"
      using inv call(2) sim(1) by (auto simp: lockInv_def simulates_def)
    obtain b p where b: "os_calls s ! j = (WriteCall b, p)"
    proof (cases "os_calls s ! j")
      case (Pair k' p)
      have "\<not> inOnce p" using lockInv_call(3)[OF inv j(1) Pair] call(3) j(2) by auto
      with sec Pair that show ?thesis by (cases k'; cases p) auto
    qed
    show ?thesis using seq est c sec j b Some sectionFrom_shut[of c1 "os_conn s" b p ?r]
      by (intro exI[of _ "shut ?r c1"]) (simp add: simulates_def afterTurn_def)
  qed
qed

lemma outStep_established: "outStep stalls s s' \<Longrightarrow> established c0 (os_conn s) \<Longrightarrow> established c0 (os_conn s')"
  by (auto elim!: outStep.cases dest!: turn_established simp: afterTurn_def)

lemma outStep_simulates:
  assumes "outStep stalls s s'" "lockInv s" "established c0 (os_conn s)" "notified s" "simulates g c0 s c1"
  shows "\<exists>c1. simulates g c0 s' c1"
  using assms(1)
proof (cases rule: outStep.cases)
  case (take_turn i k p now p' c)
  show ?thesis
  proof (cases "\<exists>e. p = RawClosing e")
    case True
    then obtain e where e: "p = RawClosing e" by blast
    show ?thesis unfolding take_turn(1) e by (rule close_simulates[OF assms(2) take_turn(2) take_turn(3,5)[unfolded e] assms(5,3,4)])
  next
    case False
    then show ?thesis unfolding take_turn(1) using turn_simulates[OF assms(2) take_turn(2-5) assms(5,3)] by blast
  qed
qed

interpretation sections: step_simulation "outStep stalls" "\<lambda>s. lockInv s \<and> established c0 (os_conn s) \<and> notified s" "simulates g c0" for stalls c0 g
proof unfold_locales
  fix s s' a
  assume step: "outStep stalls s s'" and inv: "lockInv s \<and> established c0 (os_conn s) \<and> notified s"
  show "lockInv s' \<and> established c0 (os_conn s') \<and> notified s'"
    using step inv outStep_lockInv outStep_established outStep_notified by blast
  show "simulates g c0 s a \<Longrightarrow> \<exists>a'. simulates g c0 s' a'" using outStep_simulates[OF step] inv by blast
qed

lemma outReach_simulates:
  assumes "outReach stalls (outStart c calls) s" "cn_handshakeDone c" "cn_outCipher c \<noteq> None" "\<not> cn_closed c"
  shows "established c (os_conn s) \<and> (\<exists>c1. simulates g c s c1)"
proof -
  have "established c c" using assms(2,3) by (simp add: established_def)
  then have "simulates g c (outStart c calls) c" "established c (os_conn (outStart c calls))"
    "notified (outStart c calls)"
    by (simp_all add: outStart_def simulates_def outSeq.seq_none notified_def)
  then show ?thesis using sections.reach_related[OF assms(1)] outStart_inv[OF assms(4)] by blast
qed

text \<open>A \<^verbatim>\<open>Write\<close> has returned exactly when the log has it, with its argument and its result.\<close>

lemma eventOf_Wrote:
  "turn now k p c = (p', c') \<Longrightarrow> ready stalls s k p \<Longrightarrow> fits k p \<Longrightarrow>
     Wrote j b w \<in> set (eventOf i k p p') \<longleftrightarrow> j = i \<and> (k, p') = (WriteCall b, WriteReturned w)"
  by (cases k; cases p; cases p') (auto split: if_splits)

fun isWrote :: "outEvent \<Rightarrow> bool" where
  "isWrote (Wrote i b w) = True"
| "isWrote e = False"

lemma eventOf_wrote: "filter isWrote (eventOf i k p p') = [] \<or> (\<exists>b w. eventOf i k p p' = [Wrote i b w])"
  by (cases k; cases p; cases p') auto

definition logged :: "outSys \<Rightarrow> bool" where
  "logged s \<longleftrightarrow> (\<forall>i b w. Wrote i b w \<in> set (os_log s) \<longleftrightarrow>
     i < length (os_calls s) \<and> os_calls s ! i = (WriteCall b, WriteReturned w)) \<and> distinct (filter isWrote (os_log s))"

lemma outStep_logged:
  assumes "outStep stalls s s'" "lockInv s" "logged s"
  shows "logged s'"
  using assms(1)
proof (cases rule: outStep.cases)
  case (take_turn i k p now p' c)
  note ev = eventOf_Wrote[OF take_turn(5,4) lockInv_call(1)[OF assms(2) take_turn(2,3)]]
  have "\<not> returned p" using take_turn(4) by (cases k; cases p) auto
  then have new: "os_calls s ! i \<noteq> (WriteCall b, WriteReturned w)" for b w using take_turn(3) by auto
  have old: "Wrote j b w \<in> set (os_log s) \<longleftrightarrow> j < length (os_calls s) \<and> os_calls s ! j = (WriteCall b, WriteReturned w)" for j b w
    using assms(3) unfolding logged_def by blast
  show ?thesis unfolding logged_def take_turn(1)
  proof (intro conjI allI)
    show "distinct (filter isWrote (os_log (afterTurn i k p p' c s)))"
      using eventOf_wrote[of i k p p']
    proof
      assume "filter isWrote (eventOf i k p p') = []"
      then show ?thesis using assms(3) by (simp add: afterTurn_def logged_def)
    qed (use old new assms(3) in \<open>auto simp: afterTurn_def logged_def\<close>)
  next
    fix j b w
    have "Wrote j b w \<in> set (os_log (afterTurn i k p p' c s)) \<longleftrightarrow>
      Wrote j b w \<in> set (os_log s) \<or> Wrote j b w \<in> set (eventOf i k p p')" by (simp add: afterTurn_def)
    also have "\<dots> \<longleftrightarrow> j < length (os_calls s) \<and> (os_calls s)[i := (k, p')] ! j = (WriteCall b, WriteReturned w)"
      unfolding ev old using take_turn(2) new by (cases "j = i") auto
    finally show "Wrote j b w \<in> set (os_log (afterTurn i k p p' c s)) \<longleftrightarrow>
      j < length (os_calls (afterTurn i k p p' c s)) \<and> os_calls (afterTurn i k p p' c s) ! j = (WriteCall b, WriteReturned w)"
      by (simp add: afterTurn_def)
  qed
qed

interpretation log: step_invariant "outStep stalls" "\<lambda>s. lockInv s \<and> logged s" for stalls
  by unfold_locales (use outStep_lockInv outStep_logged in blast)

lemma outReach_logged: "outReach stalls (outStart c calls) s \<Longrightarrow> \<not> cn_closed c \<Longrightarrow> logged s"
  using log.reach_inv[of stalls "outStart c calls" s] outStart_inv[of c calls] by (simp add: logged_def outStart_def)

section \<open>What concurrent callers see\<close>

text \<open>
  C12: \<^verbatim>\<open>writeMu\<close> makes concurrent \<^verbatim>\<open>Write\<close> calls behave as if they ran one after the other. Take any number of \<^verbatim>\<open>Write\<close> and \<^verbatim>\<open>Close\<close> calls on
  an established connection and any interleaving of their turns, with stalls, short writes and errors of the transport. At most one
  call is in a locked section; the calls that have returned have the results of whole \<^verbatim>\<open>Write\<close> calls in the order of the log,
  each in it exactly once; and whenever the lock is free the connection is the one which those calls, the alert and the closing of
  the transport leave, so that records are never mixed and no sequence number is skipped or used twice. The result of a \<^verbatim>\<open>Close\<close> joins the
  errors of its own alert and of the transport.
\<close>

theorem concurrent_writes_serialized:
  assumes "cn_handshakeDone c" "cn_outCipher c \<noteq> None" "\<not> cn_closed c" "outReach stalls (outStart c calls) s"
  shows "(\<exists>c1. outSeq g c (os_log s) c1 \<and> (os_mu s = None \<longrightarrow> os_conn s = c1)) \<and>
    (\<forall>i < length (os_calls s). \<forall>j < length (os_calls s). holdsMu (snd (os_calls s ! i)) \<and> holdsMu (snd (os_calls s ! j)) \<longrightarrow> i = j) \<and>
    (\<forall>i b w. Wrote i b w \<in> set (os_log s) \<longleftrightarrow> i < length (os_calls s) \<and> os_calls s ! i = (WriteCall b, WriteReturned w)) \<and>
    distinct (filter isWrote (os_log s))"
proof (intro conjI)
  show "\<exists>c1. outSeq g c (os_log s) c1 \<and> (os_mu s = None \<longrightarrow> os_conn s = c1)"
    using outReach_simulates[OF assms(4,1-3)] by (fastforce simp: simulates_def)
  show "\<forall>i < length (os_calls s). \<forall>j < length (os_calls s). holdsMu (snd (os_calls s ! i)) \<and> holdsMu (snd (os_calls s ! j)) \<longrightarrow> i = j"
    using lockInv_exclusive[OF outReach_lockInv[OF assms(4,3)]] by blast
qed (use outReach_logged[OF assms(4,3)] in \<open>simp_all add: logged_def\<close>)

text \<open>
  C21: every schedule of concurrent \<^verbatim>\<open>Write\<close> and \<^verbatim>\<open>Close\<close> calls ends with all of them returned, when the transport does not stall. No
  schedule goes on for ever, and one that cannot go on has no call left: the mutex and the once function do not deadlock. The turns are
  those of calls on an established connection: the \<^verbatim>\<open>Handshake\<close> at the start of \<^verbatim>\<open>Write\<close> returns at once there and has no turn of its own
  (concurrent first uses, under the other mutex, are the subject of \<open>Handshake_Once\<close>).
\<close>

theorem calls_finish:
  assumes "\<not> cn_closed c" "\<forall>n. \<not> stalls n" "outReach stalls (outStart c calls) s"
  shows "(\<exists>s'. outReach stalls s s' \<and> (\<forall>(k, p) \<in> set (os_calls s'). returned p)) \<and>
    (\<forall>i < length (os_calls s). returned (snd (os_calls s ! i)) \<or> (\<exists>s'. outStep stalls s s')) \<and>
    \<not> (\<exists>f. f 0 = s \<and> (\<forall>n. outStep stalls (f n) (f (Suc n))))"
proof -
  note inv = outReach_lockInv[OF assms(3,1)]
  have "returned (snd (os_calls s ! i)) \<or> (\<exists>s'. outStep stalls s s')" if "i < length (os_calls s)" for i
    using outStep_exists[OF inv assms(2) that] by blast
  with runs_to_end[OF inv assms(2)] turns.no_infinite_run[of stalls] show ?thesis by simp
qed

text \<open>A transport whose peer has stopped reading: a \<^verbatim>\<open>Write\<close> on it returns only under a deadline or once it is closed.\<close>

definition peerStopped :: "net \<Rightarrow> bool" where
  "peerStopped n \<longleftrightarrow> wdeadline n = 0 \<and> \<not> net_closed n"

definition stuckIn :: "nat \<Rightarrow> outCall \<times> outPhase \<Rightarrow> Conn \<Rightarrow> outSys \<Rightarrow> bool" where
  "stuckIn i x c s \<longleftrightarrow> os_conn s = c \<and> os_mu s = Some i \<and> os_calls s ! i = x \<and>
     (\<forall>(k, p) \<in> set (os_calls s). k = CloseCall \<longrightarrow> p = Called \<or> p = Closing)"

lemma outStep_stuck:
  assumes "outStep peerStopped s s'" "lockInv s" "stuckIn i (k, Sending rec b t) c s"
    and c: "peerStopped (cn_rawConn c)" "\<not> cn_closed c" "cn_handshakeDone c" "cn_outCipher c \<noteq> None"
  shows "stuckIn i (k, Sending rec b t) c s'"
  using assms(1)
proof (cases rule: outStep.cases)
  case (take_turn j k' p now p' c')
  note st = assms(3)[unfolded stuckIn_def]
  have "k' = CloseCall \<Longrightarrow> p = Called \<or> p = Closing" using st take_turn(2,3) nth_mem by fastforce
  moreover have "j \<noteq> i" using st take_turn(3,4) c(1) by auto
  then have "\<not> holdsMu p" using lockInv_call(2)[OF assms(2) take_turn(2,3)] st by simp
  ultimately have "k' = CloseCall \<and> p = Called"
    using take_turn(4) st lockInv_call(1)[OF assms(2) take_turn(2,3)] by (cases k'; cases p) auto
  then have t: "k' = CloseCall" "p = Called" "p' = Closing" "c' = c" using take_turn(5) st c by auto
  have "set ((os_calls s)[j := (k', p')]) \<subseteq> insert (k', p') (set (os_calls s))" by (rule set_update_subset_insert)
  then show ?thesis using st \<open>j \<noteq> i\<close> t unfolding stuckIn_def take_turn(1) by (fastforce simp: afterTurn_def)
qed

text \<open>
  C39: \<^verbatim>\<open>Close\<close> does not unblock a blocked \<^verbatim>\<open>Write\<close>, and blocks behind it. When a \<^verbatim>\<open>Write\<close> is in the transport of a peer that has stopped reading,
  without a write deadline, and \<^verbatim>\<open>Close\<close> is called after that, then however many \<^verbatim>\<open>Write\<close> and \<^verbatim>\<open>Close\<close> calls run and for however long, the
  \<^verbatim>\<open>Write\<close> stays where it is, every \<^verbatim>\<open>Close\<close> waits for \<^verbatim>\<open>writeMu\<close> or for the first \<^verbatim>\<open>Close\<close>, and neither the deadline for the alert is set
  nor the transport closed. \<^verbatim>\<open>net.Conn\<close> documents that blocked operations are unblocked by \<^verbatim>\<open>Close\<close>. (A deadline set by a third call would
  end the wait.)
\<close>

theorem close_waits_for_write:
  assumes "cn_handshakeDone c" "cn_outCipher c \<noteq> None" "\<not> cn_closed c" "outReach peerStopped (outStart c calls) s"
    and "os_mu s = Some i" "os_calls s ! i = (k, Sending rec b t)" "\<forall>(k, p) \<in> set (os_calls s). k = CloseCall \<longrightarrow> p = Called"
    and "wdeadline (cn_rawConn (os_conn s)) = 0" "\<not> net_closed (cn_rawConn (os_conn s))" "\<not> cn_closed (os_conn s)"
    and "outReach peerStopped s s'"
  shows "os_calls s' ! i = (k, Sending rec b t) \<and> os_conn s' = os_conn s \<and>
    (\<forall>(k, p) \<in> set (os_calls s'). k = CloseCall \<longrightarrow> p = Called \<or> p = Closing)"
proof -
  have "established c (os_conn s)" using outReach_simulates[OF assms(4,1-3)] by blast
  then have c: "peerStopped (cn_rawConn (os_conn s))" "\<not> cn_closed (os_conn s)" "cn_handshakeDone (os_conn s)" "cn_outCipher (os_conn s) \<noteq> None"
    using assms(8-10) by (simp_all add: established_def peerStopped_def)
  have "lockInv s' \<and> stuckIn i (k, Sending rec b t) (os_conn s) s'"
    using assms(11)
  proof (induction rule: reach.induct)
    case start
    then show ?case using outReach_lockInv[OF assms(4,3)] assms(5-7) by (auto simp: stuckIn_def)
  next
    case (next_step s1 s2)
    then show ?case using outStep_stuck[OF next_step(2) _ _ c] outStep_lockInv by blast
  qed
  then show ?thesis by (simp add: stuckIn_def)
qed

section \<open>Runs\<close>

text \<open>A schedule: the calls that are given a turn, in order; a call that is not ready passes.\<close>

definition giveTurn :: "(net \<Rightarrow> bool) \<Rightarrow> nat \<Rightarrow> outSys \<Rightarrow> outSys" where
  "giveTurn stalls i s =
     (if i < length (os_calls s) \<and> ready stalls s (fst (os_calls s ! i)) (snd (os_calls s ! i))
      then (case turn 0 (fst (os_calls s ! i)) (snd (os_calls s ! i)) (os_conn s) of
              (p', c) \<Rightarrow> afterTurn i (fst (os_calls s ! i)) (snd (os_calls s ! i)) p' c s)
      else s)"

lemma giveTurn_reach: "outReach stalls s0 s \<Longrightarrow> outReach stalls s0 (giveTurn stalls i s)"
  unfolding giveTurn_def by (auto split: prod.splits intro!: reach.next_step[of "outStep stalls" s0 s] outStep.take_turn)

lemma schedule_reach: "outReach stalls s0 s \<Longrightarrow> outReach stalls s0 (fold (giveTurn stalls) is s)"
  by (induction "is" arbitrary: s) (auto intro: giveTurn_reach)

lemma demo_seal:
  "Seal RecordTypeApplicationData [7] demoCipher = (Inr (sealedRecord demoCipher RecordTypeApplicationData [7] 0), advance demoCipher)"
  "Seal RecordTypeAlert [1, 0] demoCipher = (Inr (sealedRecord demoCipher RecordTypeAlert [1, 0] 0), advance demoCipher)"
  "Seal RecordTypeApplicationData [7] (advance demoCipher) =
     (Inr (sealedRecord (advance demoCipher) RecordTypeApplicationData [7] 0), advance (advance demoCipher))"
  by (simp_all add: Seal_Inr sealable_def advance_def demo_seq MaxPlaintextLength_def GCMTagSize_def MaxCiphertextLength_def)

lemma giveTurn_record:
  "giveTurn stalls i \<lparr>os_conn = c, os_mu = m, os_once = x, os_calls = cs, os_log = l\<rparr> =
     (if i < length cs \<and> ready stalls \<lparr>os_conn = c, os_mu = m, os_once = x, os_calls = cs, os_log = l\<rparr> (fst (cs ! i)) (snd (cs ! i))
      then (case turn 0 (fst (cs ! i)) (snd (cs ! i)) c of (p', c') \<Rightarrow>
        \<lparr>os_conn = c', os_mu = (if holdsMu p' then Some i else if holdsMu (snd (cs ! i)) then None else m),
         os_once = (if fst (cs ! i) = CloseCall \<and> snd (cs ! i) = Called \<and> \<not> cn_closed c then Some i else x),
         os_calls = cs[i := (fst (cs ! i), p')], os_log = l @ eventOf i (fst (cs ! i)) (snd (cs ! i)) p'\<rparr>)
      else \<lparr>os_conn = c, os_mu = m, os_once = x, os_calls = cs, os_log = l\<rparr>)"
  by (auto simp: giveTurn_def afterTurn_def split: prod.splits)

lemmas run_simps = giveTurn_record outStart_def turn_defs chunkOf_def MaxPlaintextLength_def
  demo_seal[unfolded RecordTypeAlert_def RecordTypeApplicationData_def] writeFull_def connWrite_def setWriteDeadline_def netClose_def quietNet_simps

theorem calls_finish_witness:
  "\<exists>s'. outReach (\<lambda>_. False) (outStart demoConn [WriteCall [7], CloseCall]) s' \<and> (\<forall>(k, p) \<in> set (os_calls s'). returned p)"
  using calls_finish[where stalls = "\<lambda>_. False" and c = demoConn and calls = "[WriteCall [7], CloseCall]", OF _ _ reach.start] by auto

text \<open>\<^verbatim>\<open>Close\<close> is not one section: a \<^verbatim>\<open>Write\<close> may succeed between its alert and its \<^verbatim>\<open>rawConn.Close\<close>.\<close>

theorem concurrent_writes_serialized_witness:
  "\<exists>(s :: outSys) c1. outReach (\<lambda>_. False) (outStart demoConn [CloseCall, WriteCall [7]]) s \<and>
     os_log s = [Notified 0 None, Wrote 1 [7] (1, None)] \<and> outSeq demoPki demoConn (os_log s) c1 \<and> os_conn s = c1"
proof -
  let ?s = "fold (giveTurn (\<lambda>_. False)) [0, 0, 0, 1, 1, 1, 1] (outStart demoConn [CloseCall, WriteCall [7]])"
  have r: "outReach (\<lambda>_. False) (outStart demoConn [CloseCall, WriteCall [7]]) ?s" by (rule schedule_reach[OF reach.start])
  have "os_log ?s = [Notified 0 None, Wrote 1 [7] (1, None)]" "os_mu ?s = None"
    by (simp_all add: run_simps)
  with concurrent_writes_serialized[OF _ _ _ r, of demoPki] r show ?thesis by auto
qed

theorem close_waits_for_write_witness:
  "\<exists>(s :: outSys) s' rec. outReach peerStopped (outStart demoConn [WriteCall [7], CloseCall]) s \<and> outReach peerStopped s s' \<and>
     os_calls s = [(WriteCall [7], Sending rec [7] 0), (CloseCall, Called)] \<and> os_calls s' ! 0 = (WriteCall [7], Sending rec [7] 0) \<and>
     os_calls s' ! 1 = (CloseCall, Closing) \<and> os_conn s' = os_conn s"
proof -
  let ?s = "fold (giveTurn peerStopped) [0, 0] (outStart demoConn [WriteCall [7], CloseCall])"
  let ?fin = "fold (giveTurn peerStopped) [1] ?s"
  note r = schedule_reach[OF reach.start[of "outStep peerStopped" "outStart demoConn [WriteCall [7], CloseCall]"], of "[0, 0]"]
    schedule_reach[OF reach.start, of peerStopped ?s "[1]"]
  let ?rec = "sealedRecord demoCipher RecordTypeApplicationData [7] 0"
  have s: "os_mu ?s = Some 0" "os_calls ?s = [(WriteCall [7], Sending ?rec [7] 0), (CloseCall, Called)]"
    "wdeadline (cn_rawConn (os_conn ?s)) = 0" "\<not> net_closed (cn_rawConn (os_conn ?s))" "\<not> cn_closed (os_conn ?s)"
    "os_calls ?fin ! 1 = (CloseCall, Closing)"
    by (simp_all add: run_simps quietNet_def)
  have "os_calls ?fin ! 0 = (WriteCall [7], Sending ?rec [7] 0) \<and> os_conn ?fin = os_conn ?s"
    using close_waits_for_write[OF _ _ _ r(1) s(1) _ _ s(3-5) r(2)] s(2) by simp
  with r s(2,6) show ?thesis by blast
qed

end
