(* ===== verification/Agreement.thy ===== *)
theory Agreement
  imports Authentication
begin

text \<open>
  Agreement of the two roles. The transcript determines the messages it was made of, so that a client and a server that have signed
  and verified the same bytes agree on every message below the signature, on mutual attestation and on the session keys.
\<close>

section \<open>Transcripts determine their messages\<close>

lemma be3_inj: "be_of_nat 3 m = be_of_nat 3 n \<Longrightarrow> m < 2 ^ 24 \<Longrightarrow> n < 2 ^ 24 \<Longrightarrow> m = n"
proof -
  assume "be_of_nat 3 m = be_of_nat 3 n" "m < 2 ^ 24" "n < 2 ^ 24"
  then have "m mod 256 ^ 3 = n mod 256 ^ 3" "m < 256 ^ 3" "n < 256 ^ 3" using nat_of_be_of_nat[of 3] by (metis, simp_all)
  then show "m = n" by (simp only: mod_less)
qed

lemma encode_inj:
  assumes "encodeHandshakeMsg t b @ rest = encodeHandshakeMsg t' b' @ rest'" "length b < 2 ^ 24" "length b' < 2 ^ 24"
  shows "t = t' \<and> b = b' \<and> rest = rest'"
proof -
  have "t = t'" "be_of_nat 3 (length b) @ b @ rest = be_of_nat 3 (length b') @ b' @ rest'"
    using assms(1) by (simp_all add: encodeHandshakeMsg_eq)
  then have "be_of_nat 3 (length b) = be_of_nat 3 (length b')" "b @ rest = b' @ rest'" by simp_all
  with be3_inj assms(2,3) \<open>t = t'\<close> show ?thesis by fastforce
qed

text \<open>The last message needs no bound: its length is that of the rest of the transcript.\<close>

lemma encode_last_inj: "encodeHandshakeMsg t b = encodeHandshakeMsg t' b' \<Longrightarrow> t = t' \<and> b = b'"
proof -
  assume e: "encodeHandshakeMsg t b = encodeHandshakeMsg t' b'"
  then have "length b = length b'" using length_encodeHandshakeMsg by (metis add_left_cancel)
  with e show "t = t' \<and> b = b'" by (simp add: encodeHandshakeMsg_eq)
qed

lemma tsOf_inj:
  assumes "tsOf (ms @ [m]) = tsOf (ms' @ [m'])" "length ms = length ms'"
    and "\<forall>x \<in> set ms \<union> set ms'. length (snd x) < 2 ^ 24"
  shows "ms = ms' \<and> m = m'"
  using assms(2,1,3)
proof (induction ms ms' rule: list_induct2)
  case Nil
  then show ?case using encode_last_inj by (simp add: prod_eq_iff)
next
  case (Cons x xs y ys)
  then show ?case using encode_inj[of "fst x" "snd x" "tsOf (xs @ [m])" "fst y" "snd y" "tsOf (ys @ [m'])"] by (auto simp: prod_eq_iff)
qed

section \<open>Agreement\<close>

text \<open>The messages that the server's CertificateVerify covers.\<close>

definition signedByServer :: "bytes \<Rightarrow> bytes \<Rightarrow> bytes \<Rightarrow> bytes \<Rightarrow> (byte \<times> bytes) list" where
  "signedByServer ch sh ee pem = [(HandshakeTypeClientHello, ch), (HandshakeTypeServerHello, sh),
     (HandshakeTypeEncryptedExtensions, ee), (HandshakeTypeCertificate, pem)]"

lemma signedByServer_inj:
  assumes "tsOf (signedByServer ch sh ee pem) = tsOf (signedByServer ch' sh' ee' pem')"
    and "length ch < 2 ^ 24" "length sh < 2 ^ 24" "length ee < 2 ^ 24" "length ch' < 2 ^ 24" "length sh' < 2 ^ 24" "length ee' < 2 ^ 24"
  shows "ch = ch' \<and> sh = sh' \<and> ee = ee' \<and> pem = pem'"
proof -
  let ?p = "\<lambda>ch sh ee :: bytes. [(HandshakeTypeClientHello, ch), (HandshakeTypeServerHello, sh), (HandshakeTypeEncryptedExtensions, ee)]"
  have "tsOf (?p ch sh ee @ [(HandshakeTypeCertificate, pem)]) = tsOf (?p ch' sh' ee' @ [(HandshakeTypeCertificate, pem')])"
    using assms(1) by (simp add: signedByServer_def)
  from tsOf_inj[OF this] assms(2-) show ?thesis by simp
qed

text \<open>What each role knows of the hellos and of the shared keys, once both have the same hellos.\<close>

lemma same_hellos_same_keys:
  fixes cenv senv :: hsEnv
  assumes doc: "suiteDocumented g"
    and ck: "sm2_GenerateKey g (hx_key cenv) = Inr ck" "encodePublicKeySM2 (sk_pub ck) = Some cpub" "hx_rand cenv 32 = Inr cr"
    and sk: "sm2_GenerateKey g (hx_key senv) = Inr sk" "encodePublicKeySM2 (sk_pub sk) = Some spub" "hx_rand senv 32 = Inr sr"
    and ch: "ch = clientHelloBody ccfg (copy_at (replicate 32 0) 0 cr) cpub" and sh: "sh = serverHelloBody (copy_at (replicate 32 0) 0 sr) spub"
    and client: "decodePublicKeySM2 g (slice sh 32 97) = Inr sp" "computeECDHESharedSecret g sp ck = Inr csecret"
      "deriveHandshakeTrafficKeys g csecret (copy_at (replicate 32 0) 0 cr) (take 32 sh) = Inr ckeys"
    and server: "decodePublicKeySM2 g (slice ch 32 97) = Inr cp" "computeECDHESharedSecret g cp sk = Inr ssecret"
      "deriveHandshakeTrafficKeys g ssecret (take 32 ch) (copy_at (replicate 32 0) 0 sr) = Inr skeys"
  shows "csecret = ssecret \<and> ckeys = skeys \<and> length ch = 98 \<and> length sh = 97 \<and> (ch ! 97 = 1 \<longleftrightarrow> cf_VerifyMutualAttestation ccfg)"
proof -
  obtain a where ag: "agreement g cenv senv a" using agreement_exists[OF doc ck(1) sk(1) ck(3) sk(3)] ..
  then have a: "ag_cpriv a = ck" "ag_spriv a = sk" "ag_cpub a = cpub" "ag_spub a = spub"
    "ag_cr a = copy_at (replicate 32 0) 0 cr" "ag_sr a = copy_at (replicate 32 0) 0 sr"
    using ck sk by (auto simp: agreement_def)
  have hello: "ch = helloOfClient a ccfg" "sh = helloOfServer a" by (simp_all add: ch sh helloOfClient_def helloOfServer_def a)
  note f = hello_fields(1-4)[OF ag, of ccfg, folded hello] hello_fields(5-7)[OF ag, folded hello]
  have "sp = sk_pub sk" "cp = sk_pub ck" using ag client(1) server(1) f(3,7) a by (auto simp: agreement_def)
  then have "sessionKeys g sp ck (ag_cr a) (ag_sr a) = Inr (ag_secret a, ag_keys a, ag_server a, ag_client a)"
    "sessionKeys g cp sk (ag_cr a) (ag_sr a) = Inr (ag_secret a, ag_keys a, ag_server a, ag_client a)"
    using ag a by (auto simp: agreement_def)
  then show ?thesis using client(2,3) server(2,3) f a by (auto simp: sessionKeys_Inr)
qed

text \<open>The messages up to the server's Finished, and with the client's part and its Finished the whole transcript.\<close>

definition serverFinished :: "gmsm \<Rightarrow> HandshakeTrafficKeys \<Rightarrow> bytes \<Rightarrow> bytes \<Rightarrow> bytes \<Rightarrow> bytes \<Rightarrow> bytes \<Rightarrow> (byte \<times> bytes) list" where
  "serverFinished g keys ch sh ee pem sig =
     (let signed = signedByServer ch sh ee pem @ [(HandshakeTypeCertificateVerify, sig)]
      in signed @ [(HandshakeTypeFinished, computeHMACSM3 g (hk_ServerFinishedKey keys) (tsOf signed))])"

definition wholeTranscript :: "gmsm \<Rightarrow> HandshakeTrafficKeys \<Rightarrow> (byte \<times> bytes) list \<Rightarrow> bytes" where
  "wholeTranscript g keys ms = tsOf (ms @ [(HandshakeTypeFinished, computeHMACSM3 g (hk_ClientFinishedKey keys) (tsOf ms))])"

lemma clientView_alt:
  "clientView g env ctx cfg res ch sh ee sig own \<longleftrightarrow>
     (\<exists>priv pubBytes r serverPub secret keys c pub.
        sm2_GenerateKey g (hx_key env) = Inr priv \<and> encodePublicKeySM2 (sk_pub priv) = Some pubBytes \<and>
        hx_rand env 32 = Inr r \<and> ch = clientHelloBody cfg (copy_at (replicate 32 0) 0 r) pubBytes \<and>
        97 \<le> length sh \<and> length sh < 2 ^ 24 \<and> length ee < 2 ^ 24 \<and> length (hr_PeerCertPEM res) < 2 ^ 24 \<and> length sig < 2 ^ 24 \<and>
        decodePublicKeySM2 g (slice sh 32 97) = Inr serverPub \<and> computeECDHESharedSecret g serverPub priv = Inr secret \<and>
        deriveHandshakeTrafficKeys g secret (copy_at (replicate 32 0) 0 r) (take 32 sh) = Inr keys \<and>
        VerifyPeerCertificateAndEvidence g (hx_fs env) (hx_verifyNow env) (hr_PeerCertPEM res) (Some cfg) = Inr (hr_PeerEvidence res) \<and>
        gx509_ReadCertificateFromPem g (hr_PeerCertPEM res) = Inr c \<and> hr_PeerCertificate res = Some c \<and>
        extractSM2PublicKey (gc_PublicKey c) = Inr pub \<and> sm2_Verify g pub (tsOf (signedByServer ch sh ee (hr_PeerCertPEM res))) sig \<and>
        ownPart g env ctx cfg (ee \<noteq> [] \<and> ee ! 0 = 1) (tsOf (serverFinished g keys ch sh ee (hr_PeerCertPEM res) sig)) own \<and>
        appCiphers g secret (wholeTranscript g keys (serverFinished g keys ch sh ee (hr_PeerCertPEM res) sig @ own))
          (hr_OutCipher res) (hr_InCipher res))"
  unfolding clientView_def Let_def serverFinished_def wholeTranscript_def signedByServer_def append_assoc ..

lemma serverView_alt:
  "serverView g env ctx cfg res ch mutual sh cert sig peer \<longleftrightarrow>
     (\<exists>priv pubBytes r clientPub secret keys certKey.
        sm2_GenerateKey g (hx_key env) = Inr priv \<and> encodePublicKeySM2 (sk_pub priv) = Some pubBytes \<and>
        hx_rand env 32 = Inr r \<and> sh = serverHelloBody (copy_at (replicate 32 0) 0 r) pubBytes \<and>
        97 \<le> length ch \<and> length ch < 2 ^ 24 \<and> decodePublicKeySM2 g (slice ch 32 97) = Inr clientPub \<and>
        credential g env ctx cfg cert certKey \<and>
        mutual = (cf_VerifyMutualAttestation cfg \<or> 97 < length ch \<and> ch ! 97 = 1) \<and>
        computeECDHESharedSecret g clientPub priv = Inr secret \<and>
        deriveHandshakeTrafficKeys g secret (take 32 ch) (copy_at (replicate 32 0) 0 r) = Inr keys \<and>
        (let ee = if mutual then [1] else [0]; finished = serverFinished g keys ch sh ee cert sig
         in sm2_Sign g certKey (tsOf (signedByServer ch sh ee cert)) (hx_sign env) = Inr sig \<and>
            appCiphers g secret (wholeTranscript g keys (finished @ peer)) (hr_InCipher res) (hr_OutCipher res) \<and>
            peerPart g env cfg mutual (tsOf finished) (hr_PeerCertPEM res) (hr_PeerEvidence res) (hr_PeerCertificate res) peer))"
  unfolding serverView_def Let_def serverFinished_def wholeTranscript_def signedByServer_def append_assoc ..

text \<open>Views of one run each, with the same bytes under the server's signature, are views of one and the same session.\<close>

lemma views_agree:
  assumes "suiteDocumented g" and "clientView g cenv cctx ccfg cres ch sh ee sig own"
    and "serverView g senv sctx scfg sres ch' mutual sh' cert sig' peer"
    and "tsOf (signedByServer ch sh ee (hr_PeerCertPEM cres)) = tsOf (signedByServer ch' sh' (if mutual then [1] else [0]) cert)"
  shows "ch = ch' \<and> sh = sh' \<and> ee = (if mutual then [1] else [0]) \<and> hr_PeerCertPEM cres = cert \<and>
    (mutual \<longleftrightarrow> cf_VerifyMutualAttestation ccfg \<or> cf_VerifyMutualAttestation scfg) \<and>
    (own \<noteq> [] \<longleftrightarrow> mutual) \<and> (hr_PeerCertificate sres \<noteq> None \<longleftrightarrow> mutual) \<and>
    (sig = sig' \<and> own = peer \<longrightarrow> hr_OutCipher cres = hr_InCipher sres \<and> hr_InCipher cres = hr_OutCipher sres)"
proof -
  obtain ck cpub cr sp csecret ckeys where c: "sm2_GenerateKey g (hx_key cenv) = Inr ck" "encodePublicKeySM2 (sk_pub ck) = Some cpub"
      "hx_rand cenv 32 = Inr cr" "ch = clientHelloBody ccfg (copy_at (replicate 32 0) 0 cr) cpub"
      "decodePublicKeySM2 g (slice sh 32 97) = Inr sp" "computeECDHESharedSecret g sp ck = Inr csecret"
      "deriveHandshakeTrafficKeys g csecret (copy_at (replicate 32 0) 0 cr) (take 32 sh) = Inr ckeys"
      "length sh < 2 ^ 24" "length ee < 2 ^ 24"
    and own: "ownPart g cenv cctx ccfg (ee \<noteq> [] \<and> ee ! 0 = 1) (tsOf (serverFinished g ckeys ch sh ee (hr_PeerCertPEM cres) sig)) own"
    and capp: "appCiphers g csecret (wholeTranscript g ckeys (serverFinished g ckeys ch sh ee (hr_PeerCertPEM cres) sig @ own))
      (hr_OutCipher cres) (hr_InCipher cres)"
    using assms(2) unfolding clientView_alt by blast
  let ?ee = "if mutual then [1] else [0 :: byte]"
  obtain sk spub sr cp ssecret skeys where s: "sm2_GenerateKey g (hx_key senv) = Inr sk" "encodePublicKeySM2 (sk_pub sk) = Some spub"
      "hx_rand senv 32 = Inr sr" "sh' = serverHelloBody (copy_at (replicate 32 0) 0 sr) spub"
      "decodePublicKeySM2 g (slice ch' 32 97) = Inr cp" "computeECDHESharedSecret g cp sk = Inr ssecret"
      "deriveHandshakeTrafficKeys g ssecret (take 32 ch') (copy_at (replicate 32 0) 0 sr) = Inr skeys"
      "length ch' < 2 ^ 24" "mutual = (cf_VerifyMutualAttestation scfg \<or> 97 < length ch' \<and> ch' ! 97 = 1)"
    and peer: "peerPart g senv scfg mutual (tsOf (serverFinished g skeys ch' sh' ?ee cert sig'))
      (hr_PeerCertPEM sres) (hr_PeerEvidence sres) (hr_PeerCertificate sres) peer"
    and sapp: "appCiphers g ssecret (wholeTranscript g skeys (serverFinished g skeys ch' sh' ?ee cert sig' @ peer)) (hr_InCipher sres) (hr_OutCipher sres)"
    using assms(3) unfolding serverView_alt Let_def by blast
  have len: "length ch < 2 ^ 24" "length sh' < 2 ^ 24" by (simp_all add: c(4) s(4) clientHelloBody_def serverHelloBody_def Let_def)
  have eq: "ch = ch' \<and> sh = sh' \<and> ee = ?ee \<and> hr_PeerCertPEM cres = cert"
    by (rule signedByServer_inj[OF assms(4)]) (use len c(8,9) s(8) in simp_all)
  have keys: "csecret = ssecret \<and> ckeys = skeys \<and> length ch = 98 \<and> length sh = 97 \<and> (ch ! 97 = 1 \<longleftrightarrow> cf_VerifyMutualAttestation ccfg)"
    by (rule same_hellos_same_keys[OF assms(1) c(1-3) s(1-3)]) (use eq c(4-7) s(4-7) in simp_all)
  have "mutual \<longleftrightarrow> cf_VerifyMutualAttestation ccfg \<or> cf_VerifyMutualAttestation scfg" using s(9) eq keys by auto
  moreover have "own \<noteq> [] \<longleftrightarrow> mutual" using own eq by (auto simp: ownPart_def split: if_splits)
  moreover have "hr_PeerCertificate sres \<noteq> None \<longleftrightarrow> mutual" using peer by (auto simp: peerPart_def split: if_splits)
  moreover have "hr_OutCipher cres = hr_InCipher sres \<and> hr_InCipher cres = hr_OutCipher sres" if "sig = sig' \<and> own = peer"
    using appCiphers_functional[OF capp] sapp that eq keys by simp
  ultimately show ?thesis using eq by blast
qed

text \<open>
  C5: a client and a server agree on what the server signed. Suppose \<^verbatim>\<open>ClientHandshakeContext\<close> has succeeded on one side and
  \<^verbatim>\<open>ServerHandshakeContext\<close> on the other, with an attacker in between who may have changed every byte of the line. The client has checked the
  server's certificate, and a signature of its key over the ClientHello, ServerHello, EncryptedExtensions and Certificate of its run; the server has
  signed those of its own run. If these are the same bytes, as it is when signatures cannot be forged, then both runs saw the same hellos, so
  that neither has been altered on the way, the same extensions and the same server certificate; mutual attestation was negotiated exactly if one of the two
  configurations asks for it, so that it can neither be stripped nor forced; and if the certificate messages after that agree too, the
  application ciphers of the two are those of one session.
\<close>

theorem transcript_agreement:
  assumes "suiteDocumented g"
    and "ClientHandshakeContext g cenv cctxp cs = (Inr cres, cs')" and "ServerHandshakeContext g senv sctxp ss = (Inr sres, ss')"
  shows "\<exists>ch sh ee sig own ch' mutual sh' cert sig' peer.
    clientView g cenv (case cctxp of None \<Rightarrow> contextBackground | Some c \<Rightarrow> c) (cfgOf cs) cres ch sh ee sig own \<and>
    serverView g senv (case sctxp of None \<Rightarrow> contextBackground | Some c \<Rightarrow> c) (cfgOf ss) sres ch' mutual sh' cert sig' peer \<and>
    fst (clientToVerify g cenv cs) = Inr (tsOf (signedByServer ch sh ee (hr_PeerCertPEM cres))) \<and>
    fst (serverToSign g senv sctxp ss) = Inr (tsOf (signedByServer ch' sh' (if mutual then [1] else [0]) cert)) \<and>
    (fst (clientToVerify g cenv cs) = fst (serverToSign g senv sctxp ss) \<longrightarrow>
       ch = ch' \<and> sh = sh' \<and> ee = (if mutual then [1] else [0]) \<and> hr_PeerCertPEM cres = cert \<and>
       (mutual \<longleftrightarrow> cf_VerifyMutualAttestation (cfgOf cs) \<or> cf_VerifyMutualAttestation (cfgOf ss)) \<and>
       (own \<noteq> [] \<longleftrightarrow> mutual) \<and> (hr_PeerCertificate sres \<noteq> None \<longleftrightarrow> mutual) \<and>
       (sig = sig' \<and> own = peer \<longrightarrow> hr_OutCipher cres = hr_InCipher sres \<and> hr_InCipher cres = hr_OutCipher sres))"
proof -
  obtain ch sh ee sig own where c: "clientView g cenv (case cctxp of None \<Rightarrow> contextBackground | Some c \<Rightarrow> c) (cfgOf cs) cres ch sh ee sig own"
    "fst (clientToVerify g cenv cs) = Inr (tsOf (signedByServer ch sh ee (hr_PeerCertPEM cres)))"
    using ClientHandshakeContext_view[OF assms(2)] unfolding signedByServer_def by blast
  obtain ch' mutual sh' cert sig' peer where
    s: "serverView g senv (case sctxp of None \<Rightarrow> contextBackground | Some c \<Rightarrow> c) (cfgOf ss) sres ch' mutual sh' cert sig' peer"
    "fst (serverToSign g senv sctxp ss) = Inr (tsOf (signedByServer ch' sh' (if mutual then [1] else [0]) cert))"
    using ServerHandshakeContext_view[OF assms(3)] unfolding signedByServer_def by blast
  have "tsOf (signedByServer ch sh ee (hr_PeerCertPEM cres)) = tsOf (signedByServer ch' sh' (if mutual then [1] else [0]) cert)"
    if "fst (clientToVerify g cenv cs) = fst (serverToSign g senv sctxp ss)"
    using that c(2) s(2) by (simp split del: if_split)
  note agree = impI[OF views_agree[OF assms(1) c(1) s(1) this]]
  show ?thesis
    by (rule exI[of _ ch], rule exI[of _ sh], rule exI[of _ ee], rule exI[of _ sig], rule exI[of _ own], rule exI[of _ ch'],
        rule exI[of _ mutual], rule exI[of _ sh'], rule exI[of _ cert], rule exI[of _ sig'], rule exI[of _ peer]) (intro conjI c s agree)
qed

theorem transcript_agreement_witness:
  "\<exists>cres sres c2s s2c cs' ss' ch sh sig own sig' peer.
     ClientHandshakeContext demoPki (demoSide 3) None ((demoEnd demoPeer)\<lparr>hs_net := quietNet\<lparr>rx := s2c\<rparr>\<rparr>) = (Inr cres, cs') \<and>
     ServerHandshakeContext demoPki (demoSide 5) None ((demoEnd demoPeer)\<lparr>hs_net := quietNet\<lparr>rx := c2s\<rparr>\<rparr>) = (Inr sres, ss') \<and>
     tx (hs_net cs') = c2s \<and> tx (hs_net ss') = s2c \<and>
     clientView demoPki (demoSide 3) contextBackground demoPeer cres ch sh [1] sig own \<and>
     serverView demoPki (demoSide 5) contextBackground demoPeer sres ch True sh (hr_PeerCertPEM cres) sig' peer \<and> own \<noteq> []"
proof -
  let ?e = "demoEnd demoPeer"
  obtain cres sres where "completes demoPki (demoSide 3) None ?e (demoSide 5) None ?e cres sres" using demo_completes by blast
  then obtain c2s s2c cs' ss' where
    c: "ClientHandshakeContext demoPki (demoSide 3) None (?e\<lparr>hs_net := quietNet\<lparr>rx := s2c\<rparr>\<rparr>) = (Inr cres, cs')"
    and s: "ServerHandshakeContext demoPki (demoSide 5) None (?e\<lparr>hs_net := quietNet\<lparr>rx := c2s\<rparr>\<rparr>) = (Inr sres, ss')"
    and tx: "tx (hs_net cs') = c2s" "tx (hs_net ss') = s2c"
    and same: "fst (clientToVerify demoPki (demoSide 3) (?e\<lparr>hs_net := quietNet\<lparr>rx := s2c\<rparr>\<rparr>)) =
      fst (serverToSign demoPki (demoSide 5) None (?e\<lparr>hs_net := quietNet\<lparr>rx := c2s\<rparr>\<rparr>))"
    by (auto simp: completes_def demoEnd_net quietNet_simps)
  have cfg: "cfgOf (?e\<lparr>hs_net := n\<rparr>) = demoPeer" for n by (simp add: demoEnd_def cfgOf_def)
  from transcript_agreement[OF demoPki_suite c s] obtain ch sh ee sig own ch' mutual sh' cert sig' peer where
    v: "clientView demoPki (demoSide 3) contextBackground demoPeer cres ch sh ee sig own"
      "serverView demoPki (demoSide 5) contextBackground demoPeer sres ch' mutual sh' cert sig' peer"
    and agree: "ch = ch'" "sh = sh'" "ee = (if mutual then [1] else [0])" "hr_PeerCertPEM cres = cert" "mutual" "own \<noteq> [] \<longleftrightarrow> mutual"
    unfolding cfg option.case using same demoPeer_simps(2) by blast
  from v agree have "clientView demoPki (demoSide 3) contextBackground demoPeer cres ch sh [1] sig own"
    "serverView demoPki (demoSide 5) contextBackground demoPeer sres ch True sh (hr_PeerCertPEM cres) sig' peer" "own \<noteq> []" by simp_all
  with c s tx show ?thesis by blast
qed

end
