(* ===== verification/Spec2Isabelle.thy ===== *)
theory Spec2Isabelle
  imports Server Cert_Cache Handshake_Once Conn_Locks Agreement
begin

text \<open>
  Verification of teetls, a Go library for attested TLS between confidential virtual machines: a TLS 1.3 shaped protocol over
  SM2, SM3 and SM4-GCM in which an endpoint's certificate carries a CSV attestation report that binds the certificate key.

  \<^bold>\<open>The program and its parts.\<close> An application calls \<^verbatim>\<open>Listen\<close> or \<^verbatim>\<open>DialContext\<close> (\<^verbatim>\<open>src/transport.go\<close>) and gets a \<^verbatim>\<open>Conn\<close> (\<^verbatim>\<open>src/conn.go\<close>).
  The connection runs the handshake (\<^verbatim>\<open>src/handshake.go\<close>) once, on first use. The handshake exchanges hellos with ephemeral SM2
  keys, derives keys, and sends certificates that the configuration provides or generates (\<^verbatim>\<open>src/config.go\<close>, \<^verbatim>\<open>src/cert.go\<close>) with
  evidence (\<^verbatim>\<open>src/evidence.go\<close>) from a provider (\<^verbatim>\<open>src/provider.go\<close>); the provider asks the guest device (\<^verbatim>\<open>client.go\<close> and the platform
  files of \<^verbatim>\<open>src/pkg/csvattest\<close>) or a mock authority (\<^verbatim>\<open>mock.go\<close>) for a report. The peer's certificate and evidence are checked by
  \<^verbatim>\<open>src/verifier.go\<close>, which relies on the report and chain verification of \<^verbatim>\<open>verify.go\<close> and \<^verbatim>\<open>report.go\<close>. Handshake messages and
  application data are protected by the record layer (\<^verbatim>\<open>src/record.go\<close>).

  \<^bold>\<open>The language.\<close> \<open>Go_Prelude\<close> (byte strings, slices, \<^verbatim>\<open>encoding/binary\<close>, \<^verbatim>\<open>math/big\<close> bytes), \<open>Go_IO\<close> (errors as values, with wrapping and
  \<^verbatim>\<open>errors.Is\<close>; functions with state and result; the transport \<open>net\<close>), \<open>Go_Strings\<close> and \<open>Go_Crypto\<close> (HMAC, GCM, and the interface of the
  gmsm package); \<open>Go_Steps\<close> has reachability and the contracts of invariants, simulations and progress for step
  relations, on which connections, servers and concurrent calls rest. A Go \<^verbatim>\<open>error\<close> is a \<open>goerr\<close>; a run-time panic is the error \<open>Panic\<close>. A \<^verbatim>\<open>net.Conn\<close> is a record of the bytes
  the peer delivers, how the stream ends after them, the bytes written, the outcomes of the coming writes (errors and short
  counts included) and the deadlines. Sequence numbers and record lengths are kept at their width.

  \<^bold>\<open>The components,\<close> one theory each, with definitions named as in the source (a method that would clash has its type as prefix, \<open>Conn_Read\<close>):
  \<^item> \<open>Record_Layer\<close> (\<^verbatim>\<open>record.go\<close>): \<open>RecordCipher\<close> and all its operations. \<^verbatim>\<open>Unseal\<close> accepts exactly what \<^verbatim>\<open>SealWithPadding\<close> produces; no
    nonce that \<^verbatim>\<open>SealWithPadding\<close> hands to its AEAD comes twice over any run of calls (the nonces are read off the code with a recording
    AEAD, \<open>sealNonce\<close>); the outcome of sealing on every branch.
  \<^item> \<open>Handshake_Codec\<close> (\<^verbatim>\<open>handshake.go\<close>, the message layer): framing, reassembly over any cut into records, buffer bounds, point encoding,
    key schedule.
  \<^item> \<open>Csv_Report\<close>, \<open>Csv_Verify\<close>, \<open>Csv_Mock\<close>, \<open>Csv_Client\<close> (\<^verbatim>\<open>pkg/csvattest\<close>): layout and masking; verification as a refinement of
    declarative specifications (\<open>reportAccepted\<close>, \<open>chainTrusted\<close>); mock reports verify; what is requested from the device, what
    of its answer is handed out and that its resources are released.
  \<^item> \<open>Evidence\<close>, \<open>Config\<close>, \<open>Provider\<close>: the DER codec as a round trip and its type of results; validation and the certificate cache; both
    providers as interpretations of the contract \<open>evidence_source\<close>.
  \<^item> \<open>Verifier\<close>, \<open>Attestation\<close> (\<^verbatim>\<open>verifier.go\<close>): what an accepted peer has proved (\<open>peerAttested\<close>), the relation of the modes, where trust comes
    from, and that generated certificates are accepted.
  \<^item> \<open>Handshake\<close>: both roles, phase by phase, the bytes under the server's signature as each role computes them (\<open>clientToVerify\<close>, \<open>serverToSign\<close>, prefixes of
    the two roles), and the view each has of a run that succeeds (\<open>clientView\<close>, \<open>serverView\<close>). \<open>Handshake_Run\<close> and
    \<open>Honest_Run\<close> compose runs of the phases into runs of two honest endpoints, which complete with mirrored ciphers and drained
    lines. \<open>Authentication\<close> states what success means for each role. \<open>Agreement\<close> puts a run of
    \<^verbatim>\<open>ClientHandshakeContext\<close> and a run of \<^verbatim>\<open>ServerHandshakeContext\<close> that both succeeded side by side, with anything in between: when the bytes
    under the signature the client verified are those the server signed, they agree on hellos, extensions, certificate and keys.
  \<^item> \<open>Conn\<close> (\<^verbatim>\<open>conn.go\<close>): the connection record and its methods; the handshake runs once; an invariant over every sequence of method
    calls (\<open>connStep\<close>, \<open>connReach\<close>), and that the outcome of the handshake, success or error, is final. \<open>Conn_Stream\<close>: the outcomes of \<^verbatim>\<open>Read\<close> and \<^verbatim>\<open>Write\<close> as streams of sealed records, with what a failed \<^verbatim>\<open>Write\<close> leaves on the
    wire and in the cipher, authenticated end of stream,
    \<^verbatim>\<open>Close\<close>, commutation of overlapping calls, and a connection as an instance of the contract \<open>byte_source\<close> on which the loop of
    \<^verbatim>\<open>io.ReadFull\<close> is proved to end. \<open>Handshake_Once\<close> and \<open>Conn_Locks\<close>: \<^verbatim>\<open>handshake\<close> step by step under
    \<^verbatim>\<open>handshakeMutex\<close>, and \<^verbatim>\<open>Write\<close> and \<^verbatim>\<open>Close\<close> turn by turn under \<^verbatim>\<open>writeMu\<close> and \<^verbatim>\<open>closeOnce\<close>, with transport calls that may stall.
  \<^item> \<open>Cert_Cache\<close> (\<^verbatim>\<open>config.go\<close>): the two locked sections of \<^verbatim>\<open>GetOrGenerateCertificateContext\<close> under concurrent calls.
  \<^item> \<open>Transport\<close> (\<^verbatim>\<open>transport.go\<close>): \<^verbatim>\<open>Listen\<close>, \<^verbatim>\<open>Accept\<close>, \<^verbatim>\<open>DialContext\<close>, the HTTP helpers. \<open>Session\<close> composes everything: a dialled and an
    accepted connection exist and carry data both ways, and a dialled peer is attested. \<open>Server\<close> is a listener over its lifetime, with
    all its connections over one shared configuration, as a step relation and an invariant: established clients are attested.

  \<^bold>\<open>Parameters and hypotheses.\<close> Code outside the repository is an argument: the record \<open>gmsm\<close> (SM2, SM3, SM4, and the certificate
  functions of gmsm/x509), the file system, the system calls of the platform, the dialer, the clock and the random draws. Safety
  properties hold for every value of these arguments; in particular no cryptographic hardness is assumed, and a property says which
  checks a peer has passed, not that it could not have forged them. Only the properties that something succeeds, and the
  agreement on keys between two runs, need documented behaviour: \<open>suiteDocumented\<close> (keys on the curve, the Diffie-Hellman equation, digests and derived keys of the documented length),
  \<open>sm2Documented\<close> (signatures verify under their key), \<open>x509Documented\<close> (a created certificate parses to its template) and \<open>recognised\<close> (a
  side's certificate passes the check of the other). Each has a
  concrete instance (\<open>demoPki\<close> and the endpoints of \<open>Authentication\<close>), on which the witnesses run.

  \<^bold>\<open>Loops and bounds.\<close> There is no fuel: the reading loops of handshake and connection end because every turn takes bytes off the
  transport, the writing loops because the data gets shorter, each by a measure. The loop of \<^verbatim>\<open>io.ReadFull\<close> over an arbitrary reader may
  not end and is a partial function, proved to return for connections in step.

  \<^bold>\<open>Concurrency.\<close> A method is a function on the record, and step relations compose methods. That this is enough is proved where calls meet
  on a lock: interleaved \<^verbatim>\<open>Write\<close> and \<^verbatim>\<open>Close\<close> calls refine whole calls one after the other (\<open>Conn_Locks\<close>, where \<^verbatim>\<open>Close\<close> is seen to be two
  sections, the alert and \<^verbatim>\<open>rawConn.Close\<close>, and to wait for a stalled \<^verbatim>\<open>Write\<close>), interleaved cache lookups are linearizable (\<open>Cert_Cache\<close>), and
  \<^verbatim>\<open>Read\<close> and \<^verbatim>\<open>Write\<close>, which hold different mutexes, commute (\<open>Conn_Stream\<close>). Concurrent first uses share one
  handshake, whose ciphers are in place before anybody is let through (\<open>Handshake_Once\<close>). The watcher goroutine
  of \<^verbatim>\<open>DialContext\<close> is the optional deadline it may set before it is joined; as it can only make transport calls fail earlier, its
  effect on the handshake is among the outcomes of the transport.

  \<^bold>\<open>Not modelled.\<close> The log line of permissive mode and the texts of formatted errors beyond their prefix have no effect that the code
  looks at; the kernel behind the system calls of \<^verbatim>\<open>ioctl_linux.go\<close> and \<^verbatim>\<open>net/http\<close> behind the two constructors are not in the repository;
  package comments and tests are not code of the program. Memory zeroing has no observable result.
\<close>

end
